(* ===== verification/Prelude.thy ===== *)
theory Prelude
  imports Main "HOL-Library.Word" "HOL-Library.Char_ord" "HOL-Library.List_Lexorder"
begin

text \<open>
  What every component of the development shares: the vocabulary for bytes, instants and
  durations; operations that thread a state and may fail, with the sequencing that Go writes as
  \<open>if err != nil { return err }\<close>; the verification conditions that reduce a statement about such an
  operation to one about its steps; and the rows of a database table.

  Go strings and byte slices are both sequences of bytes, so both are an Isabelle \<open>string\<close>, whose
  characters are exactly the 8-bit bytes; a slice that may be nil is an option.  An instant is the
  number of nanoseconds since Go's zero time, so \<open>time.Time{}\<close> is 0; a duration is a number of
  nanoseconds.
\<close>

type_synonym bytes = string
type_synonym instant = int
type_synonym duration = int

definition nanosecond :: duration where "nanosecond = 1"
definition second :: duration where "second = 1000000000"
definition minute :: duration where "minute = 60 * second"
definition hour :: duration where "hour = 60 * minute"

lemmas duration_defs = nanosecond_def second_def minute_def hour_def

text \<open>A byte slice that may be nil, read as its contents: nil reads as the empty slice.\<close>

definition slice :: "bytes option \<Rightarrow> bytes" where
  "slice b = (case b of None \<Rightarrow> [] | Some bs \<Rightarrow> bs)"

lemma slice_simps [simp]: "slice None = []" "slice (Some bs) = bs"
  by (simp_all add: slice_def)

text \<open>\<open>hmac.Equal\<close> and \<open>subtle.ConstantTimeCompare\<close> decide equality of contents.\<close>

definition hmac_Equal :: "bytes \<Rightarrow> bytes \<Rightarrow> bool" where
  "hmac_Equal a b \<longleftrightarrow> a = b"

text \<open>A nullable instant that is set and lies after \<open>now\<close>: \<open>at != nil && at.After(now)\<close>.\<close>

definition live_at :: "instant \<Rightarrow> instant option \<Rightarrow> bool" where
  "live_at now at = (case at of None \<Rightarrow> False | Some t \<Rightarrow> now < t)"

lemma live_at_simps [simp]:
  "\<not> live_at now None" "live_at now (Some t) \<longleftrightarrow> now < t"
  by (simp_all add: live_at_def)

lemma live_atE: "live_at now at \<Longrightarrow> \<exists>t. at = Some t \<and> now < t"
  by (cases at) auto

section \<open>Operations that may fail\<close>

text \<open>
  An operation reads and changes a state and returns an error or a value.  The state is returned
  in both cases, because what an operation did before it failed (bytes drawn from the random
  source, say) stays done; only a database transaction undoes its own writes.
\<close>

type_synonym ('s, 'e, 'a) op = "'s \<Rightarrow> ('e + 'a) \<times> 's"

definition ret :: "'a \<Rightarrow> ('s, 'e, 'a) op" where
  "ret x = (\<lambda>s. (Inr x, s))"

definition fail :: "'e \<Rightarrow> ('s, 'e, 'a) op" where
  "fail e = (\<lambda>s. (Inl e, s))"

definition seq :: "('s, 'e, 'a) op \<Rightarrow> ('a \<Rightarrow> ('s, 'e, 'b) op) \<Rightarrow> ('s, 'e, 'b) op" where
  "seq m f = (\<lambda>s. case m s of (r, s') \<Rightarrow>
     (case r of Inl e \<Rightarrow> (Inl e, s') | Inr x \<Rightarrow> f x s'))"

text \<open>\<open>attempt m\<close> hands the error to the caller as a value, for \<open>errors.Is(err, ...)\<close> tests.\<close>

definition attempt :: "('s, 'e, 'a) op \<Rightarrow> ('s, 'e, 'e + 'a) op" where
  "attempt m = (\<lambda>s. case m s of (r, s') \<Rightarrow> (Inr r, s'))"

definition on_error :: "('e \<Rightarrow> 'f) \<Rightarrow> ('s, 'e, 'a) op \<Rightarrow> ('s, 'f, 'a) op" where
  "on_error f m = (\<lambda>s. case m s of (r, s') \<Rightarrow>
     (case r of Inl e \<Rightarrow> (Inl (f e), s') | Inr x \<Rightarrow> (Inr x, s')))"

text \<open>A check that returns only an error: \<open>None\<close> is Go's nil error.\<close>

definition check :: "'e option \<Rightarrow> ('s, 'e, unit) op" where
  "check r = (case r of None \<Rightarrow> ret () | Some e \<Rightarrow> fail e)"

section \<open>Verification conditions\<close>

text \<open>
  \<open>ensures r Q E\<close> says what an outcome satisfies: \<open>Q\<close> when it is a value, \<open>E\<close> when it is an error.
  The equations of the collection \<open>vc\<close> compute it for a composed operation from its parts.
\<close>

named_theorems vc

definition ensures :: "('e + 'a) \<times> 's \<Rightarrow> ('a \<Rightarrow> 's \<Rightarrow> bool) \<Rightarrow> ('e \<Rightarrow> 's \<Rightarrow> bool) \<Rightarrow> bool" where
  "ensures r Q E = (case r of (v, s) \<Rightarrow> (case v of Inl e \<Rightarrow> E e s | Inr x \<Rightarrow> Q x s))"

lemma ensures_pair [vc]:
  "ensures (Inr x, s) Q E = Q x s" "ensures (Inl e, s) Q E = E e s"
  by (simp_all add: ensures_def)

lemma ensures_ret [vc]: "ensures (ret x s) Q E = Q x s"
  by (simp add: ret_def vc)

lemma ensures_fail [vc]: "ensures (fail e s) Q E = E e s"
  by (simp add: fail_def vc)

lemma ensures_seq [vc]:
  "ensures (seq m f s) Q E = ensures (m s) (\<lambda>x s'. ensures (f x s') Q E) E"
  by (auto simp: seq_def ensures_def split: prod.splits sum.splits)

lemma ensures_attempt [vc]:
  "ensures (attempt m s) Q E = ensures (m s) (\<lambda>x. Q (Inr x)) (\<lambda>e. Q (Inl e))"
  by (auto simp: attempt_def ensures_def split: prod.splits sum.splits)

lemma ensures_on_error [vc]:
  "ensures (on_error f m s) Q E = ensures (m s) Q (\<lambda>e. E (f e))"
  by (auto simp: on_error_def ensures_def split: prod.splits sum.splits)

lemma ensures_check [vc]:
  "ensures (check r s) Q E = (case r of None \<Rightarrow> Q () s | Some e \<Rightarrow> E e s)"
  by (simp add: check_def vc split: option.splits)

lemma ensures_if [vc]:
  "ensures ((if b then m else n) s) Q E = ((b \<longrightarrow> ensures (m s) Q E) \<and> (\<not> b \<longrightarrow> ensures (n s) Q E))"
  by simp

lemma ensures_option [vc]:
  "ensures ((case v of None \<Rightarrow> m | Some x \<Rightarrow> f x) s) Q E =
     (case v of None \<Rightarrow> ensures (m s) Q E | Some x \<Rightarrow> ensures (f x s) Q E)"
  by (simp split: option.splits)

lemma ensures_sum [vc]:
  "ensures ((case v of Inl e \<Rightarrow> m e | Inr x \<Rightarrow> f x) s) Q E =
     (case v of Inl e \<Rightarrow> ensures (m e s) Q E | Inr x \<Rightarrow> ensures (f x s) Q E)"
  by (simp split: sum.splits)

lemma ensures_let [vc]:
  "ensures ((Let v f) s) Q E = (let x = v in ensures (f x s) Q E)"
  by simp

lemma ensures_mono:
  assumes "ensures r Q E"
    and "\<And>x s. Q x s \<Longrightarrow> Q' x s" and "\<And>e s. E e s \<Longrightarrow> E' e s"
  shows "ensures r Q' E'"
  using assms by (auto simp: ensures_def split: prod.splits sum.splits)

lemma ensures_True [simp]: "ensures r (\<lambda>_ _. True) (\<lambda>_ _. True)"
  by (auto simp: ensures_def split: prod.splits sum.splits)

lemma ensures_value:
  "ensures r Q E \<Longrightarrow> r = (Inr x, s) \<Longrightarrow> Q x s"
  by (simp add: vc)

lemma ensures_error:
  "ensures r Q E \<Longrightarrow> r = (Inl e, s) \<Longrightarrow> E e s"
  by (simp add: vc)

lemma ensures_snd:
  "ensures r (\<lambda>_. P) (\<lambda>_. P) \<longleftrightarrow> P (snd r)"
  by (auto simp: ensures_def split: prod.splits sum.splits)

lemma ensures_eqI: "(\<And>x s. r = (Inr x, s) \<Longrightarrow> Q x s) \<Longrightarrow> (\<And>e s. r = (Inl e, s) \<Longrightarrow> E e s) \<Longrightarrow> ensures r Q E"
  by (auto simp: ensures_def split: prod.splits sum.splits)

text \<open>Evaluation rules, for running an operation on concrete input.\<close>

lemma run_ops:
  "ret x s = (Inr x, s)" "fail e s = (Inl e, s)"
  "m s = (Inr y, s') \<Longrightarrow> seq m f s = f y s'"
  "m s = (Inl e, s') \<Longrightarrow> seq m f s = (Inl e, s')"
  by (simp_all add: ret_def fail_def seq_def)

section \<open>Runs that succeed\<close>

text \<open>
  The collection \<open>runs\<close> inverts a successful outcome: an operation composed of steps returned a value
  exactly when its steps did, one after the other, and no early return was taken.  The failing branches
  vanish, so what remains of a long operation is the conjunction of the checks it passed and the
  changes it made.
\<close>

named_theorems runs

lemma seq_runs [runs]:
  "seq m f w = (Inr y, w') \<longleftrightarrow> (\<exists>x w1. m w = (Inr x, w1) \<and> f x w1 = (Inr y, w'))"
  by (auto simp: seq_def split: prod.splits sum.splits)

lemma ret_runs [runs]: "ret x w = (Inr y, w') \<longleftrightarrow> y = x \<and> w' = w"
  by (auto simp: ret_def)

lemma fail_runs [runs]: "\<not> fail e w = (Inr y, w')"
  by (simp add: fail_def)

lemma attempt_runs [runs]: "attempt m w = (Inr r, w') \<longleftrightarrow> m w = (r, w')"
  by (auto simp: attempt_def split: prod.splits)

lemma on_error_runs [runs]: "on_error g m w = (Inr x, w') \<longleftrightarrow> m w = (Inr x, w')"
  by (auto simp: on_error_def split: prod.splits sum.splits)

lemma check_runs [runs]: "check r w = (Inr x, w') \<longleftrightarrow> r = None \<and> w' = w"
  by (auto simp: check_def runs split: option.splits)

lemma if_runs [runs]: "(if b then m else n) w = r \<longleftrightarrow> (b \<and> m w = r \<or> \<not> b \<and> n w = r)"
  by simp

lemma option_runs [runs]:
  "(case v of None \<Rightarrow> m | Some x \<Rightarrow> f x) w = r \<longleftrightarrow>
     (v = None \<and> m w = r \<or> (\<exists>x. v = Some x \<and> f x w = r))"
  by (auto split: option.splits)

lemma sum_runs [runs]:
  "(case v of Inl e \<Rightarrow> m e | Inr x \<Rightarrow> f x) w = r \<longleftrightarrow>
     ((\<exists>e. v = Inl e \<and> m e w = r) \<or> (\<exists>x. v = Inr x \<and> f x w = r))"
  by (auto split: sum.splits)

lemma let_runs [runs]: "(Let v f) w = r \<longleftrightarrow> f v w = r"
  by simp

section \<open>Rows of a table\<close>

text \<open>
  A table is the list of its rows.  \<open>first_row key p rows\<close> is GORM's \<open>Where(p).First\<close>: the matching row
  with the least primary key.  \<open>create_row\<close> and \<open>save_row\<close> are \<open>Create\<close> and \<open>Save\<close>: an insert, and an
  update of the row with the same primary key (an insert when there is none).  Both are refused, and
  change nothing, when the new row fails a check constraint, would share a unique value with another
  row, or refers to a row that does not exist.
\<close>

datatype gorm_error =
    ErrRecordNotFound
  | ErrDuplicatedKey
  | ErrForeignKeyViolated
  | ErrCheckConstraintViolated

fun least_row :: "('r \<Rightarrow> 'k::linorder) \<Rightarrow> 'r \<Rightarrow> 'r list \<Rightarrow> 'r" where
  "least_row key m [] = m"
| "least_row key m (r # rs) = least_row key (if key r < key m then r else m) rs"

definition first_row :: "('r \<Rightarrow> 'k::linorder) \<Rightarrow> ('r \<Rightarrow> bool) \<Rightarrow> 'r list \<Rightarrow> gorm_error + 'r" where
  "first_row key p rows = (case filter p rows of
     [] \<Rightarrow> Inl ErrRecordNotFound
   | r # rs \<Rightarrow> Inr (least_row key r rs))"

text \<open>
  The schema of a table: its primary key, when two rows share a unique value, and the row's own
  check constraints.
\<close>

definition create_row ::
  "('r \<Rightarrow> 'r \<Rightarrow> bool) \<Rightarrow> ('r \<Rightarrow> bool) \<Rightarrow> ('r \<Rightarrow> bool) \<Rightarrow> 'r \<Rightarrow> 'r list \<Rightarrow> gorm_error + 'r list" where
  "create_row clash valid refs r rows =
     (if \<not> valid r then Inl ErrCheckConstraintViolated
      else if \<exists>q \<in> set rows. clash r q then Inl ErrDuplicatedKey
      else if \<not> refs r then Inl ErrForeignKeyViolated
      else Inr (rows @ [r]))"

definition replace_row :: "('r \<Rightarrow> 'k) \<Rightarrow> 'r \<Rightarrow> 'r list \<Rightarrow> 'r list" where
  "replace_row key r rows =
     (if \<exists>q \<in> set rows. key q = key r then map (\<lambda>q. if key q = key r then r else q) rows
      else rows @ [r])"

definition save_row ::
  "('r \<Rightarrow> 'k) \<Rightarrow> ('r \<Rightarrow> 'r \<Rightarrow> bool) \<Rightarrow> ('r \<Rightarrow> bool) \<Rightarrow> ('r \<Rightarrow> bool) \<Rightarrow> 'r \<Rightarrow> 'r list \<Rightarrow> gorm_error + 'r list" where
  "save_row key clash valid refs r rows =
     (if \<not> valid r then Inl ErrCheckConstraintViolated
      else if \<exists>q \<in> set rows. key q \<noteq> key r \<and> clash r q then Inl ErrDuplicatedKey
      else if \<not> refs r then Inl ErrForeignKeyViolated
      else Inr (replace_row key r rows))"

lemma least_row_in: "least_row key m rs \<in> insert m (set rs)"
proof (induction rs arbitrary: m)
  case (Cons r rs)
  show ?case using Cons[of "if key r < key m then r else m"] by auto
qed simp

lemma first_row_Inr:
  assumes "first_row key p rows = Inr r"
  shows "r \<in> set rows" and "p r"
proof -
  obtain q qs where qs: "filter p rows = q # qs" and r: "r = least_row key q qs"
    using assms by (auto simp: first_row_def split: list.splits)
  have "r \<in> set (filter p rows)"
    using least_row_in[of key q qs] by (simp only: qs r list.set)
  then show "r \<in> set rows" and "p r" by auto
qed

lemma first_rowD: "first_row key p rows = Inr r \<Longrightarrow> r \<in> set rows \<and> p r"
  by (simp add: first_row_Inr)

lemma first_row_Inl:
  "first_row key p rows = Inl e \<longleftrightarrow> e = ErrRecordNotFound \<and> (\<forall>r \<in> set rows. \<not> p r)"
proof (cases "filter p rows")
  case Nil
  then show ?thesis by (auto simp: first_row_def filter_empty_conv)
next
  case (Cons q qs)
  then have "q \<in> set (filter p rows)"
    by (simp only: list.set_intros)
  then have "q \<in> set rows \<and> p q" by simp
  then show ?thesis using Cons by (auto simp: first_row_def)
qed

lemma first_row_found: "r \<in> set rows \<Longrightarrow> p r \<Longrightarrow> \<exists>q. first_row key p rows = Inr q"
  by (cases "first_row key p rows") (auto simp: first_row_Inl)

lemma set_replace_row_cases:
  "q \<in> set (replace_row key r rows) \<Longrightarrow> q = r \<or> (q \<in> set rows \<and> key q \<noteq> key r)"
  by (auto simp: replace_row_def split: if_splits)

lemma set_replace_row: "set (replace_row key r rows) = insert r {q \<in> set rows. key q \<noteq> key r}"
  by (auto simp: replace_row_def split: if_splits)

lemma replace_row_in: "r \<in> set (replace_row key r rows)"
  by (simp add: set_replace_row)

lemma replace_row_other: "q \<in> set rows \<Longrightarrow> key q \<noteq> key r \<Longrightarrow> q \<in> set (replace_row key r rows)"
  by (simp add: set_replace_row)

lemma create_row_Inr:
  "create_row clash valid refs r rows = Inr rows' \<longleftrightarrow>
     valid r \<and> (\<forall>q \<in> set rows. \<not> clash r q) \<and> refs r \<and> rows' = rows @ [r]"
  by (auto simp: create_row_def)

lemma save_row_Inr:
  "save_row key clash valid refs r rows = Inr rows' \<longleftrightarrow>
     valid r \<and> (\<forall>q \<in> set rows. key q \<noteq> key r \<longrightarrow> \<not> clash r q) \<and> refs r \<and> rows' = replace_row key r rows"
  by (auto simp: save_row_def)

text \<open>
  The contract of a table, as the operations above keep it: rows that share a unique value are the
  same row, so a lookup by a unique value has one answer, and it is the row stored last.
\<close>

definition rows_ok :: "('r \<Rightarrow> 'r \<Rightarrow> bool) \<Rightarrow> ('r \<Rightarrow> bool) \<Rightarrow> 'r list \<Rightarrow> bool" where
  "rows_ok clash valid rows \<longleftrightarrow> sorted_wrt (\<lambda>r q. \<not> clash r q) rows \<and> (\<forall>r \<in> set rows. valid r)"

lemma rows_ok_distinct:
  "rows_ok clash valid rows \<Longrightarrow> (\<And>r q. f r = f q \<Longrightarrow> clash r q) \<Longrightarrow> distinct (map f rows)"
  unfolding rows_ok_def by (induction rows) auto

locale table =
  fixes key :: "'r \<Rightarrow> 'k::linorder"
    and clash :: "'r \<Rightarrow> 'r \<Rightarrow> bool"
    and valid :: "'r \<Rightarrow> bool"
  assumes clash_sym: "clash r q \<Longrightarrow> clash q r"
    and clash_key: "key r = key q \<Longrightarrow> clash r q"
begin

abbreviation wf_rows :: "'r list \<Rightarrow> bool" where
  "wf_rows \<equiv> rows_ok clash valid"

lemma wf_Nil: "wf_rows []"
  by (simp add: rows_ok_def)

lemma wf_valid: "wf_rows rows \<Longrightarrow> r \<in> set rows \<Longrightarrow> valid r"
  by (simp add: rows_ok_def)

lemma wf_unique: "wf_rows rows \<Longrightarrow> r \<in> set rows \<Longrightarrow> q \<in> set rows \<Longrightarrow> clash r q \<Longrightarrow> r = q"
  unfolding rows_ok_def sorted_wrt_iff_nth_less
  by (metis clash_sym in_set_conv_nth nat_neq_iff)

lemma wf_key: "wf_rows rows \<Longrightarrow> r \<in> set rows \<Longrightarrow> q \<in> set rows \<Longrightarrow> key r = key q \<Longrightarrow> r = q"
  by (blast intro: wf_unique clash_key)

lemma wf_create:
  assumes "wf_rows rows" and "create_row clash valid refs r rows = Inr rows'"
  shows "wf_rows rows'"
  using assms by (auto simp: rows_ok_def create_row_Inr sorted_wrt_append dest: clash_sym)

lemma sorted_wrt_map_replace:
  "sorted_wrt (\<lambda>a b. \<not> clash a b) rows \<Longrightarrow> \<forall>q \<in> set rows. key q \<noteq> key r \<longrightarrow> \<not> clash r q \<Longrightarrow>
   sorted_wrt (\<lambda>a b. \<not> clash a b) (map (\<lambda>q. if key q = key r then r else q) rows)"
proof (induction rows)
  case (Cons q rows)
  have "key q' \<noteq> key q" if "q' \<in> set rows" for q'
    using Cons.prems(1) that clash_key by fastforce
  then show ?case
    using Cons clash_sym by (auto split: if_splits)
qed simp

lemma wf_replace:
  assumes "wf_rows rows" and "valid r" and "\<forall>q \<in> set rows. key q \<noteq> key r \<longrightarrow> \<not> clash r q"
  shows "wf_rows (replace_row key r rows)"
proof (cases "\<exists>q \<in> set rows. key q = key r")
  case True
  then show ?thesis
    using assms sorted_wrt_map_replace by (auto simp: rows_ok_def replace_row_def)
next
  case False
  then have "\<forall>q \<in> set rows. \<not> clash q r"
    using assms(3) clash_sym by blast
  then show ?thesis
    using assms False by (auto simp: rows_ok_def replace_row_def sorted_wrt_append)
qed

lemma wf_save:
  assumes "wf_rows rows" and "save_row key clash valid refs r rows = Inr rows'"
  shows "wf_rows rows'"
  using assms wf_replace by (simp add: save_row_Inr)

lemma first_row_unique:
  assumes "wf_rows rows" and "r \<in> set rows" and "p r"
    and "\<And>q. q \<in> set rows \<Longrightarrow> p q \<Longrightarrow> clash r q"
  shows "first_row key p rows = Inr r"
proof -
  obtain q where q: "first_row key p rows = Inr q"
    using first_row_found[of r rows p key] assms(2,3) by auto
  note fr = first_row_Inr[OF q]
  have "r = q"
    by (rule wf_unique[OF assms(1,2) fr(1) assms(4)[OF fr]])
  then show ?thesis using q by simp
qed

text \<open>An update that leaves every unique value of a stored row alone is never refused as a duplicate.\<close>

lemma save_same_unique:
  assumes "wf_rows rows" and "r \<in> set rows" and "key r' = key r" and "valid r'" and "refs r'"
    and "\<And>q. clash r' q \<Longrightarrow> clash r q"
  shows "save_row key clash valid refs r' rows = Inr (replace_row key r' rows)"
proof -
  have "\<not> clash r' q" if "q \<in> set rows" "key q \<noteq> key r'" for q
    using wf_unique[OF assms(1,2) that(1)] assms(3,6) that(2) by fastforce
  then show ?thesis using assms(4,5) by (auto simp: save_row_Inr)
qed

end

section \<open>Evolution of a table\<close>

text \<open>
  Every old row has a successor it is related to, and every row of the new table descends from an old
  row or from one that was new at some point of the evolution.
\<close>

definition evolves :: "('r \<Rightarrow> 'r \<Rightarrow> bool) \<Rightarrow> ('r \<Rightarrow> bool) \<Rightarrow> 'r list \<Rightarrow> 'r list \<Rightarrow> bool" where
  "evolves R N rows rows' \<longleftrightarrow>
     (\<forall>r \<in> set rows. \<exists>r' \<in> set rows'. R r r') \<and>
     (\<forall>r' \<in> set rows'. \<exists>r. (r \<in> set rows \<or> N r) \<and> R r r')"

lemma evolves_old: "evolves R N rows rows' \<Longrightarrow> r \<in> set rows \<Longrightarrow> \<exists>r' \<in> set rows'. R r r'"
  by (auto simp: evolves_def)

lemma evolves_new:
  "evolves R N rows rows' \<Longrightarrow> r' \<in> set rows' \<Longrightarrow> \<exists>r. (r \<in> set rows \<or> N r) \<and> R r r'"
  by (auto simp: evolves_def)

lemma evolves_refl: "(\<And>r. R r r) \<Longrightarrow> evolves R N rows rows"
  by (auto simp: evolves_def)

lemma evolves_map: "(\<And>r. r \<in> set rows \<Longrightarrow> R r (f r)) \<Longrightarrow> evolves R N rows (map f rows)"
  by (auto simp: evolves_def)

lemma evolves_append: "(\<And>r. R r r) \<Longrightarrow> N r \<Longrightarrow> evolves R N rows (rows @ [r])"
  by (auto simp: evolves_def)

lemma evolves_trans:
  assumes ab: "evolves R N a b" and bc: "evolves R N b c"
    and trans: "\<And>x y z. R x y \<Longrightarrow> R y z \<Longrightarrow> R x z"
  shows "evolves R N a c"
proof -
  have "\<exists>z \<in> set c. R x z" if "x \<in> set a" for x
    using evolves_old[OF ab that] evolves_old[OF bc] trans by blast
  moreover have "\<exists>x. (x \<in> set a \<or> N x) \<and> R x z" if "z \<in> set c" for z
    using evolves_new[OF bc that] evolves_new[OF ab] trans by blast
  ultimately show ?thesis by (simp add: evolves_def)
qed

context table
begin

lemma evolves_save:
  assumes "wf_rows rows" and "r \<in> set rows" and "save_row key clash valid refs r' rows = Inr rows'"
    and "key r' = key r" and "R r r'" and "\<And>q. R q q"
  shows "evolves R N rows rows'"
proof -
  have rows': "rows' = replace_row key r' rows" using assms(3) by (simp add: save_row_Inr)
  have "R q r'" if "q \<in> set rows" "key q = key r'" for q
    using wf_key[OF assms(1,2) that(1)] assms(4,5) that(2) by simp
  then show ?thesis
    unfolding rows' evolves_def set_replace_row using assms(2,4,5,6) by (auto; metis)
qed

lemma evolves_create:
  assumes "create_row clash valid refs r rows = Inr rows'" and "N r" and "\<And>q. R q q"
  shows "evolves R N rows rows'"
  using assms by (auto simp: create_row_Inr intro: evolves_append)

end

section \<open>Errors that change nothing\<close>

text \<open>
  An operation is atomic for a part of the state (the database) when every error leaves that part as it
  was.  What goes before the transaction must not touch it, and what goes after must not fail.
\<close>

definition atomic_in :: "('s \<Rightarrow> 'd) \<Rightarrow> ('s, 'e, 'a) op \<Rightarrow> bool" where
  "atomic_in db m \<longleftrightarrow> (\<forall>w e w'. m w = (Inl e, w') \<longrightarrow> db w' = db w)"

definition untouched :: "('s \<Rightarrow> 'd) \<Rightarrow> ('s, 'e, 'a) op \<Rightarrow> bool" where
  "untouched db m \<longleftrightarrow> (\<forall>w. db (snd (m w)) = db w)"

definition infallible :: "('s, 'e, 'a) op \<Rightarrow> bool" where
  "infallible m \<longleftrightarrow> (\<forall>w. \<exists>x w'. m w = (Inr x, w'))"

named_theorems atomics

lemma atomic_fail [atomics]: "atomic_in db (fail e)"
  by (simp add: atomic_in_def fail_def)

lemma atomic_ret [atomics]: "atomic_in db (ret x)"
  by (simp add: atomic_in_def ret_def)

lemma atomic_on_error [atomics]: "atomic_in db m \<Longrightarrow> atomic_in db (on_error f m)"
  by (auto simp: atomic_in_def on_error_def split: prod.splits sum.splits)

lemma atomic_if [atomics]: "atomic_in db m \<Longrightarrow> atomic_in db n \<Longrightarrow> atomic_in db (if b then m else n)"
  by simp

lemma atomic_option [atomics]:
  "atomic_in db m \<Longrightarrow> (\<And>x. atomic_in db (f x)) \<Longrightarrow> atomic_in db (case v of None \<Rightarrow> m | Some x \<Rightarrow> f x)"
  by (simp split: option.splits)

lemma atomic_sum [atomics]:
  "(\<And>e. atomic_in db (m e)) \<Longrightarrow> (\<And>x. atomic_in db (f x)) \<Longrightarrow> atomic_in db (case v of Inl e \<Rightarrow> m e | Inr x \<Rightarrow> f x)"
  by (simp split: sum.splits)

named_theorems untoucheds

lemma untouched_basic [untoucheds]: "untouched db (ret x)" "untouched db (fail e)"
  by (simp_all add: untouched_def ret_def fail_def)

lemma untouched_seq [untoucheds]:
  "untouched db m \<Longrightarrow> (\<And>x. untouched db (f x)) \<Longrightarrow> untouched db (seq m f)"
  unfolding untouched_def seq_def by (metis (no_types, lifting) case_prod_beta snd_conv sum.case_eq_if)

lemma untouched_attempt [untoucheds]: "untouched db m \<Longrightarrow> untouched db (attempt m)"
  by (auto simp: untouched_def attempt_def split: prod.splits) (metis snd_conv)

lemma untouched_on_error [untoucheds]: "untouched db m \<Longrightarrow> untouched db (on_error f m)"
  by (auto simp: untouched_def on_error_def split: prod.splits sum.splits) (metis snd_conv)+

lemma untouched_if [untoucheds]: "untouched db m \<Longrightarrow> untouched db n \<Longrightarrow> untouched db (if b then m else n)"
  by simp

lemma untouchedD: "untouched db m \<Longrightarrow> m w = (r, w') \<Longrightarrow> db w' = db w"
  by (metis snd_conv untouched_def)

lemma atomic_untouched:
  assumes "untouched db m" and "\<And>x. atomic_in db (f x)"
  shows "atomic_in db (seq m f)"
proof -
  have "db w' = db w" if "seq m f w = (Inl e, w')" for w e w'
    using assms that unfolding atomic_in_def untouched_def seq_def
    by (cases "m w") (auto split: sum.splits, metis snd_conv, metis snd_conv)
  then show ?thesis by (simp add: atomic_in_def)
qed

lemma atomic_then:
  assumes "atomic_in db m" and "\<And>x. infallible (f x)"
  shows "atomic_in db (seq m f)"
proof -
  have "db w' = db w" if "seq m f w = (Inl e, w')" for w e w'
    using assms that unfolding atomic_in_def infallible_def seq_def
    by (cases "m w") (auto split: sum.splits, metis Pair_inject sum.distinct(1))
  then show ?thesis by (simp add: atomic_in_def)
qed

lemma atomic_attempt:
  assumes "atomic_in db m" and "\<And>e. atomic_in db (f (Inl e))" and "\<And>x. infallible (f (Inr x))"
  shows "atomic_in db (seq (attempt m) f)"
proof -
  have "db w' = db w" if "seq (attempt m) f w = (Inl e, w')" for w e w'
  proof (cases "m w")
    case (Pair r w1)
    then show ?thesis
      using assms that unfolding atomic_in_def infallible_def seq_def attempt_def
      by (cases r) (auto, metis Pair_inject sum.distinct(1))
  qed
  then show ?thesis by (simp add: atomic_in_def)
qed

lemma atomic_last [atomics]: "atomic_in db m \<Longrightarrow> atomic_in db (seq m (\<lambda>x. ret (g x)))"
  by (auto intro!: atomic_then simp: infallible_def ret_def)

end
