(* ===== verification/Go_Lib.thy ===== *)
theory Go_Lib
  imports Prelude
begin

text \<open>
  The parts of Go's standard library the program computes with: unpadded base64url, UTF-8
  validity, \<open>strings.TrimSpace\<close> and \<open>strings.HasPrefix\<close>, \<open>io.ReadFull\<close> on the random source, and the
  mapping of a string to upper or lower case.  Strings are byte strings; Unicode case tables are a
  parameter, used only for strings that are not ASCII.
\<close>

unbundle bit_operations_syntax

section \<open>Bytes\<close>

definition byte_nat :: "char \<Rightarrow> nat" where "byte_nat c = of_char c"

definition nat_byte :: "nat \<Rightarrow> char" where "nat_byte n = char_of n"

lemma byte_nat_less [simp]: "byte_nat c < 256"
  by (simp add: byte_nat_def)

lemma nat_byte_byte_nat [simp]: "nat_byte (byte_nat c) = c"
  by (simp add: byte_nat_def nat_byte_def)

lemma byte_nat_nat_byte [simp]: "n < 256 \<Longrightarrow> byte_nat (nat_byte n) = n"
  by (simp add: byte_nat_def nat_byte_def)

lemma byte_nat_inject [simp]: "byte_nat a = byte_nat b \<longleftrightarrow> a = b"
  by (simp add: byte_nat_def)

definition HasPrefix :: "string \<Rightarrow> string \<Rightarrow> bool" where
  "HasPrefix s p \<longleftrightarrow> take (length p) s = p"

definition TrimPrefix :: "string \<Rightarrow> string \<Rightarrow> string" where
  "TrimPrefix s p = (if HasPrefix s p then drop (length p) s else s)"

lemma HasPrefix_append [simp]: "HasPrefix (p @ s) p"
  by (simp add: HasPrefix_def)

lemma TrimPrefix_append [simp]: "TrimPrefix (p @ s) p = s"
  by (simp add: TrimPrefix_def)

section \<open>Unpadded base64url\<close>

definition base64URLAlphabet :: string where
  "base64URLAlphabet = ''ABCDEFGHIJKLMNOPQRSTUVWXYZabcdefghijklmnopqrstuvwxyz0123456789-_''"

definition encode_sextet :: "nat \<Rightarrow> char" where
  "encode_sextet n = base64URLAlphabet ! n"

text \<open>The position of a byte in the alphabet, the decoder's table.\<close>

definition decode_sextet :: "char \<Rightarrow> nat option" where
  "decode_sextet c = (let n = byte_nat c in
     if 65 \<le> n \<and> n \<le> 90 then Some (n - 65)
     else if 97 \<le> n \<and> n \<le> 122 then Some (n - 71)
     else if 48 \<le> n \<and> n \<le> 57 then Some (n + 4)
     else if n = 45 then Some 62
     else if n = 95 then Some 63
     else None)"

fun encode_bytes :: "nat list \<Rightarrow> nat list" where
  "encode_bytes [] = []"
| "encode_bytes [a] = [a div 4, (a mod 4) * 16]"
| "encode_bytes [a, b] = [a div 4, (a mod 4) * 16 + b div 16, (b mod 16) * 4]"
| "encode_bytes (a # b # c # r) =
     (a div 4) # ((a mod 4) * 16 + b div 16) # ((b mod 16) * 4 + c div 64) # (c mod 64) # encode_bytes r"

text \<open>
  The decoder drops CR and LF, refuses any other byte outside the alphabet and a last quantum of one
  character, and ignores the unused low bits of the last quantum unless it is strict.
\<close>

fun decode_sextets :: "bool \<Rightarrow> nat list \<Rightarrow> nat list option" where
  "decode_sextets strict [] = Some []"
| "decode_sextets strict [v] = None"
| "decode_sextets strict [v, w] =
     (if strict \<and> w mod 16 \<noteq> 0 then None else Some [v * 4 + w div 16])"
| "decode_sextets strict [v, w, x] =
     (if strict \<and> x mod 4 \<noteq> 0 then None else Some [v * 4 + w div 16, (w mod 16) * 16 + x div 4])"
| "decode_sextets strict (v # w # x # y # r) =
     map_option (\<lambda>bs. (v * 4 + w div 16) # ((w mod 16) * 16 + x div 4) # ((x mod 4) * 64 + y) # bs)
       (decode_sextets strict r)"

definition EncodeToString :: "bytes \<Rightarrow> string" where
  "EncodeToString bs = map encode_sextet (encode_bytes (map byte_nat bs))"

fun sextets :: "string \<Rightarrow> nat list option" where
  "sextets [] = Some []"
| "sextets (c # cs) =
     (if c = CHR 0x0D \<or> c = CHR 0x0A then sextets cs
      else case decode_sextet c of None \<Rightarrow> None | Some v \<Rightarrow> map_option ((#) v) (sextets cs))"

definition DecodeString :: "bool \<Rightarrow> string \<Rightarrow> bytes option" where
  "DecodeString strict s =
     (case sextets s of None \<Rightarrow> None | Some vs \<Rightarrow> map_option (map nat_byte) (decode_sextets strict vs))"

lemma length_alphabet: "length base64URLAlphabet = 64"
  by (simp add: base64URLAlphabet_def)

lemma decode_alphabet: "map decode_sextet base64URLAlphabet = map Some [0..<64]"
  by (simp add: base64URLAlphabet_def decode_sextet_def byte_nat_def Let_def
      upt_rec[of 0 64] upt_rec[of "Suc 0" 64] numeral_2_eq_2[symmetric])

lemma decode_encode_sextet: "n < 64 \<Longrightarrow> decode_sextet (encode_sextet n) = Some n"
  using arg_cong[OF decode_alphabet, of "\<lambda>xs. xs ! n"]
  by (simp add: encode_sextet_def length_alphabet)

lemma encode_sextet_in: "n < 64 \<Longrightarrow> encode_sextet n \<in> set base64URLAlphabet"
  by (simp add: encode_sextet_def length_alphabet)

lemma alphabet_not_newline: "CHR 0x0D \<notin> set base64URLAlphabet" "CHR 0x0A \<notin> set base64URLAlphabet"
  by (simp_all add: base64URLAlphabet_def)

lemma encode_sextet_not_newline:
  "n < 64 \<Longrightarrow> encode_sextet n \<noteq> CHR 0x0D \<and> encode_sextet n \<noteq> CHR 0x0A"
  using encode_sextet_in alphabet_not_newline by fastforce

lemma sextets_encode: "\<forall>v \<in> set vs. v < 64 \<Longrightarrow> sextets (map encode_sextet vs) = Some vs"
  by (induction vs) (auto simp: decode_encode_sextet encode_sextet_not_newline)

lemma encode_bytes_less: "\<forall>b \<in> set bs. b < 256 \<Longrightarrow> v \<in> set (encode_bytes bs) \<Longrightarrow> v < 64"
  by (induction bs rule: encode_bytes.induct) auto

lemma decode_encode_bytes:
  "\<forall>b \<in> set bs. b < 256 \<Longrightarrow> decode_sextets strict (encode_bytes bs) = Some bs"
proof (induction bs rule: encode_bytes.induct)
  case (3 a b)
  have "((a mod 4) * 16 + b div 16) div 16 = a mod 4" "((a mod 4) * 16 + b div 16) mod 16 = b div 16"
    using 3 by auto
  then show ?case by simp
next
  case (4 a b c r)
  have "((a mod 4) * 16 + b div 16) div 16 = a mod 4" "((a mod 4) * 16 + b div 16) mod 16 = b div 16"
    "((b mod 16) * 4 + c div 64) div 4 = b mod 16" "((b mod 16) * 4 + c div 64) mod 4 = c div 64"
    using 4 by auto
  then show ?case using 4 by simp
qed auto

lemma length_encode_bytes: "length (encode_bytes bs) = (4 * length bs + 2) div 3"
proof (induction bs rule: encode_bytes.induct)
  case (4 a b c r)
  have "(4 * length (a # b # c # r) + 2) div 3 = 4 + (4 * length r + 2) div 3" by simp
  then show ?case using 4 by simp
qed auto

lemma length_EncodeToString: "length (EncodeToString bs) = (4 * length bs + 2) div 3"
  by (simp add: EncodeToString_def length_encode_bytes)

lemma Decode_Encode [simp]: "DecodeString strict (EncodeToString bs) = Some bs"
proof -
  have "sextets (EncodeToString bs) = Some (encode_bytes (map byte_nat bs))"
    unfolding EncodeToString_def
    using encode_bytes_less[of "map byte_nat bs"] by (intro sextets_encode) simp
  then show ?thesis
    by (simp add: DecodeString_def decode_encode_bytes comp_def)
qed

lemma Encode_inject [simp]: "EncodeToString a = EncodeToString b \<longleftrightarrow> a = b"
  by (metis Decode_Encode option.inject)

lemma set_EncodeToString: "set (EncodeToString bs) \<subseteq> set base64URLAlphabet"
  using encode_bytes_less[of "map byte_nat bs"] by (auto simp: EncodeToString_def intro: encode_sextet_in)

section \<open>UTF-8\<close>

text \<open>
  The length of the first rune when the bytes start with a well-formed one, and 0 otherwise: no
  overlong forms, no surrogates, nothing above U+10FFFF.
\<close>

definition continuation :: "nat \<Rightarrow> bool" where
  "continuation b \<longleftrightarrow> 128 \<le> b \<and> b \<le> 191"

fun rune_length :: "nat list \<Rightarrow> nat" where
  "rune_length [] = 0"
| "rune_length (a # r) =
     (if a < 128 then 1
      else if 194 \<le> a \<and> a \<le> 223 then
        (case r of b # _ \<Rightarrow> if continuation b then 2 else 0 | _ \<Rightarrow> 0)
      else if 224 \<le> a \<and> a \<le> 239 then
        (case r of b # c # _ \<Rightarrow>
           if (if a = 224 then 160 else 128) \<le> b \<and> b \<le> (if a = 237 then 159 else 191) \<and> continuation c
           then 3 else 0 | _ \<Rightarrow> 0)
      else if 240 \<le> a \<and> a \<le> 244 then
        (case r of b # c # d # _ \<Rightarrow>
           if (if a = 240 then 144 else 128) \<le> b \<and> b \<le> (if a = 244 then 143 else 191) \<and>
              continuation c \<and> continuation d
           then 4 else 0 | _ \<Rightarrow> 0)
      else 0)"

function rune_lengths :: "nat list \<Rightarrow> nat list" where
  "rune_lengths bs = (if bs = [] then []
     else rune_length bs # rune_lengths (drop (max 1 (rune_length bs)) bs))"
  by pat_completeness auto
termination
  by (relation "measure length") (auto simp: length_greater_0_conv[symmetric] simp del: length_greater_0_conv)

declare rune_lengths.simps [simp del]

definition ValidString :: "string \<Rightarrow> bool" where
  "ValidString s \<longleftrightarrow> 0 \<notin> set (rune_lengths (map byte_nat s))"

definition RuneCountInString :: "string \<Rightarrow> nat" where
  "RuneCountInString s = length (rune_lengths (map byte_nat s))"

definition ascii :: "string \<Rightarrow> bool" where
  "ascii s \<longleftrightarrow> (\<forall>c \<in> set s. byte_nat c < 128)"

lemma ascii_rune_lengths:
  "\<forall>b \<in> set bs. b < 128 \<Longrightarrow> rune_lengths bs = replicate (length bs) 1"
  by (induction bs) (auto simp: rune_lengths.simps[of "_ # _"] rune_lengths.simps[of "[]"])

lemma ascii_valid: "ascii s \<Longrightarrow> ValidString s"
  by (auto simp: ascii_def ValidString_def ascii_rune_lengths)

lemma ascii_rune_count: "ascii s \<Longrightarrow> RuneCountInString s = length s"
  by (simp add: ascii_def RuneCountInString_def ascii_rune_lengths)

lemma rune_count_le: "length (rune_lengths bs) \<le> length bs"
proof (induction bs rule: rune_lengths.induct)
  case (1 bs)
  show ?case
  proof (cases "bs = []")
    case False
    then have "length (rune_lengths (drop (max 1 (rune_length bs)) bs)) \<le> length bs - 1"
      using 1 by fastforce
    moreover have "0 < length bs" using False by simp
    moreover have "length (rune_lengths bs) = Suc (length (rune_lengths (drop (max 1 (rune_length bs)) bs)))"
      using False by (simp add: rune_lengths.simps[of bs])
    ultimately show ?thesis by linarith
  qed (simp add: rune_lengths.simps)
qed

lemma RuneCount_le: "RuneCountInString s \<le> length s"
  using rune_count_le[of "map byte_nat s"] by (simp add: RuneCountInString_def)

section \<open>White space and case\<close>

text \<open>
  \<open>TrimSpace\<close> removes the runes of Unicode's White\_Space property at both ends: the ASCII ones, U+0085
  and U+00A0 in two bytes, and U+1680, U+2000 to U+200A, U+2028, U+2029, U+202F, U+205F and U+3000 in
  three.  \<open>space_prefix\<close> is the length of such a rune at the front; at the back the bytes are read in
  reverse.
\<close>

definition ascii_space :: "nat \<Rightarrow> bool" where
  "ascii_space n \<longleftrightarrow> (9 \<le> n \<and> n \<le> 13) \<or> n = 32"

definition space3 :: "nat \<Rightarrow> nat \<Rightarrow> nat \<Rightarrow> bool" where
  "space3 a b c \<longleftrightarrow>
     (a = 225 \<and> b = 154 \<and> c = 128) \<or>
     (a = 226 \<and> b = 128 \<and> (128 \<le> c \<and> c \<le> 138 \<or> c = 168 \<or> c = 169 \<or> c = 175)) \<or>
     (a = 226 \<and> b = 129 \<and> c = 159) \<or>
     (a = 227 \<and> b = 128 \<and> c = 128)"

fun trim_left :: "nat list \<Rightarrow> nat list" where
  "trim_left (a # b # c # r) =
     (if ascii_space a then trim_left (b # c # r)
      else if a = 194 \<and> (b = 133 \<or> b = 160) then trim_left (c # r)
      else if space3 a b c then trim_left r
      else a # b # c # r)"
| "trim_left [a, b] =
     (if ascii_space a then trim_left [b] else if a = 194 \<and> (b = 133 \<or> b = 160) then [] else [a, b])"
| "trim_left [a] = (if ascii_space a then [] else [a])"
| "trim_left [] = []"

fun trim_back :: "nat list \<Rightarrow> nat list" where
  "trim_back (c # b # a # r) =
     (if ascii_space c then trim_back (b # a # r)
      else if b = 194 \<and> (c = 133 \<or> c = 160) then trim_back (a # r)
      else if space3 a b c then trim_back r
      else c # b # a # r)"
| "trim_back [c, b] =
     (if ascii_space c then trim_back [b] else if b = 194 \<and> (c = 133 \<or> c = 160) then [] else [c, b])"
| "trim_back [c] = (if ascii_space c then [] else [c])"
| "trim_back [] = []"

definition TrimSpace :: "string \<Rightarrow> string" where
  "TrimSpace s = map nat_byte (rev (trim_back (rev (trim_left (map byte_nat s)))))"

lemma trim_left_suffix: "\<exists>p. bs = p @ trim_left bs"
proof (induction bs rule: trim_left.induct)
  case (1 a b c r)
  show ?case using 1
    by (auto simp del: append_assoc) (metis append_Cons)+
qed auto

lemma length_trim_left: "length (trim_left bs) \<le> length bs"
  by (induction bs rule: trim_left.induct) auto

lemma length_trim_back: "length (trim_back bs) \<le> length bs"
  by (induction bs rule: trim_back.induct) auto

lemma length_TrimSpace: "length (TrimSpace s) \<le> length s"
  using length_trim_back[of "rev (trim_left (map byte_nat s))"] length_trim_left[of "map byte_nat s"]
  by (simp add: TrimSpace_def)

lemma trim_left_idem: "trim_left (trim_left bs) = trim_left bs"
  by (induction bs rule: trim_left.induct) auto

lemma trim_back_idem: "trim_back (trim_back bs) = trim_back bs"
  by (induction bs rule: trim_back.induct) auto

lemma trim_left_plain: "bs = [] \<or> (hd bs < 128 \<and> \<not> ascii_space (hd bs)) \<Longrightarrow> trim_left bs = bs"
  by (induction bs rule: trim_left.induct) (auto simp: space3_def)

lemma trim_back_plain: "bs = [] \<or> (hd bs < 128 \<and> \<not> ascii_space (hd bs)) \<Longrightarrow> trim_back bs = bs"
  by (induction bs rule: trim_back.induct) (auto simp: space3_def)

lemma TrimSpace_plain:
  assumes "\<forall>c \<in> set s. byte_nat c < 128 \<and> \<not> ascii_space (byte_nat c)"
  shows "TrimSpace s = s"
proof (cases "s = []")
  case False
  have "trim_left (map byte_nat s) = map byte_nat s"
    using assms False by (intro trim_left_plain) (simp add: hd_map)
  moreover have "trim_back (rev (map byte_nat s)) = rev (map byte_nat s)"
    using assms False by (intro trim_back_plain) (simp add: hd_rev last_map)
  ultimately show ?thesis by (simp add: TrimSpace_def comp_def)
qed (simp add: TrimSpace_def)

definition upper_byte :: "char \<Rightarrow> char" where
  "upper_byte c = (let n = byte_nat c in if 97 \<le> n \<and> n \<le> 122 then nat_byte (n - 32) else c)"

definition lower_byte :: "char \<Rightarrow> char" where
  "lower_byte c = (let n = byte_nat c in if 65 \<le> n \<and> n \<le> 90 then nat_byte (n + 32) else c)"

text \<open>\<open>strings.ToUpper\<close> and \<open>strings.ToLower\<close>: \<open>unicode\<close> maps a string that is not ASCII.\<close>

definition ToUpper :: "(string \<Rightarrow> string) \<Rightarrow> string \<Rightarrow> string" where
  "ToUpper unicode s = (if ascii s then map upper_byte s else unicode s)"

definition ToLower :: "(string \<Rightarrow> string) \<Rightarrow> string \<Rightarrow> string" where
  "ToLower unicode s = (if ascii s then map lower_byte s else unicode s)"

text \<open>\<open>strings.ReplaceAll(s, old, "")\<close> for a one-byte \<open>old\<close>.\<close>

definition remove_byte :: "char \<Rightarrow> string \<Rightarrow> string" where
  "remove_byte c s = filter (\<lambda>x. x \<noteq> c) s"

lemma upper_byte_idem [simp]: "upper_byte (upper_byte c) = upper_byte c"
  by (auto simp: upper_byte_def Let_def)

lemma ascii_upper: "ascii s \<Longrightarrow> ascii (map upper_byte s)"
  by (auto simp: ascii_def upper_byte_def Let_def)

section \<open>The random source\<close>

text \<open>
  \<open>io.Reader\<close> as the bytes it still has to give; \<open>io.ReadFull\<close> of more than that reads all of it and
  fails.
\<close>

definition ReadFull :: "nat \<Rightarrow> bytes \<Rightarrow> bytes option \<times> bytes" where
  "ReadFull n source =
     (if n \<le> length source then (Some (take n source), drop n source) else (None, []))"

lemma ReadFull_Some: "ReadFull n source = (Some bs, rest) \<Longrightarrow> length bs = n \<and> source = bs @ rest"
  by (auto simp: ReadFull_def split: if_splits)

section \<open>Rounding a duration up to whole seconds\<close>

text \<open>
  \<open>max(1, int((d + time.Second - 1) / time.Second))\<close>, the value of a Retry-After header: Go's integer
  division truncates towards zero.
\<close>

definition go_div :: "int \<Rightarrow> int \<Rightarrow> int" where
  "go_div a b = sgn a * sgn b * (\<bar>a\<bar> div \<bar>b\<bar>)"

lemma go_div_nonneg: "0 \<le> a \<Longrightarrow> 0 < b \<Longrightarrow> go_div a b = a div b"
  by (cases "a = 0") (auto simp: go_div_def)

section \<open>Numbers from bytes\<close>

lemma or_low: "(y::nat) < 2 ^ n \<Longrightarrow> push_bit n x OR y = x * 2 ^ n + y"
proof -
  assume y: "y < 2 ^ n"
  then have t: "take_bit n y = y" by (simp add: take_bit_nat_eq_self)
  have "\<not> bit (push_bit n x) m \<or> \<not> bit y m" for m
  proof (cases "m < n")
    case False
    have "\<not> bit (take_bit n y) m" using False by (simp only: bit_take_bit_iff) simp
    then show ?thesis using t by simp
  qed (simp add: bit_push_bit_iff)
  then have "push_bit n x + y = push_bit n x OR y" by (rule disjunctive_add)
  then show ?thesis by (simp add: push_bit_eq_mult)
qed

lemma radix_256:
  fixes x y r q :: nat
  assumes "x * 256 + r = y * 256 + q" and "r < 256" and "q < 256"
  shows "x = y \<and> r = q"
proof -
  have "(x * 256 + r) mod 256 = r" "(y * 256 + q) mod 256 = q" using assms(2,3) by simp_all
  then have "r = q" using assms(1) by simp
  then show ?thesis using assms(1) by simp
qed

end
