(* ===== verification/Conn_Types.thy ===== *)
theory Conn_Types
  imports Go_Lib
begin

text \<open>
  The data of the connectors module (\<open>internal/connectors/types.go\<close> and the service's configuration in
  \<open>service.go\<close>): its errors, its rows, the results of its operations, and which live sockets a
  revocation covers.  A Go pointer to a value that may be nil is an option.  \<open>ErrOther\<close> stands for every
  error the module passes through without naming it, such as a random source that runs dry.
\<close>

datatype conn_error =
    ErrConflict
  | ErrExpired
  | ErrInvalidInput
  | ErrNotFound
  | ErrUnauthorized
  | ErrInvalidCode
  | AttemptsExceeded (RetryAfter: duration)
  | ErrOther

record claim_failure_counts =
  Account :: int
  AccountOldest :: instant
  Global :: int

definition ChallengePurposeConnector :: string where "ChallengePurposeConnector = ''connector''"
definition ChallengePurposeDevice :: string where "ChallengePurposeDevice = ''device''"
definition RelayRoleClient :: string where "RelayRoleClient = ''client''"
definition RelayRoleConnector :: string where "RelayRoleConnector = ''connector''"

lemma purposes_distinct [simp]:
  "ChallengePurposeConnector \<noteq> ChallengePurposeDevice" "ChallengePurposeDevice \<noteq> ChallengePurposeConnector"
  by (simp_all add: ChallengePurposeConnector_def ChallengePurposeDevice_def)

lemma roles_distinct [simp]:
  "RelayRoleClient \<noteq> RelayRoleConnector" "RelayRoleConnector \<noteq> RelayRoleClient"
  by (simp_all add: RelayRoleClient_def RelayRoleConnector_def)

lemmas name_defs = ChallengePurposeConnector_def ChallengePurposeDevice_def
  RelayRoleClient_def RelayRoleConnector_def

datatype pairing_state =
    PairingStatePending
  | PairingStateVerification
  | PairingStateConfirmed
  | PairingStateCompleted
  | PairingStateExpired

record public_identity =
  i_Version :: int
  i_Suite :: string
  i_KeyID :: string
  i_PublicKey :: string

record identity_proof =
  pr_Challenge :: string
  pr_Signature :: string

record challenge =
  ch_Hash :: bytes
  ch_Purpose :: string
  ch_UserID :: "string option"
  ch_CreatedAt :: instant
  ch_ExpiresAt :: instant
  ch_UsedAt :: "instant option"

record pairing =
  p_ID :: string
  p_SecretHash :: bytes
  p_UserCodeHash :: bytes
  p_ConnectorName :: string
  p_ConnectorIdentity :: public_identity
  p_ConnectorCredentialHash :: "bytes option"
  p_DeviceCredentialSeed :: "bytes option"
  p_State :: pairing_state
  p_UserID :: "string option"
  p_DeviceID :: "string option"
  p_ConnectorID :: "string option"
  p_CreatedAt :: instant
  p_ExpiresAt :: instant
  p_ConnectorReviewedAt :: "instant option"
  p_ConfirmedAt :: "instant option"
  p_CompletedAt :: "instant option"

record device =
  d_ID :: string
  d_UserID :: string
  d_Name :: string
  d_Identity :: public_identity
  d_CredentialHash :: "bytes option"
  d_CredentialExpiresAt :: "instant option"
  d_PendingCredentialHash :: "bytes option"
  d_PendingCredentialExpiresAt :: "instant option"
  d_CreatedAt :: instant
  d_ActivatedAt :: "instant option"
  d_RevokedAt :: "instant option"

record connector =
  c_ID :: string
  c_UserID :: string
  c_Name :: string
  c_Identity :: public_identity
  c_CredentialHash :: "bytes option"
  c_CredentialExpiresAt :: "instant option"
  c_PendingCredentialHash :: "bytes option"
  c_PendingCredentialExpiresAt :: "instant option"
  c_CreatedAt :: instant
  c_RevokedAt :: "instant option"

record trust =
  t_UserID :: string
  t_DeviceID :: string
  t_ConnectorID :: string
  t_CreatedAt :: instant
  t_RevokedAt :: "instant option"

record relay_ticket =
  rt_TokenHash :: bytes
  rt_UserID :: string
  rt_Role :: string
  rt_SubjectID :: string
  rt_SubjectKeyID :: string
  rt_CredentialID :: string
  rt_AuthorizationExpiresAt :: "instant option"
  rt_CreatedAt :: instant
  rt_ExpiresAt :: instant
  rt_ConsumedAt :: "instant option"

record audit_event =
  a_UserID :: "string option"
  a_DeviceID :: "string option"
  a_ConnectorID :: "string option"
  a_PairingID :: "string option"
  a_EventType :: string
  a_OccurredAt :: instant

record claim_failure =
  f_UserID :: string
  f_OccurredAt :: instant

record challenge_result =
  cr_Challenge :: string
  cr_ExpiresAt :: instant

record begin_pairing_input =
  bi_Name :: string
  bi_Identity :: public_identity
  bi_Proof :: identity_proof

record begin_pairing_result =
  br_PairingID :: string
  br_PairingSecret :: string
  br_UserCode :: string
  br_ServiceID :: string
  br_VerificationURI :: string
  br_ExpiresAt :: instant
  br_PollInterval :: duration

record claim_pairing_input =
  ci_UserID :: string
  ci_UserCode :: string
  ci_DeviceName :: string
  ci_Identity :: public_identity
  ci_Proof :: identity_proof

record pairing_transcript =
  tr_Version :: int
  tr_ServiceID :: string
  tr_PairingID :: string
  tr_ConnectorIdentity :: public_identity
  tr_DeviceIdentity :: public_identity

record claim_pairing_result =
  clr_PairingID :: string
  clr_DeviceID :: string
  clr_ExpiresAt :: instant
  clr_Transcript :: pairing_transcript

record confirm_pairing_result =
  cfr_DeviceID :: string
  cfr_ConnectorID :: string
  cfr_DeviceCredential :: string
  cfr_DeviceCredentialExpiresAt :: instant

record poll_pairing_result =
  po_Status :: pairing_state
  po_PairingID :: string
  po_ServiceID :: string
  po_ExpiresAt :: instant
  po_Transcript :: "pairing_transcript option"
  po_ConnectorID :: string
  po_ConnectorCredential :: string
  po_ConnectorCredentialExpiresAt :: "instant option"
  po_LinkedAt :: "instant option"

record ticket_result =
  tk_Ticket :: string
  tk_ExpiresAt :: instant

record rotation_result =
  ro_Credential :: string
  ro_ActivateBy :: instant

record admission =
  ad_UserID :: string
  ad_Role :: string
  ad_SubjectID :: string
  ad_SessionID :: string
  ad_Identity :: public_identity
  ad_TrustedIdentities :: "public_identity list"
  ad_AuthorizationExpiresAt :: instant

record revocation =
  rv_UserID :: string
  rv_ConnectorID :: string
  rv_DeviceID :: string
  rv_SessionID :: string

definition Covers :: "revocation \<Rightarrow> admission \<Rightarrow> bool" where
  "Covers revocation admission =
     (if rv_UserID revocation = [] \<or> ad_UserID admission \<noteq> rv_UserID revocation then False
      else if rv_ConnectorID revocation \<noteq> [] then
        ad_Role admission = RelayRoleConnector \<and> ad_SubjectID admission = rv_ConnectorID revocation
      else if rv_DeviceID revocation \<noteq> [] then
        ad_Role admission = RelayRoleClient \<and> ad_SubjectID admission = rv_DeviceID revocation
      else if rv_SessionID revocation \<noteq> [] then
        ad_Role admission = RelayRoleClient \<and> ad_SessionID admission = rv_SessionID revocation
      else True)"

section \<open>Cryptography\<close>

text \<open>
  The primitives the module calls: SHA-256, HMAC-SHA-256 (key, then message), decoding of a P-256
  point and verification of an ECDSA signature over a digest, and the Unicode case table.  They are a
  parameter.  Where a property needs something of them it says so: a digest has 32 bytes.
\<close>

record crypto =
  sha256 :: "bytes \<Rightarrow> bytes"
  hmac_sha256 :: "bytes \<Rightarrow> bytes \<Rightarrow> bytes"
  unmarshal_P256 :: "bytes \<Rightarrow> (nat \<times> nat) option"
  ecdsa_verify_P256 :: "nat \<times> nat \<Rightarrow> bytes \<Rightarrow> nat \<Rightarrow> nat \<Rightarrow> bool"
  unicode_upper :: "string \<Rightarrow> string"

definition digests_32 :: "crypto \<Rightarrow> bool" where
  "digests_32 cr \<longleftrightarrow> (\<forall>x. length (sha256 cr x) = 32) \<and> (\<forall>k x. length (hmac_sha256 cr k x) = 32)"

section \<open>The service and its construction\<close>

text \<open>
  The clock and the random source of \<open>ServiceOptions\<close> are not fields here: each operation takes the
  instant it reads, and draws from the random bytes of its state.  A call of \<open>onRevoked\<close> is recorded in
  the state, in order.  \<open>authorizeAccount\<close> and \<open>authorizeSession\<close> answer \<open>None\<close> for Go's nil error.
\<close>

record service_options =
  o_PairingCodeKey :: bytes
  o_DeviceCredentialKey :: bytes
  o_ServiceID :: string
  o_VerificationURI :: string
  o_ChallengeLifetime :: duration
  o_PairingLifetime :: duration
  o_DeviceCredentialLifetime :: duration
  o_ConnectorCredentialLifetime :: duration
  o_CredentialActivationWindow :: duration
  o_TicketLifetime :: duration
  o_PollInterval :: duration
  o_AuthorizeAccount :: "(string \<Rightarrow> conn_error option) option"
  o_AuthorizeSession :: "(string \<Rightarrow> string \<Rightarrow> conn_error option) option"

record conn_service =
  crypto_of :: crypto
  pairingCodeKey :: bytes
  deviceCredentialKey :: bytes
  serviceID :: string
  verificationURI :: string
  challengeLifetime :: duration
  pairingLifetime :: duration
  deviceCredentialLifetime :: duration
  connectorCredentialLifetime :: duration
  credentialActivationWindow :: duration
  ticketLifetime :: duration
  pollInterval :: duration
  authorizeAccount :: "string \<Rightarrow> conn_error option"
  authorizeSession :: "string \<Rightarrow> string \<Rightarrow> conn_error option"
  accountClaimFailureLimit :: int
  accountClaimFailureWindow :: duration
  globalClaimFailureLimit :: int
  globalClaimFailureWindow :: duration

definition defaultChallengeLifetime :: duration where "defaultChallengeLifetime = 2 * minute"
definition defaultPairingLifetime :: duration where "defaultPairingLifetime = 10 * minute"
definition defaultDeviceCredentialLifetime :: duration where
  "defaultDeviceCredentialLifetime = 365 * 24 * hour"
definition defaultConnectorCredentialLifetime :: duration where
  "defaultConnectorCredentialLifetime = 90 * 24 * hour"
definition defaultTicketLifetime :: duration where "defaultTicketLifetime = 30 * second"
definition defaultCredentialActivationWindow :: duration where
  "defaultCredentialActivationWindow = 15 * minute"
definition defaultPollInterval :: duration where "defaultPollInterval = 2 * second"
definition defaultAuthorizationLease :: duration where "defaultAuthorizationLease = 5 * minute"
definition deviceCredentialSeedLength :: nat where "deviceCredentialSeedLength = 32"
definition defaultAccountClaimFailureLimit :: int where "defaultAccountClaimFailureLimit = 10"
definition defaultAccountClaimFailureWindow :: duration where "defaultAccountClaimFailureWindow = hour"
definition defaultGlobalClaimFailureLimit :: int where "defaultGlobalClaimFailureLimit = 120"
definition defaultGlobalClaimFailureWindow :: duration where "defaultGlobalClaimFailureWindow = minute"

lemmas default_defs = defaultChallengeLifetime_def defaultPairingLifetime_def
  defaultDeviceCredentialLifetime_def defaultConnectorCredentialLifetime_def
  defaultTicketLifetime_def defaultCredentialActivationWindow_def defaultPollInterval_def
  defaultAuthorizationLease_def deviceCredentialSeedLength_def
  defaultAccountClaimFailureLimit_def defaultAccountClaimFailureWindow_def
  defaultGlobalClaimFailureLimit_def defaultGlobalClaimFailureWindow_def

definition default_duration :: "duration \<Rightarrow> duration \<Rightarrow> duration" where
  "default_duration fallback value = (if value \<le> 0 then fallback else value)"

definition NewService :: "crypto \<Rightarrow> service_options \<Rightarrow> conn_service option" where
  "NewService cr options =
     (if length (o_PairingCodeKey options) < 32 then None else
      let deviceKey = (if o_DeviceCredentialKey options = [] then o_PairingCodeKey options
                       else o_DeviceCredentialKey options) in
      if length deviceKey < 32 then None
      else if TrimSpace (o_ServiceID options) = [] \<or> length (o_ServiceID options) > 128 then None
      else if TrimSpace (o_VerificationURI options) = [] then None
      else case o_AuthorizeAccount options of None \<Rightarrow> None | Some account \<Rightarrow>
        (case o_AuthorizeSession options of None \<Rightarrow> None | Some session \<Rightarrow>
          Some \<lparr> crypto_of = cr,
            pairingCodeKey = o_PairingCodeKey options,
            deviceCredentialKey = deviceKey,
            serviceID = o_ServiceID options,
            verificationURI = o_VerificationURI options,
            challengeLifetime = default_duration defaultChallengeLifetime (o_ChallengeLifetime options),
            pairingLifetime = default_duration defaultPairingLifetime (o_PairingLifetime options),
            deviceCredentialLifetime =
              default_duration defaultDeviceCredentialLifetime (o_DeviceCredentialLifetime options),
            connectorCredentialLifetime =
              default_duration defaultConnectorCredentialLifetime (o_ConnectorCredentialLifetime options),
            credentialActivationWindow =
              default_duration defaultCredentialActivationWindow (o_CredentialActivationWindow options),
            ticketLifetime = default_duration defaultTicketLifetime (o_TicketLifetime options),
            pollInterval = default_duration defaultPollInterval (o_PollInterval options),
            authorizeAccount = account,
            authorizeSession = session,
            accountClaimFailureLimit = defaultAccountClaimFailureLimit,
            accountClaimFailureWindow = defaultAccountClaimFailureWindow,
            globalClaimFailureLimit = defaultGlobalClaimFailureLimit,
            globalClaimFailureWindow = defaultGlobalClaimFailureWindow \<rparr>))"

text \<open>What every constructed service satisfies, and the operations rely on.\<close>

definition service_ok :: "conn_service \<Rightarrow> bool" where
  "service_ok svc \<longleftrightarrow>
     0 < challengeLifetime svc \<and> 0 < pairingLifetime svc \<and> 0 < deviceCredentialLifetime svc \<and>
     0 < connectorCredentialLifetime svc \<and> 0 < credentialActivationWindow svc \<and>
     0 < ticketLifetime svc \<and> 0 < pollInterval svc \<and>
     32 \<le> length (pairingCodeKey svc) \<and> 32 \<le> length (deviceCredentialKey svc) \<and>
     accountClaimFailureLimit svc = defaultAccountClaimFailureLimit \<and>
     accountClaimFailureWindow svc = defaultAccountClaimFailureWindow \<and>
     globalClaimFailureLimit svc = defaultGlobalClaimFailureLimit \<and>
     globalClaimFailureWindow svc = defaultGlobalClaimFailureWindow"

lemma default_duration_pos: "0 < fallback \<Longrightarrow> 0 < default_duration fallback value"
  by (simp add: default_duration_def)

lemma NewService_ok:
  assumes "NewService cr options = Some svc"
  shows "service_ok svc" and "crypto_of svc = cr"
proof -
  have "0 < defaultChallengeLifetime" "0 < defaultPairingLifetime" "0 < defaultDeviceCredentialLifetime"
    "0 < defaultConnectorCredentialLifetime" "0 < defaultCredentialActivationWindow"
    "0 < defaultTicketLifetime" "0 < defaultPollInterval"
    by (simp_all add: default_defs duration_defs)
  then show "service_ok svc" and "crypto_of svc = cr"
    using assms
    by (auto simp: NewService_def service_ok_def Let_def default_duration_pos
        split: if_splits option.splits)
qed

end
