(* ===== verification/Conn_Store.thy ===== *)
theory Conn_Store
  imports Conn_Types
begin

text \<open>
  The connectors module's persistence (\<open>internal/connectors/postgres\<close>): its tables with the constraints
  their models declare, and the operations of \<open>TransactionStore\<close> as the queries of \<open>store.go\<close> perform
  them.  The models copy the domain records field by field, so the tables hold the domain records.
  \<open>user_ids\<close> are the rows of the identity module's \<open>users\<close> table, which foreign keys refer to.
\<close>

record conn_db =
  challenges :: "challenge list"
  pairings :: "pairing list"
  devices :: "device list"
  connectors :: "connector list"
  trusts :: "trust list"
  relay_tickets :: "relay_ticket list"
  audit_events :: "audit_event list"
  claim_failures :: "claim_failure list"
  user_ids :: "string list"

text \<open>The state of the service: the database, the random bytes to come, and the revocations announced.\<close>

record conn_world =
  w_db :: conn_db
  w_random :: bytes
  w_revoked :: "revocation list"

type_synonym 'a conn_op = "(conn_world, conn_error, 'a) op"

definition translateError :: "gorm_error \<Rightarrow> conn_error" where
  "translateError e = (case e of
     ErrRecordNotFound \<Rightarrow> ErrNotFound
   | ErrDuplicatedKey \<Rightarrow> ErrConflict
   | ErrForeignKeyViolated \<Rightarrow> ErrConflict
   | ErrCheckConstraintViolated \<Rightarrow> ErrConflict)"

lemma translateError_simps [simp]:
  "translateError ErrRecordNotFound = ErrNotFound" "translateError ErrDuplicatedKey = ErrConflict"
  "translateError ErrForeignKeyViolated = ErrConflict"
  "translateError ErrCheckConstraintViolated = ErrConflict"
  by (simp_all add: translateError_def)

section \<open>Running statements\<close>

definition query :: "(conn_db \<Rightarrow> gorm_error + 'a) \<Rightarrow> 'a conn_op" where
  "query f = (\<lambda>w. case f (w_db w) of
     Inl e \<Rightarrow> (Inl (translateError e), w) | Inr x \<Rightarrow> (Inr x, w))"

definition store :: "('r list \<Rightarrow> conn_db \<Rightarrow> conn_db) \<Rightarrow> (conn_db \<Rightarrow> gorm_error + 'r list) \<Rightarrow> unit conn_op" where
  "store put f = (\<lambda>w. case f (w_db w) of
     Inl e \<Rightarrow> (Inl (translateError e), w)
   | Inr rows \<Rightarrow> (Inr (), w\<lparr>w_db := put rows (w_db w)\<rparr>))"

text \<open>
  A transaction runs its closure; when the closure fails, its writes to the database are undone.
  What else it did, such as drawing random bytes, is not.
\<close>

definition WithinTransaction :: "'a conn_op \<Rightarrow> 'a conn_op" where
  "WithinTransaction operation = (\<lambda>w. case operation w of (r, w') \<Rightarrow>
     (case r of Inl e \<Rightarrow> (Inl e, w'\<lparr>w_db := w_db w\<rparr>) | Inr x \<Rightarrow> (Inr x, w')))"

lemma ensures_query [vc]:
  "ensures (query f w) Q E = (case f (w_db w) of Inl e \<Rightarrow> E (translateError e) w | Inr x \<Rightarrow> Q x w)"
  by (auto simp: query_def vc split: sum.splits)

lemma ensures_store [vc]:
  "ensures (store put f w) Q E = (case f (w_db w) of
     Inl e \<Rightarrow> E (translateError e) w | Inr rows \<Rightarrow> Q () (w\<lparr>w_db := put rows (w_db w)\<rparr>))"
  by (auto simp: store_def vc split: sum.splits)

lemma ensures_WithinTransaction [vc]:
  "ensures (WithinTransaction m w) Q E = ensures (m w) Q (\<lambda>e w'. E e (w'\<lparr>w_db := w_db w\<rparr>))"
  by (auto simp: WithinTransaction_def ensures_def split: prod.splits sum.splits)

lemma query_runs [runs]:
  "query f w = (Inr x, w') \<longleftrightarrow> f (w_db w) = Inr x \<and> w' = w"
  "query f w = (Inl e, w') \<longleftrightarrow> (\<exists>g. f (w_db w) = Inl g \<and> e = translateError g \<and> w' = w)"
  by (auto simp: query_def split: sum.splits)

lemma store_runs [runs]:
  "store put f w = (Inr u, w') \<longleftrightarrow>
     (\<exists>rows. f (w_db w) = Inr rows \<and> w' = w\<lparr>w_db := put rows (w_db w)\<rparr>)"
  by (auto simp: store_def split: sum.splits)

lemma WithinTransaction_runs [runs]:
  "WithinTransaction m w = (Inr x, w') \<longleftrightarrow> m w = (Inr x, w')"
  by (auto simp: WithinTransaction_def split: prod.splits sum.splits)

text \<open>Evaluation forwards, for showing how an operation fails.\<close>

lemma evals:
  "query f w = (case f (w_db w) of Inl e \<Rightarrow> (Inl (translateError e), w) | Inr x \<Rightarrow> (Inr x, w))"
  "seq (query f) g w = (case f (w_db w) of Inl e \<Rightarrow> (Inl (translateError e), w) | Inr x \<Rightarrow> g x w)"
  "seq (check r) h w = (case r of None \<Rightarrow> h () w | Some e \<Rightarrow> (Inl e, w))"
  "seq (ret x) k w = k x w" "seq (fail e) l w = (Inl e, w)" "fail e w = (Inl e, w)" "ret x w = (Inr x, w)"
  "check r w = (case r of None \<Rightarrow> (Inr (), w) | Some e \<Rightarrow> (Inl e, w))"
  by (simp_all add: query_def seq_def fail_def ret_def check_def split: sum.splits option.splits)

lemma refused_transaction:
  "m w = (Inl e, w) \<Longrightarrow> on_error f (WithinTransaction m) w = (Inl (f e), w)"
  by (simp add: on_error_def WithinTransaction_def)

text \<open>A transaction that fails leaves the database as it was.\<close>

lemma WithinTransaction_rollback: "WithinTransaction m w = (Inl e, w') \<Longrightarrow> w_db w' = w_db w"
  by (auto simp: WithinTransaction_def split: prod.splits sum.splits)

section \<open>Constraints\<close>

definition digest_column :: "bytes \<Rightarrow> bool" where
  "digest_column h \<longleftrightarrow> length h = 32"

definition nullable_digest_column :: "bytes option \<Rightarrow> bool" where
  "nullable_digest_column h \<longleftrightarrow> (case h of None \<Rightarrow> True | Some bs \<Rightarrow> length bs = 32)"

lemma nullable_digest_column_simps [simp]:
  "nullable_digest_column None" "nullable_digest_column (Some bs) \<longleftrightarrow> length bs = 32"
  by (simp_all add: nullable_digest_column_def)

text \<open>A unique index on a nullable column: two rows clash when both hold the same value.\<close>

definition same_value :: "'a option \<Rightarrow> 'a option \<Rightarrow> bool" where
  "same_value a b \<longleftrightarrow> a \<noteq> None \<and> a = b"

lemma same_value_sym: "same_value a b \<Longrightarrow> same_value b a"
  by (auto simp: same_value_def)

definition challenge_clash :: "challenge \<Rightarrow> challenge \<Rightarrow> bool" where
  "challenge_clash a b \<longleftrightarrow> ch_Hash a = ch_Hash b"

definition challenge_valid :: "challenge \<Rightarrow> bool" where
  "challenge_valid c \<longleftrightarrow> digest_column (ch_Hash c) \<and>
     (ch_Purpose c = ChallengePurposeConnector \<or> ch_Purpose c = ChallengePurposeDevice) \<and>
     ch_CreatedAt c < ch_ExpiresAt c"

definition device_clash :: "device \<Rightarrow> device \<Rightarrow> bool" where
  "device_clash a b \<longleftrightarrow> d_ID a = d_ID b \<or> i_KeyID (d_Identity a) = i_KeyID (d_Identity b) \<or>
     same_value (d_CredentialHash a) (d_CredentialHash b) \<or>
     same_value (d_PendingCredentialHash a) (d_PendingCredentialHash b)"

definition device_valid :: "device \<Rightarrow> bool" where
  "device_valid d \<longleftrightarrow> 20 \<le> length (d_ID d) \<and> i_Version (d_Identity d) = 1 \<and>
     nullable_digest_column (d_CredentialHash d) \<and> nullable_digest_column (d_PendingCredentialHash d)"

definition connector_clash :: "connector \<Rightarrow> connector \<Rightarrow> bool" where
  "connector_clash a b \<longleftrightarrow> c_ID a = c_ID b \<or> i_KeyID (c_Identity a) = i_KeyID (c_Identity b) \<or>
     same_value (c_CredentialHash a) (c_CredentialHash b) \<or>
     same_value (c_PendingCredentialHash a) (c_PendingCredentialHash b)"

definition connector_valid :: "connector \<Rightarrow> bool" where
  "connector_valid c \<longleftrightarrow> 20 \<le> length (c_ID c) \<and> i_Version (c_Identity c) = 1 \<and>
     nullable_digest_column (c_CredentialHash c) \<and> nullable_digest_column (c_PendingCredentialHash c)"

text \<open>The states the partial unique index \<open>connector_pairings_active_key_id_key\<close> ranges over.\<close>

definition active_pairing :: "pairing \<Rightarrow> bool" where
  "active_pairing p \<longleftrightarrow> p_State p \<noteq> PairingStateCompleted \<and> p_State p \<noteq> PairingStateExpired"

definition pairing_clash :: "pairing \<Rightarrow> pairing \<Rightarrow> bool" where
  "pairing_clash a b \<longleftrightarrow> p_ID a = p_ID b \<or> p_SecretHash a = p_SecretHash b \<or>
     p_UserCodeHash a = p_UserCodeHash b \<or>
     (active_pairing a \<and> active_pairing b \<and>
      i_KeyID (p_ConnectorIdentity a) = i_KeyID (p_ConnectorIdentity b))"

definition pairing_valid :: "pairing \<Rightarrow> bool" where
  "pairing_valid p \<longleftrightarrow> 20 \<le> length (p_ID p) \<and> digest_column (p_SecretHash p) \<and>
     digest_column (p_UserCodeHash p) \<and> nullable_digest_column (p_ConnectorCredentialHash p) \<and>
     nullable_digest_column (p_DeviceCredentialSeed p) \<and> p_CreatedAt p < p_ExpiresAt p"

definition trust_key :: "trust \<Rightarrow> string list" where
  "trust_key t = [t_UserID t, t_DeviceID t, t_ConnectorID t]"

definition trust_clash :: "trust \<Rightarrow> trust \<Rightarrow> bool" where
  "trust_clash a b \<longleftrightarrow> trust_key a = trust_key b"

definition relay_ticket_clash :: "relay_ticket \<Rightarrow> relay_ticket \<Rightarrow> bool" where
  "relay_ticket_clash a b \<longleftrightarrow> rt_TokenHash a = rt_TokenHash b"

definition relay_ticket_valid :: "relay_ticket \<Rightarrow> bool" where
  "relay_ticket_valid t \<longleftrightarrow> digest_column (rt_TokenHash t) \<and>
     (rt_Role t = RelayRoleClient \<or> rt_Role t = RelayRoleConnector) \<and> rt_CreatedAt t < rt_ExpiresAt t"

text \<open>Foreign keys: a nullable reference, and a reference to a row of each kind.\<close>

definition user_ref :: "conn_db \<Rightarrow> string \<Rightarrow> bool" where
  "user_ref db u \<longleftrightarrow> u \<in> set (user_ids db)"

definition device_ref :: "conn_db \<Rightarrow> string \<Rightarrow> bool" where
  "device_ref db i \<longleftrightarrow> (\<exists>d \<in> set (devices db). d_ID d = i)"

definition connector_ref :: "conn_db \<Rightarrow> string \<Rightarrow> bool" where
  "connector_ref db i \<longleftrightarrow> (\<exists>c \<in> set (connectors db). c_ID c = i)"

definition nullable_ref :: "(string \<Rightarrow> bool) \<Rightarrow> string option \<Rightarrow> bool" where
  "nullable_ref r v \<longleftrightarrow> (case v of None \<Rightarrow> True | Some i \<Rightarrow> r i)"

lemma nullable_ref_simps [simp]: "nullable_ref r None" "nullable_ref r (Some i) \<longleftrightarrow> r i"
  by (simp_all add: nullable_ref_def)

definition challenge_refs :: "conn_db \<Rightarrow> challenge \<Rightarrow> bool" where
  "challenge_refs db c \<longleftrightarrow> nullable_ref (user_ref db) (ch_UserID c)"

definition pairing_refs :: "conn_db \<Rightarrow> pairing \<Rightarrow> bool" where
  "pairing_refs db p \<longleftrightarrow> nullable_ref (user_ref db) (p_UserID p) \<and>
     nullable_ref (device_ref db) (p_DeviceID p) \<and> nullable_ref (connector_ref db) (p_ConnectorID p)"

definition device_refs :: "conn_db \<Rightarrow> device \<Rightarrow> bool" where
  "device_refs db d \<longleftrightarrow> user_ref db (d_UserID d)"

definition connector_refs :: "conn_db \<Rightarrow> connector \<Rightarrow> bool" where
  "connector_refs db c \<longleftrightarrow> user_ref db (c_UserID c)"

definition trust_refs :: "conn_db \<Rightarrow> trust \<Rightarrow> bool" where
  "trust_refs db t \<longleftrightarrow> user_ref db (t_UserID t) \<and> device_ref db (t_DeviceID t) \<and>
     connector_ref db (t_ConnectorID t)"

section \<open>Statements\<close>

definition CreateChallenge :: "challenge \<Rightarrow> unit conn_op" where
  "CreateChallenge v = store (\<lambda>rows db. db\<lparr>challenges := rows\<rparr>)
     (\<lambda>db. create_row challenge_clash challenge_valid (challenge_refs db) v (challenges db))"

definition ChallengeForUpdate :: "bytes \<Rightarrow> challenge conn_op" where
  "ChallengeForUpdate hash = query (\<lambda>db. first_row ch_Hash (\<lambda>c. ch_Hash c = hash) (challenges db))"

definition SaveChallenge :: "challenge \<Rightarrow> unit conn_op" where
  "SaveChallenge v = store (\<lambda>rows db. db\<lparr>challenges := rows\<rparr>)
     (\<lambda>db. save_row ch_Hash challenge_clash challenge_valid (challenge_refs db) v (challenges db))"

definition CreatePairing :: "pairing \<Rightarrow> unit conn_op" where
  "CreatePairing v = store (\<lambda>rows db. db\<lparr>pairings := rows\<rparr>)
     (\<lambda>db. create_row pairing_clash pairing_valid (pairing_refs db) v (pairings db))"

definition expire_pairing_for_key :: "string \<Rightarrow> instant \<Rightarrow> pairing \<Rightarrow> pairing" where
  "expire_pairing_for_key keyID now p =
     (if i_KeyID (p_ConnectorIdentity p) = keyID \<and>
         p_State p \<in> {PairingStatePending, PairingStateVerification, PairingStateConfirmed} \<and>
         p_ExpiresAt p \<le> now
      then p\<lparr>p_State := PairingStateExpired\<rparr> else p)"

definition ExpirePairingsForKey :: "string \<Rightarrow> instant \<Rightarrow> unit conn_op" where
  "ExpirePairingsForKey keyID now = store (\<lambda>rows db. db\<lparr>pairings := rows\<rparr>)
     (\<lambda>db. Inr (map (expire_pairing_for_key keyID now) (pairings db)))"

definition PairingByCodeForUpdate :: "bytes \<Rightarrow> pairing conn_op" where
  "PairingByCodeForUpdate hash =
     query (\<lambda>db. first_row p_ID (\<lambda>p. p_UserCodeHash p = hash) (pairings db))"

definition PairingBySecretForUpdate :: "bytes \<Rightarrow> pairing conn_op" where
  "PairingBySecretForUpdate hash =
     query (\<lambda>db. first_row p_ID (\<lambda>p. p_SecretHash p = hash) (pairings db))"

definition PairingByIDForUpdate :: "string \<Rightarrow> pairing conn_op" where
  "PairingByIDForUpdate i = query (\<lambda>db. first_row p_ID (\<lambda>p. p_ID p = i) (pairings db))"

definition SavePairing :: "pairing \<Rightarrow> unit conn_op" where
  "SavePairing v = store (\<lambda>rows db. db\<lparr>pairings := rows\<rparr>)
     (\<lambda>db. save_row p_ID pairing_clash pairing_valid (pairing_refs db) v (pairings db))"

definition DeviceByKeyIDForUpdate :: "string \<Rightarrow> device conn_op" where
  "DeviceByKeyIDForUpdate keyID =
     query (\<lambda>db. first_row d_ID (\<lambda>d. i_KeyID (d_Identity d) = keyID) (devices db))"

definition DeviceByIDForUpdate :: "string \<Rightarrow> device conn_op" where
  "DeviceByIDForUpdate i = query (\<lambda>db. first_row d_ID (\<lambda>d. d_ID d = i) (devices db))"

definition DeviceByCredentialForUpdate :: "bytes \<Rightarrow> device conn_op" where
  "DeviceByCredentialForUpdate hash =
     query (\<lambda>db. first_row d_ID (\<lambda>d. d_CredentialHash d = Some hash) (devices db))"

definition DeviceByAnyCredentialForUpdate :: "bytes \<Rightarrow> device conn_op" where
  "DeviceByAnyCredentialForUpdate hash =
     query (\<lambda>db. first_row d_ID
       (\<lambda>d. d_CredentialHash d = Some hash \<or> d_PendingCredentialHash d = Some hash) (devices db))"

definition CreateDevice :: "device \<Rightarrow> unit conn_op" where
  "CreateDevice v = store (\<lambda>rows db. db\<lparr>devices := rows\<rparr>)
     (\<lambda>db. create_row device_clash device_valid (device_refs db) v (devices db))"

definition SaveDevice :: "device \<Rightarrow> unit conn_op" where
  "SaveDevice v = store (\<lambda>rows db. db\<lparr>devices := rows\<rparr>)
     (\<lambda>db. save_row d_ID device_clash device_valid (device_refs db) v (devices db))"

definition ConnectorByKeyIDForUpdate :: "string \<Rightarrow> connector conn_op" where
  "ConnectorByKeyIDForUpdate keyID =
     query (\<lambda>db. first_row c_ID (\<lambda>c. i_KeyID (c_Identity c) = keyID) (connectors db))"

definition ConnectorByIDForUpdate :: "string \<Rightarrow> connector conn_op" where
  "ConnectorByIDForUpdate i = query (\<lambda>db. first_row c_ID (\<lambda>c. c_ID c = i) (connectors db))"

definition ConnectorByCredentialForUpdate :: "bytes \<Rightarrow> connector conn_op" where
  "ConnectorByCredentialForUpdate hash =
     query (\<lambda>db. first_row c_ID (\<lambda>c. c_CredentialHash c = Some hash) (connectors db))"

definition ConnectorByAnyCredentialForUpdate :: "bytes \<Rightarrow> connector conn_op" where
  "ConnectorByAnyCredentialForUpdate hash =
     query (\<lambda>db. first_row c_ID
       (\<lambda>c. c_CredentialHash c = Some hash \<or> c_PendingCredentialHash c = Some hash) (connectors db))"

definition CreateConnector :: "connector \<Rightarrow> unit conn_op" where
  "CreateConnector v = store (\<lambda>rows db. db\<lparr>connectors := rows\<rparr>)
     (\<lambda>db. create_row connector_clash connector_valid (connector_refs db) v (connectors db))"

definition SaveConnector :: "connector \<Rightarrow> unit conn_op" where
  "SaveConnector v = store (\<lambda>rows db. db\<lparr>connectors := rows\<rparr>)
     (\<lambda>db. save_row c_ID connector_clash connector_valid (connector_refs db) v (connectors db))"

definition RevokeDeviceTrust :: "string \<Rightarrow> string \<Rightarrow> instant \<Rightarrow> unit conn_op" where
  "RevokeDeviceTrust userID deviceID revokedAt = store (\<lambda>rows db. db\<lparr>trusts := rows\<rparr>)
     (\<lambda>db. Inr (map (\<lambda>t. if t_UserID t = userID \<and> t_DeviceID t = deviceID \<and> t_RevokedAt t = None
                          then t\<lparr>t_RevokedAt := Some revokedAt\<rparr> else t) (trusts db)))"

text \<open>
  \<open>UpsertTrust\<close> inserts, and on a conflict of the primary key updates only \<open>created_at\<close> and clears
  \<open>revoked_at\<close>.
\<close>

definition UpsertTrust :: "trust \<Rightarrow> unit conn_op" where
  "UpsertTrust v = store (\<lambda>rows db. db\<lparr>trusts := rows\<rparr>)
     (\<lambda>db. if \<exists>t \<in> set (trusts db). trust_key t = trust_key v then
             Inr (map (\<lambda>t. if trust_key t = trust_key v
                            then t\<lparr>t_CreatedAt := t_CreatedAt v, t_RevokedAt := None\<rparr> else t) (trusts db))
           else create_row trust_clash (\<lambda>_. True) (trust_refs db) v (trusts db))"

definition TrustedIdentities :: "string \<Rightarrow> string \<Rightarrow> string \<Rightarrow> public_identity list conn_op" where
  "TrustedIdentities userID role subjectID = query (\<lambda>db. Inr
     (let rows = filter (\<lambda>t. t_UserID t = userID \<and> t_RevokedAt t = None) (trusts db) in
      if role = RelayRoleClient then
        concat (map (\<lambda>t. map c_Identity (filter
            (\<lambda>c. c_ID c = t_ConnectorID t \<and> c_UserID c = t_UserID t \<and> c_RevokedAt c = None)
            (connectors db)))
          (filter (\<lambda>t. t_DeviceID t = subjectID) rows))
      else
        concat (map (\<lambda>t. map d_Identity (filter
            (\<lambda>d. d_ID d = t_DeviceID t \<and> d_UserID d = t_UserID t \<and> d_RevokedAt d = None)
            (devices db)))
          (filter (\<lambda>t. t_ConnectorID t = subjectID) rows))))"

definition account_failures :: "string \<Rightarrow> instant \<Rightarrow> claim_failure list \<Rightarrow> claim_failure list" where
  "account_failures userID since rows =
     filter (\<lambda>f. f_UserID f = userID \<and> since < f_OccurredAt f) rows"

definition ClaimFailuresForUpdate :: "string \<Rightarrow> instant \<Rightarrow> instant \<Rightarrow> claim_failure_counts conn_op" where
  "ClaimFailuresForUpdate userID accountSince globalSince = query (\<lambda>db. Inr
     (let account = account_failures userID accountSince (claim_failures db) in
      \<lparr> Account = int (length account),
        AccountOldest = (case map f_OccurredAt account of [] \<Rightarrow> 0 | t # ts \<Rightarrow> fold min ts t),
        Global = int (length (filter (\<lambda>f. globalSince < f_OccurredAt f) (claim_failures db))) \<rparr>))"

definition RecordClaimFailure :: "string \<Rightarrow> instant \<Rightarrow> instant \<Rightarrow> unit conn_op" where
  "RecordClaimFailure userID occurredAt purgeBefore =
     seq (store (\<lambda>rows db. db\<lparr>claim_failures := rows\<rparr>)
            (\<lambda>db. Inr (filter (\<lambda>f. \<not> f_OccurredAt f \<le> purgeBefore) (claim_failures db)))) (\<lambda>_.
     store (\<lambda>rows db. db\<lparr>claim_failures := rows\<rparr>)
       (\<lambda>db. if user_ref db userID
             then Inr (claim_failures db @ [\<lparr>f_UserID = userID, f_OccurredAt = occurredAt\<rparr>])
             else Inl ErrForeignKeyViolated))"

definition CreateRelayTicket :: "relay_ticket \<Rightarrow> unit conn_op" where
  "CreateRelayTicket v = store (\<lambda>rows db. db\<lparr>relay_tickets := rows\<rparr>)
     (\<lambda>db. create_row relay_ticket_clash relay_ticket_valid (\<lambda>_. True) v (relay_tickets db))"

definition RelayTicketForUpdate :: "bytes \<Rightarrow> relay_ticket conn_op" where
  "RelayTicketForUpdate hash =
     query (\<lambda>db. first_row rt_TokenHash (\<lambda>t. rt_TokenHash t = hash) (relay_tickets db))"

definition SaveRelayTicket :: "relay_ticket \<Rightarrow> unit conn_op" where
  "SaveRelayTicket v = store (\<lambda>rows db. db\<lparr>relay_tickets := rows\<rparr>)
     (\<lambda>db. save_row rt_TokenHash relay_ticket_clash relay_ticket_valid (\<lambda>_. True) v (relay_tickets db))"

definition AppendAuditEvent :: "audit_event \<Rightarrow> unit conn_op" where
  "AppendAuditEvent v = store (\<lambda>rows db. db\<lparr>audit_events := rows\<rparr>)
     (\<lambda>db. Inr (audit_events db @ [v]))"

definition listConnectors :: "string \<Rightarrow> conn_db \<Rightarrow> connector list" where
  "listConnectors userID db =
     sort_key c_CreatedAt (filter (\<lambda>c. c_UserID c = userID \<and> c_RevokedAt c = None) (connectors db))"

definition listDevices :: "string \<Rightarrow> conn_db \<Rightarrow> device list" where
  "listDevices userID db =
     sort_key d_CreatedAt
       (filter (\<lambda>d. d_UserID d = userID \<and> d_ActivatedAt d \<noteq> None \<and> d_RevokedAt d = None) (devices db))"

lemmas find_defs =
  ChallengeForUpdate_def PairingByCodeForUpdate_def PairingBySecretForUpdate_def PairingByIDForUpdate_def
  DeviceByKeyIDForUpdate_def DeviceByIDForUpdate_def DeviceByCredentialForUpdate_def
  DeviceByAnyCredentialForUpdate_def ConnectorByKeyIDForUpdate_def ConnectorByIDForUpdate_def
  ConnectorByCredentialForUpdate_def ConnectorByAnyCredentialForUpdate_def RelayTicketForUpdate_def
  TrustedIdentities_def ClaimFailuresForUpdate_def

lemmas write_defs =
  CreateChallenge_def SaveChallenge_def CreatePairing_def ExpirePairingsForKey_def SavePairing_def
  CreateDevice_def SaveDevice_def CreateConnector_def SaveConnector_def RevokeDeviceTrust_def
  UpsertTrust_def RecordClaimFailure_def CreateRelayTicket_def SaveRelayTicket_def AppendAuditEvent_def

section \<open>The tables as instances of the table contract\<close>

interpretation challenge_table: table ch_Hash challenge_clash challenge_valid
  by unfold_locales (auto simp: challenge_clash_def)

interpretation pairing_table: table p_ID pairing_clash pairing_valid
  by unfold_locales (auto simp: pairing_clash_def)

interpretation device_table: table d_ID device_clash device_valid
  by unfold_locales (auto simp: device_clash_def intro: same_value_sym)

interpretation connector_table: table c_ID connector_clash connector_valid
  by unfold_locales (auto simp: connector_clash_def intro: same_value_sym)

interpretation trust_table: table trust_key trust_clash "\<lambda>_. True"
  by unfold_locales (auto simp: trust_clash_def)

interpretation relay_ticket_table: table rt_TokenHash relay_ticket_clash relay_ticket_valid
  by unfold_locales (auto simp: relay_ticket_clash_def)

text \<open>The database as its schema allows it: every table keeps its constraints.\<close>

definition schema_ok :: "conn_db \<Rightarrow> bool" where
  "schema_ok db \<longleftrightarrow>
     rows_ok challenge_clash challenge_valid (challenges db) \<and>
     rows_ok pairing_clash pairing_valid (pairings db) \<and>
     rows_ok device_clash device_valid (devices db) \<and>
     rows_ok connector_clash connector_valid (connectors db) \<and>
     rows_ok trust_clash (\<lambda>_. True) (trusts db) \<and>
     rows_ok relay_ticket_clash relay_ticket_valid (relay_tickets db)"

definition empty_db :: "string list \<Rightarrow> conn_db" where
  "empty_db users = \<lparr> challenges = [], pairings = [], devices = [], connectors = [], trusts = [],
     relay_tickets = [], audit_events = [], claim_failures = [], user_ids = users \<rparr>"

lemma schema_ok_empty: "schema_ok (empty_db users)"
  by (simp add: schema_ok_def empty_db_def rows_ok_def)

lemma sorted_wrt_map_mono:
  "sorted_wrt R rows \<Longrightarrow> (\<And>a b. a \<in> set rows \<Longrightarrow> b \<in> set rows \<Longrightarrow> R a b \<Longrightarrow> R (f a) (f b)) \<Longrightarrow>
   sorted_wrt R (map f rows)"
  by (induction rows) auto

lemma expire_pairing_for_key_simps [simp]:
  "p_ID (expire_pairing_for_key k now p) = p_ID p"
  "p_SecretHash (expire_pairing_for_key k now p) = p_SecretHash p"
  "p_UserCodeHash (expire_pairing_for_key k now p) = p_UserCodeHash p"
  "p_ConnectorIdentity (expire_pairing_for_key k now p) = p_ConnectorIdentity p"
  by (simp_all add: expire_pairing_for_key_def)

lemma expire_pairing_valid:
  "pairing_valid p \<Longrightarrow> pairing_valid (expire_pairing_for_key k now p)"
  by (simp add: expire_pairing_for_key_def pairing_valid_def)

lemma expire_pairing_active:
  "active_pairing (expire_pairing_for_key k now p) \<Longrightarrow> active_pairing p"
  by (auto simp: expire_pairing_for_key_def active_pairing_def split: if_splits)

lemma rows_ok_expire:
  assumes "rows_ok pairing_clash pairing_valid rows"
  shows "rows_ok pairing_clash pairing_valid (map (expire_pairing_for_key keyID now) rows)"
proof -
  have "pairing_clash a b" if "pairing_clash (expire_pairing_for_key keyID now a) (expire_pairing_for_key keyID now b)"
    for a b
    using that expire_pairing_active unfolding pairing_clash_def by auto
  then show ?thesis
    using assms unfolding rows_ok_def
    by (auto intro!: sorted_wrt_map_mono intro: expire_pairing_valid)
qed

lemma rows_ok_trusts:
  assumes "rows_ok trust_clash (\<lambda>_. True) rows" and "\<And>t. trust_key (f t) = trust_key t"
  shows "rows_ok trust_clash (\<lambda>_. True) (map f rows)"
  using assms unfolding rows_ok_def trust_clash_def by (auto intro!: sorted_wrt_map_mono)

end
