(* ===== verification/Conn_Codec.thy ===== *)
theory Conn_Codec
  imports Conn_Store
begin

text \<open>
  The encodings of the connectors module (the helpers at the end of \<open>service.go\<close>): identifiers and
  tokens, the human pairing code, names, public identities and their proofs of possession, and the
  credentials derived from a pairing secret or a random seed.
\<close>

section \<open>Random values\<close>

definition draw :: "nat \<Rightarrow> bytes conn_op" where
  "draw len = (\<lambda>w. case ReadFull len (w_random w) of (value, rest) \<Rightarrow>
     (case value of None \<Rightarrow> Inl ErrOther | Some bs \<Rightarrow> Inr bs, w\<lparr>w_random := rest\<rparr>))"

lemma ensures_draw [vc]:
  "ensures (draw len w) Q E =
     (if len \<le> length (w_random w)
      then Q (take len (w_random w)) (w\<lparr>w_random := drop len (w_random w)\<rparr>)
      else E ErrOther (w\<lparr>w_random := []\<rparr>))"
  by (simp add: draw_def ReadFull_def vc)

lemma draw_runs [runs]:
  "draw n w = (Inr x, w') \<longleftrightarrow> n \<le> length (w_random w) \<and> x = take n (w_random w) \<and>
     w' = w\<lparr>w_random := drop n (w_random w)\<rparr>"
  by (auto simp: draw_def ReadFull_def split: prod.splits if_splits)

definition randomBase64 :: "nat \<Rightarrow> string conn_op" where
  "randomBase64 len = seq (draw len) (\<lambda>value. ret (EncodeToString value))"

definition issueIdentifier :: "string \<Rightarrow> string conn_op" where
  "issueIdentifier prefix = seq (randomBase64 18) (\<lambda>value. ret (prefix @ value))"

definition issueToken :: "string \<Rightarrow> string conn_op" where
  "issueToken prefix = seq (randomBase64 32) (\<lambda>value. ret (prefix @ value))"

lemma issue_runs [runs]:
  "randomBase64 n w = (Inr x, w') \<longleftrightarrow> n \<le> length (w_random w) \<and>
     x = EncodeToString (take n (w_random w)) \<and> w' = w\<lparr>w_random := drop n (w_random w)\<rparr>"
  "issueIdentifier prefix w = (Inr x, w') \<longleftrightarrow> 18 \<le> length (w_random w) \<and>
     x = prefix @ EncodeToString (take 18 (w_random w)) \<and> w' = w\<lparr>w_random := drop 18 (w_random w)\<rparr>"
  "issueToken prefix w = (Inr x, w') \<longleftrightarrow> 32 \<le> length (w_random w) \<and>
     x = prefix @ EncodeToString (take 32 (w_random w)) \<and> w' = w\<lparr>w_random := drop 32 (w_random w)\<rparr>"
  by (auto simp: randomBase64_def issueIdentifier_def issueToken_def runs)

definition validToken :: "string \<Rightarrow> string \<Rightarrow> bool" where
  "validToken value prefix =
     (if \<not> HasPrefix value prefix then False
      else case DecodeString False (TrimPrefix value prefix) of
        None \<Rightarrow> False | Some decoded \<Rightarrow> length decoded = 32)"

lemma validToken_encoded: "length bs = 32 \<Longrightarrow> validToken (prefix @ EncodeToString bs) prefix"
  by (simp add: validToken_def)

lemma ensures_issueToken [vc]:
  "ensures (issueToken prefix w) Q E =
     (if 32 \<le> length (w_random w)
      then Q (prefix @ EncodeToString (take 32 (w_random w))) (w\<lparr>w_random := drop 32 (w_random w)\<rparr>)
      else E ErrOther (w\<lparr>w_random := []\<rparr>))"
  by (simp add: issueToken_def randomBase64_def vc)

lemma ensures_issueIdentifier [vc]:
  "ensures (issueIdentifier prefix w) Q E =
     (if 18 \<le> length (w_random w)
      then Q (prefix @ EncodeToString (take 18 (w_random w))) (w\<lparr>w_random := drop 18 (w_random w)\<rparr>)
      else E ErrOther (w\<lparr>w_random := []\<rparr>))"
  by (simp add: issueIdentifier_def randomBase64_def vc)

section \<open>Pairing codes\<close>

definition userCodeAlphabet :: string where
  "userCodeAlphabet = ''0123456789ABCDEFGHJKMNPQRSTVWXYZ''"

definition user_code_value :: "bytes \<Rightarrow> 64 word" where
  "user_code_value bs =
     push_bit 32 (of_nat (byte_nat (bs ! 0))) OR push_bit 24 (of_nat (byte_nat (bs ! 1))) OR
     push_bit 16 (of_nat (byte_nat (bs ! 2))) OR push_bit 8 (of_nat (byte_nat (bs ! 3))) OR
     of_nat (byte_nat (bs ! 4))"

text \<open>The loop from index 7 down to 0: each turn writes the character before the ones already written.\<close>

fun user_code_loop :: "nat \<Rightarrow> 64 word \<Rightarrow> string \<Rightarrow> string" where
  "user_code_loop 0 v encoded = encoded"
| "user_code_loop (Suc n) v encoded =
     user_code_loop n (drop_bit 5 v) (userCodeAlphabet ! unat (v AND 31) # encoded)"

definition encode_user_code :: "bytes \<Rightarrow> string" where
  "encode_user_code bs = (let encoded = user_code_loop 8 (user_code_value bs) [] in
     take 4 encoded @ ''-'' @ drop 4 encoded)"

definition issueUserCode :: "string conn_op" where
  "issueUserCode = seq (draw 5) (\<lambda>bs. ret (encode_user_code bs))"

lemma issueUserCode_runs [runs]:
  "issueUserCode w = (Inr x, w') \<longleftrightarrow> 5 \<le> length (w_random w) \<and>
     x = encode_user_code (take 5 (w_random w)) \<and> w' = w\<lparr>w_random := drop 5 (w_random w)\<rparr>"
  by (auto simp: issueUserCode_def runs)

definition normalizeUserCode :: "crypto \<Rightarrow> string \<Rightarrow> string" where
  "normalizeUserCode cr value = ToUpper (unicode_upper cr) (remove_byte CHR ''-'' (TrimSpace value))"

definition hashUserCode :: "conn_service \<Rightarrow> string \<Rightarrow> bytes" where
  "hashUserCode svc code =
     hmac_sha256 (crypto_of svc) (pairingCodeKey svc) (normalizeUserCode (crypto_of svc) code)"

section \<open>Names, secrets and derived credentials\<close>

definition normalizeName :: "string \<Rightarrow> string option" where
  "normalizeName value = (let value = TrimSpace value in
     if value = [] \<or> length value > 64 \<or> \<not> ValidString value then None else Some value)"

definition hashSecret :: "conn_service \<Rightarrow> string \<Rightarrow> bytes" where
  "hashSecret svc value = sha256 (crypto_of svc) value"

definition deriveConnectorCredential :: "conn_service \<Rightarrow> string \<Rightarrow> string" where
  "deriveConnectorCredential svc pairingSecret =
     ''orc_'' @ EncodeToString
       (hmac_sha256 (crypto_of svc) pairingSecret ''opencode-remote/connector-credential/v1'')"

definition deriveDeviceCredential :: "conn_service \<Rightarrow> bytes \<Rightarrow> string" where
  "deriveDeviceCredential svc seed =
     ''ord_'' @ EncodeToString
       (hmac_sha256 (crypto_of svc) (deviceCredentialKey svc)
         (''opencode-remote/device-credential/v2'' @ [CHR 0x00] @ seed))"

definition normalizeAuthorizationError :: "conn_error \<Rightarrow> conn_error" where
  "normalizeAuthorizationError e = (if e = ErrNotFound then ErrUnauthorized else e)"

definition transcript :: "conn_service \<Rightarrow> pairing \<Rightarrow> public_identity \<Rightarrow> pairing_transcript" where
  "transcript svc pairing deviceIdentity =
     \<lparr> tr_Version = 1, tr_ServiceID = serviceID svc, tr_PairingID = p_ID pairing,
       tr_ConnectorIdentity = p_ConnectorIdentity pairing, tr_DeviceIdentity = deviceIdentity \<rparr>"

section \<open>Public identities\<close>

definition hpkeSuiteID :: string where
  "hpkeSuiteID = ''HPKE-Auth-P256-HKDF-SHA256-AES-256-GCM''"

definition validIdentity :: "crypto \<Rightarrow> public_identity \<Rightarrow> bool" where
  "validIdentity cr identity =
     (if i_Version identity \<noteq> 1 \<or> i_Suite identity \<noteq> hpkeSuiteID then False
      else case DecodeString False (i_PublicKey identity) of
        None \<Rightarrow> False
      | Some publicKey \<Rightarrow>
          (if length publicKey \<noteq> 65 \<or> byte_nat (publicKey ! 0) \<noteq> 4 then False
           else if i_KeyID identity \<noteq> EncodeToString (sha256 cr publicKey) then False
           else unmarshal_P256 cr publicKey \<noteq> None))"

text \<open>
  The signed message is the JSON array of the proof's domain, its challenge and the identity.  Every
  string in it is ASCII when the function is reached: the challenge and the key have been decoded as
  base64url, and \<open>validIdentity\<close> has fixed the suite and the key ID.
\<close>

definition hex_digit :: "nat \<Rightarrow> char" where
  "hex_digit n = ''0123456789abcdef'' ! n"

definition json_byte :: "char \<Rightarrow> string" where
  "json_byte c = (let n = byte_nat c in
     if n = 34 then [CHR 0x5C, CHR 0x22]
     else if n = 92 then [CHR 0x5C, CHR 0x5C]
     else if n = 8 then [CHR 0x5C, CHR ''b'']
     else if n = 12 then [CHR 0x5C, CHR ''f'']
     else if n = 10 then [CHR 0x5C, CHR ''n'']
     else if n = 13 then [CHR 0x5C, CHR ''r'']
     else if n = 9 then [CHR 0x5C, CHR ''t'']
     else if n < 32 \<or> n = 60 \<or> n = 62 \<or> n = 38
       then [CHR 0x5C, CHR ''u'', CHR ''0'', CHR ''0'', hex_digit (n div 16), hex_digit (n mod 16)]
     else [c])"

definition json_string :: "string \<Rightarrow> string" where
  "json_string s = [CHR 0x22] @ concat (map json_byte s) @ [CHR 0x22]"

fun nat_digits :: "nat \<Rightarrow> string" where
  "nat_digits n = (if n < 10 then [nat_byte (48 + n)]
     else nat_digits (n div 10) @ [nat_byte (48 + n mod 10)])"

declare nat_digits.simps [simp del]

definition json_int :: "int \<Rightarrow> string" where
  "json_int i = (if i < 0 then ''-'' @ nat_digits (nat (- i)) else nat_digits (nat i))"

definition identity_message :: "public_identity \<Rightarrow> identity_proof \<Rightarrow> bytes" where
  "identity_message identity proof =
     ''['' @ json_string ''opencode-remote/identity-proof/v1'' @ '','' @
     json_string (pr_Challenge proof) @ '','' @ json_int (i_Version identity) @ '','' @
     json_string (i_Suite identity) @ '','' @ json_string (i_KeyID identity) @ '','' @
     json_string (i_PublicKey identity) @ '']''"

text \<open>\<open>big.Int.SetBytes\<close>: a big-endian unsigned number.\<close>

definition newBigInt :: "bytes \<Rightarrow> nat" where
  "newBigInt value = foldl (\<lambda>n c. n * 256 + byte_nat c) 0 value"

definition verifyIdentityProof :: "crypto \<Rightarrow> public_identity \<Rightarrow> identity_proof \<Rightarrow> bool" where
  "verifyIdentityProof cr identity proof =
     (case DecodeString False (pr_Challenge proof) of
        None \<Rightarrow> False
      | Some challenge \<Rightarrow>
     (if length challenge \<noteq> 32 then False
      else case DecodeString False (pr_Signature proof) of
        None \<Rightarrow> False
      | Some signature \<Rightarrow>
     (if length signature \<noteq> 64 then False
      else case DecodeString False (i_PublicKey identity) of
        None \<Rightarrow> False
      | Some publicKey \<Rightarrow>
     (case unmarshal_P256 cr publicKey of
        None \<Rightarrow> False
      | Some point \<Rightarrow>
          ecdsa_verify_P256 cr point (sha256 cr (identity_message identity proof))
            (newBigInt (take 32 signature)) (newBigInt (drop 32 signature))))))"

section \<open>Lemmas\<close>

lemma derived_connector_valid:
  "digests_32 (crypto_of svc) \<Longrightarrow> validToken (deriveConnectorCredential svc secret) ''orc_''"
  unfolding deriveConnectorCredential_def by (intro validToken_encoded) (simp add: digests_32_def)

lemma derived_device_valid:
  "digests_32 (crypto_of svc) \<Longrightarrow> validToken (deriveDeviceCredential svc seed) ''ord_''"
  unfolding deriveDeviceCredential_def by (intro validToken_encoded) (simp add: digests_32_def)

lemma length_hashSecret [simp]: "digests_32 (crypto_of svc) \<Longrightarrow> length (hashSecret svc s) = 32"
  by (simp add: hashSecret_def digests_32_def)

lemma length_hashUserCode [simp]: "digests_32 (crypto_of svc) \<Longrightarrow> length (hashUserCode svc s) = 32"
  by (simp add: hashUserCode_def digests_32_def)

lemma normalizeName_Some:
  "normalizeName v = Some n \<Longrightarrow> n \<noteq> [] \<and> length n \<le> 64 \<and> ValidString n \<and> n = TrimSpace v"
  by (auto simp: normalizeName_def Let_def split: if_splits)

lemma validIdentity_version: "validIdentity cr i \<Longrightarrow> i_Version i = 1"
  by (simp add: validIdentity_def split: if_splits)

lemma normalizeAuthorizationError_simps [simp]:
  "normalizeAuthorizationError e \<noteq> ErrNotFound"
  "normalizeAuthorizationError ErrNotFound = ErrUnauthorized"
  "e \<noteq> ErrNotFound \<Longrightarrow> normalizeAuthorizationError e = e"
  by (simp_all add: normalizeAuthorizationError_def)

text \<open>The characters of a code are the base-32 digits of the 40-bit number its five bytes spell.\<close>

lemma unat_and_31: "unat ((v :: 64 word) AND 31) = unat v mod 32"
proof -
  have "v AND 31 = take_bit 5 v"
    by (simp add: take_bit_eq_mask mask_eq_exp_minus_1)
  then show ?thesis by (simp add: take_bit_eq_mod unat_mod)
qed

lemma unat_drop_5: "unat (drop_bit 5 (v :: 64 word)) = unat v div 32"
  by (simp add: drop_bit_eq_div unat_div)

fun digits32 :: "nat \<Rightarrow> nat \<Rightarrow> nat list" where
  "digits32 0 v = []"
| "digits32 (Suc n) v = digits32 n (v div 32) @ [v mod 32]"

lemma user_code_loop_digits:
  "user_code_loop n v acc = map ((!) userCodeAlphabet) (digits32 n (unat v)) @ acc"
  by (induction n arbitrary: v acc) (simp_all add: unat_and_31 unat_drop_5)

lemma length_digits32 [simp]: "length (digits32 n v) = n"
  by (induction n arbitrary: v) auto

lemma digits32_less: "d \<in> set (digits32 n v) \<Longrightarrow> d < 32"
  by (induction n arbitrary: v) auto

lemma digits32_inject: "v < 32 ^ n \<Longrightarrow> w < 32 ^ n \<Longrightarrow> digits32 n v = digits32 n w \<Longrightarrow> v = w"
proof (induction n arbitrary: v w)
  case (Suc n)
  have "v div 32 < 32 ^ n" "w div 32 < 32 ^ n"
    using Suc.prems by (simp_all add: less_mult_imp_div_less mult.commute)
  then have "v div 32 = w div 32" "v mod 32 = w mod 32"
    using Suc by auto
  then show ?case by (metis div_mult_mod_eq)
qed auto

lemma length_userCodeAlphabet: "length userCodeAlphabet = 32"
  by (simp add: userCodeAlphabet_def)

lemma distinct_userCodeAlphabet: "distinct userCodeAlphabet"
  by (simp add: userCodeAlphabet_def)

lemma alphabet_map_inject:
  "\<forall>d \<in> set xs. d < 32 \<Longrightarrow> \<forall>d \<in> set ys. d < 32 \<Longrightarrow>
   map ((!) userCodeAlphabet) xs = map ((!) userCodeAlphabet) ys \<Longrightarrow> xs = ys"
  by (rule map_inj_on, assumption)
    (auto simp: inj_on_def nth_eq_iff_index_eq distinct_userCodeAlphabet length_userCodeAlphabet)

lemma unat_push_byte: "unat (push_bit k (of_nat b :: 64 word)) = push_bit k b" if "b < 256" "k \<le> 32"
proof -
  have "(2::nat) ^ k \<le> 2 ^ 32" using that by (intro power_increasing) auto
  then have "b * 2 ^ k \<le> 256 * 2 ^ 32" using that by (intro mult_mono) auto
  then have "push_bit k b < 2 ^ 64" by (simp add: push_bit_eq_mult)
  then show ?thesis using that
    by (simp add: unsigned_push_bit_eq unsigned_of_nat take_bit_nat_eq_self)
qed

lemma unat_five_bytes:
  assumes "b0 < 256" "b1 < 256" "b2 < 256" "b3 < 256" "b4 < 256"
  shows "unat (push_bit 32 (of_nat b0) OR push_bit 24 (of_nat b1) OR push_bit 16 (of_nat b2) OR
      push_bit 8 (of_nat b3) OR of_nat b4 :: 64 word)
    = b0 * 2^32 + (b1 * 2^24 + (b2 * 2^16 + (b3 * 2^8 + b4)))"
proof -
  have "unat (of_nat b4 :: 64 word) = b4" using assms unat_push_byte[of b4 0] by simp
  moreover have "push_bit 8 b3 OR b4 = b3 * 2^8 + b4"
    using assms by (intro or_low) simp
  moreover have "push_bit 16 b2 OR (b3 * 2^8 + b4) = b2 * 2^16 + (b3 * 2^8 + b4)"
    using assms by (intro or_low) simp
  moreover have "push_bit 24 b1 OR (b2 * 2^16 + (b3 * 2^8 + b4)) = b1 * 2^24 + (b2 * 2^16 + (b3 * 2^8 + b4))"
    using assms by (intro or_low) simp
  moreover have "push_bit 32 b0 OR (b1 * 2^24 + (b2 * 2^16 + (b3 * 2^8 + b4))) =
      b0 * 2^32 + (b1 * 2^24 + (b2 * 2^16 + (b3 * 2^8 + b4)))"
    using assms by (intro or_low) simp
  ultimately show ?thesis using assms by (simp only: unsigned_or_eq unat_push_byte)
qed

lemma length_5E: "length bs = 5 \<Longrightarrow> \<exists>a b c d e. bs = [a, b, c, d, e]"
  by (auto simp: numeral_eq_Suc length_Suc_conv)

lemma unat_user_code_value:
  "unat (user_code_value [a, b, c, d, e]) =
     byte_nat a * 2^32 + (byte_nat b * 2^24 + (byte_nat c * 2^16 + (byte_nat d * 2^8 + byte_nat e)))"
proof -
  have nth: "[a, b, c, d, e] ! 0 = a" "[a, b, c, d, e] ! 1 = b" "[a, b, c, d, e] ! 2 = c"
    "[a, b, c, d, e] ! 3 = d" "[a, b, c, d, e] ! 4 = e"
    by simp_all
  show ?thesis
    unfolding user_code_value_def nth by (rule unat_five_bytes) simp_all
qed

lemma five_bytes_inject:
  fixes a b c d e a' b' c' d' e' :: nat
  assumes eq: "a * 2^32 + (b * 2^24 + (c * 2^16 + (d * 2^8 + e))) =
      a' * 2^32 + (b' * 2^24 + (c' * 2^16 + (d' * 2^8 + e')))"
    and "b < 256" "c < 256" "d < 256" "e < 256" "b' < 256" "c' < 256" "d' < 256" "e' < 256"
  shows "a = a' \<and> b = b' \<and> c = c' \<and> d = d' \<and> e = e'"
proof -
  have 1: "a * 2^24 + b * 2^16 + c * 2^8 + d = a' * 2^24 + b' * 2^16 + c' * 2^8 + d' \<and> e = e'"
    using eq assms by (intro radix_256) simp_all
  have 2: "a * 2^16 + b * 2^8 + c = a' * 2^16 + b' * 2^8 + c' \<and> d = d'"
    using 1 assms by (intro radix_256) simp_all
  have 3: "a * 2^8 + b = a' * 2^8 + b' \<and> c = c'"
    using 2 assms by (intro radix_256) simp_all
  have 4: "a = a' \<and> b = b'"
    using 3 assms by (intro radix_256) simp_all
  show ?thesis using 1 2 3 4 by simp
qed

lemma user_code_value_inject:
  assumes "length x = 5" and "length y = 5" and "unat (user_code_value x) = unat (user_code_value y)"
  shows "x = y"
proof -
  obtain a b c d e where x: "x = [a, b, c, d, e]" using length_5E assms(1) by blast
  obtain a' b' c' d' e' where y: "y = [a', b', c', d', e']" using length_5E assms(2) by blast
  have "byte_nat a = byte_nat a' \<and> byte_nat b = byte_nat b' \<and> byte_nat c = byte_nat c' \<and>
      byte_nat d = byte_nat d' \<and> byte_nat e = byte_nat e'"
    using assms(3) unfolding x y unat_user_code_value by (rule five_bytes_inject) simp_all
  then show ?thesis by (simp add: x y)
qed

lemma user_code_value_less: "length x = 5 \<Longrightarrow> unat (user_code_value x) < 32 ^ 8"
proof -
  assume "length x = 5"
  then obtain a b c d e where x: "x = [a, b, c, d, e]" using length_5E by blast
  show ?thesis
    using byte_nat_less[of a] byte_nat_less[of b] byte_nat_less[of c] byte_nat_less[of d] byte_nat_less[of e]
    unfolding x unat_user_code_value by (simp del: byte_nat_less)
qed

text \<open>The eight characters of a code, without the separator.\<close>

definition raw_user_code :: "bytes \<Rightarrow> string" where
  "raw_user_code bs = user_code_loop 8 (user_code_value bs) []"

lemma encode_user_code_raw:
  "encode_user_code bs = take 4 (raw_user_code bs) @ ''-'' @ drop 4 (raw_user_code bs)"
  by (simp add: encode_user_code_def raw_user_code_def Let_def)

lemma length_raw_user_code [simp]: "length (raw_user_code bs) = 8"
  by (simp add: raw_user_code_def user_code_loop_digits)

lemma raw_user_code_set: "set (raw_user_code bs) \<subseteq> set userCodeAlphabet"
  by (auto simp: raw_user_code_def user_code_loop_digits length_userCodeAlphabet
      dest!: digits32_less intro!: nth_mem)

lemma raw_user_code_inject:
  assumes "length x = 5" and "length y = 5" and "raw_user_code x = raw_user_code y"
  shows "x = y"
proof -
  have "digits32 8 (unat (user_code_value x)) = digits32 8 (unat (user_code_value y))"
    using assms(3) unfolding raw_user_code_def user_code_loop_digits append_Nil2
    by (rule alphabet_map_inject[rotated 2]) (auto dest: digits32_less)
  then show ?thesis
    using assms digits32_inject user_code_value_less user_code_value_inject by blast
qed

lemma encode_user_code_inject:
  assumes "length x = 5" and "length y = 5" and "encode_user_code x = encode_user_code y"
  shows "x = y"
proof -
  have "take 4 (raw_user_code x) = take 4 (raw_user_code y)"
    "drop 4 (raw_user_code x) = drop 4 (raw_user_code y)"
    using assms(3) by (simp_all add: encode_user_code_raw append_eq_append_conv)
  then have "raw_user_code x = raw_user_code y" by (metis append_take_drop_id)
  then show ?thesis using raw_user_code_inject assms by blast
qed

lemma alphabet_ranges:
  "c \<in> set userCodeAlphabet \<Longrightarrow>
     (48 \<le> byte_nat c \<and> byte_nat c \<le> 57) \<or> (65 \<le> byte_nat c \<and> byte_nat c \<le> 90)"
proof -
  have "list_all (\<lambda>c. (48 \<le> byte_nat c \<and> byte_nat c \<le> 57) \<or> (65 \<le> byte_nat c \<and> byte_nat c \<le> 90))
      userCodeAlphabet"
    by (simp add: userCodeAlphabet_def byte_nat_def)
  then show "c \<in> set userCodeAlphabet \<Longrightarrow> ?thesis" by (simp add: list_all_iff)
qed

lemma alphabet_bytes:
  assumes "c \<in> set userCodeAlphabet"
  shows "byte_nat c < 128 \<and> \<not> ascii_space (byte_nat c) \<and> c \<noteq> CHR ''-'' \<and>
     upper_byte c = c \<and> \<not> ascii_space (byte_nat (lower_byte c)) \<and> byte_nat (lower_byte c) < 128 \<and>
     lower_byte c \<noteq> CHR ''-'' \<and> upper_byte (lower_byte c) = c"
proof -
  have "byte_nat CHR ''-'' = 45" by (simp add: byte_nat_def)
  then show ?thesis
    using alphabet_ranges[OF assms]
    by (auto simp: ascii_space_def upper_byte_def lower_byte_def Let_def
        simp del: byte_nat_inject simp: byte_nat_inject[symmetric])
qed

text \<open>A person may type the code with or without its dash and in either case.\<close>

lemma normalize_typed_code:
  assumes "set code \<subseteq> insert CHR ''-'' (set userCodeAlphabet)"
  shows "normalizeUserCode cr code = remove_byte CHR ''-'' code"
    and "normalizeUserCode cr (map lower_byte code) = remove_byte CHR ''-'' code"
proof -
  have dash: "byte_nat CHR ''-'' = 45" "lower_byte CHR ''-'' = CHR ''-''"
    by (simp_all add: byte_nat_def nat_byte_def lower_byte_def)
  have plain: "\<forall>c \<in> set code. byte_nat c < 128 \<and> \<not> ascii_space (byte_nat c)"
    using assms alphabet_bytes dash by (auto simp: ascii_space_def)
  have low: "\<forall>c \<in> set (map lower_byte code). byte_nat c < 128 \<and> \<not> ascii_space (byte_nat c)"
    using assms alphabet_bytes dash by (auto simp: ascii_space_def)
  have up: "map upper_byte (remove_byte CHR ''-'' code) = remove_byte CHR ''-'' code"
    using assms alphabet_bytes by (auto simp: remove_byte_def intro!: map_idI)
  have down: "map upper_byte (remove_byte CHR ''-'' (map lower_byte code)) = remove_byte CHR ''-'' code"
    using assms
  proof (induction code)
    case (Cons c code)
    then show ?case using alphabet_bytes dash by (auto simp: remove_byte_def)
  qed (simp add: remove_byte_def)
  show "normalizeUserCode cr code = remove_byte CHR ''-'' code"
    using plain up by (simp add: normalizeUserCode_def TrimSpace_plain ToUpper_def ascii_def remove_byte_def)
  have "ascii (remove_byte CHR ''-'' (map lower_byte code))"
    using low by (auto simp: ascii_def remove_byte_def)
  then show "normalizeUserCode cr (map lower_byte code) = remove_byte CHR ''-'' code"
    using low down by (simp add: normalizeUserCode_def TrimSpace_plain ToUpper_def)
qed

lemma remove_dash_code: "remove_byte CHR ''-'' (encode_user_code bs) = raw_user_code bs"
proof -
  have "remove_byte CHR ''-'' xs = xs" if "set xs \<subseteq> set (raw_user_code bs)" for xs
    using that raw_user_code_set alphabet_bytes unfolding remove_byte_def
    by (intro filter_True) blast
  then have "remove_byte CHR ''-'' (take 4 (raw_user_code bs)) = take 4 (raw_user_code bs)"
    "remove_byte CHR ''-'' (drop 4 (raw_user_code bs)) = drop 4 (raw_user_code bs)"
    by (simp_all add: set_take_subset set_drop_subset)
  then show ?thesis by (simp add: encode_user_code_raw remove_byte_def)
qed

lemma set_encode_user_code: "set (encode_user_code bs) \<subseteq> insert CHR ''-'' (set userCodeAlphabet)"
  using raw_user_code_set[of bs] set_take_subset[of 4 "raw_user_code bs"] set_drop_subset[of 4 "raw_user_code bs"]
  by (auto simp: encode_user_code_raw)

lemma remove_dash_raw: "remove_byte CHR ''-'' (raw_user_code bs) = raw_user_code bs"
  using raw_user_code_set alphabet_bytes unfolding remove_byte_def by (intro filter_True) blast

text \<open>The hash of an issued code does not depend on how the code was normalized before.\<close>

lemma hash_raw_code: "hashUserCode svc (raw_user_code bs) = hashUserCode svc (encode_user_code bs)"
proof -
  have "set (raw_user_code bs) \<subseteq> insert CHR ''-'' (set userCodeAlphabet)"
    using raw_user_code_set by blast
  then show ?thesis
    by (simp add: hashUserCode_def normalize_typed_code(1) set_encode_user_code remove_dash_code remove_dash_raw)
qed

end
