(* ===== verification/Conn_Pairing.thy ===== *)
theory Conn_Pairing
  imports Conn_Codec
begin

text \<open>
  Pairing (\<open>internal/connectors/service.go\<close>): challenges, the pairing a connector begins, the claim a
  signed-in device makes with the human code, the approval given at the connector, the confirmation
  that completes the pairing, and the connector's polling and cancelling.  Each operation takes the
  service, the instant its clock reads, and its arguments; it runs its closure inside a transaction,
  with the checks and the early returns of the code in the code's order.
\<close>

text \<open>The pointer check of a nullable instant against the clock: \<open>!t.After(now)\<close>.\<close>

definition expired_at :: "instant \<Rightarrow> instant \<Rightarrow> bool" where
  "expired_at now t \<longleftrightarrow> \<not> now < t"

definition IssueChallenge ::
  "conn_service \<Rightarrow> instant \<Rightarrow> string \<Rightarrow> string option \<Rightarrow> challenge_result conn_op" where
  "IssueChallenge svc now purpose userID =
     (if purpose \<noteq> ChallengePurposeConnector \<and> purpose \<noteq> ChallengePurposeDevice
      then fail ErrInvalidInput
      else if purpose = ChallengePurposeDevice \<and> (userID = None \<or> userID = Some [])
      then fail ErrUnauthorized
      else
        seq (randomBase64 32) (\<lambda>challenge.
        seq (WithinTransaction (CreateChallenge
          \<lparr> ch_Hash = hashSecret svc challenge, ch_Purpose = purpose, ch_UserID = userID,
            ch_CreatedAt = now, ch_ExpiresAt = now + challengeLifetime svc, ch_UsedAt = None \<rparr>)) (\<lambda>_.
        ret \<lparr> cr_Challenge = challenge, cr_ExpiresAt = now + challengeLifetime svc \<rparr>)))"

definition begin_pairing_transaction ::
  "conn_service \<Rightarrow> instant \<Rightarrow> begin_pairing_input \<Rightarrow> pairing \<Rightarrow> unit conn_op" where
  "begin_pairing_transaction svc now input pairing =
     seq (ChallengeForUpdate (hashSecret svc (pr_Challenge (bi_Proof input)))) (\<lambda>challenge.
     if ch_Purpose challenge \<noteq> ChallengePurposeConnector \<or> ch_UserID challenge \<noteq> None \<or>
        ch_UsedAt challenge \<noteq> None \<or> expired_at now (ch_ExpiresAt challenge)
     then fail ErrUnauthorized
     else
     seq (SaveChallenge (challenge\<lparr>ch_UsedAt := Some now\<rparr>)) (\<lambda>_.
     seq (ExpirePairingsForKey (i_KeyID (bi_Identity input)) now) (\<lambda>_.
     CreatePairing pairing)))"

definition BeginPairing ::
  "conn_service \<Rightarrow> instant \<Rightarrow> begin_pairing_input \<Rightarrow> begin_pairing_result conn_op" where
  "BeginPairing svc now input =
     (case normalizeName (bi_Name input) of
        None \<Rightarrow> fail ErrInvalidInput
      | Some name \<Rightarrow>
     (if \<not> validIdentity (crypto_of svc) (bi_Identity input) \<or>
         \<not> verifyIdentityProof (crypto_of svc) (bi_Identity input) (bi_Proof input)
      then fail ErrInvalidInput
      else
        seq (issueIdentifier ''par_'') (\<lambda>pairingID.
        seq (issueToken ''orp_'') (\<lambda>pairingSecret.
        seq issueUserCode (\<lambda>userCode.
        let expiresAt = now + pairingLifetime svc;
            connectorCredential = deriveConnectorCredential svc pairingSecret;
            pairing = \<lparr> p_ID = pairingID, p_SecretHash = hashSecret svc pairingSecret,
              p_UserCodeHash = hashUserCode svc userCode, p_ConnectorName = name,
              p_ConnectorIdentity = bi_Identity input,
              p_ConnectorCredentialHash = Some (hashSecret svc connectorCredential),
              p_DeviceCredentialSeed = None, p_State = PairingStatePending, p_UserID = None,
              p_DeviceID = None, p_ConnectorID = None, p_CreatedAt = now, p_ExpiresAt = expiresAt,
              p_ConnectorReviewedAt = None, p_ConfirmedAt = None, p_CompletedAt = None \<rparr> in
        seq (on_error normalizeAuthorizationError
              (WithinTransaction (begin_pairing_transaction svc now input pairing))) (\<lambda>_.
        ret \<lparr> br_PairingID = pairingID, br_PairingSecret = pairingSecret, br_UserCode = userCode,
              br_ServiceID = serviceID svc, br_VerificationURI = verificationURI svc,
              br_ExpiresAt = expiresAt, br_PollInterval = pollInterval svc \<rparr>))))))"

section \<open>Claiming\<close>

definition checkClaimFailures :: "conn_service \<Rightarrow> string \<Rightarrow> instant \<Rightarrow> unit conn_op" where
  "checkClaimFailures svc userID now =
     seq (ClaimFailuresForUpdate userID (now - accountClaimFailureWindow svc)
            (now - globalClaimFailureWindow svc)) (\<lambda>counts.
     if accountClaimFailureLimit svc \<le> Account counts
     then fail (AttemptsExceeded
       (max second (AccountOldest counts + accountClaimFailureWindow svc - now)))
     else if globalClaimFailureLimit svc \<le> Global counts
     then fail (AttemptsExceeded (globalClaimFailureWindow svc))
     else ret ())"

text \<open>
  What the closure of a claim leaves in the variables it captures: \<open>wrongCode\<close>, \<open>expired\<close>, or \<open>result\<close>.
  The first two commit what was written before them.
\<close>

datatype claim_outcome = ClaimWrongCode | ClaimExpired | Claimed claim_pairing_result

text \<open>The device row of the claiming key, created on its first claim.\<close>

definition claim_device :: "instant \<Rightarrow> claim_pairing_input \<Rightarrow> string \<Rightarrow> device conn_op" where
  "claim_device now input name =
     seq (attempt (DeviceByKeyIDForUpdate (i_KeyID (ci_Identity input)))) (\<lambda>found.
     case found of
       Inl e \<Rightarrow>
         (if e = ErrNotFound then
            seq (issueIdentifier ''dev_'') (\<lambda>deviceID.
            let device = \<lparr> d_ID = deviceID, d_UserID = ci_UserID input, d_Name = name,
              d_Identity = ci_Identity input, d_CredentialHash = None, d_CredentialExpiresAt = None,
              d_PendingCredentialHash = None, d_PendingCredentialExpiresAt = None,
              d_CreatedAt = now, d_ActivatedAt = None, d_RevokedAt = None \<rparr> in
            seq (CreateDevice device) (\<lambda>_. ret device))
          else fail e)
     | Inr device \<Rightarrow>
         (if d_UserID device \<noteq> ci_UserID input \<or> d_RevokedAt device \<noteq> None \<or>
             i_PublicKey (d_Identity device) \<noteq> i_PublicKey (ci_Identity input)
          then fail ErrConflict else ret device))"

text \<open>A claim of the pairing its code names, once the guess has been paid for.\<close>

definition claim_found ::
  "conn_service \<Rightarrow> instant \<Rightarrow> claim_pairing_input \<Rightarrow> string \<Rightarrow> pairing \<Rightarrow> claim_outcome conn_op" where
  "claim_found svc now input name pairing =
     (if expired_at now (p_ExpiresAt pairing) then
        seq (SavePairing (pairing\<lparr>p_State := PairingStateExpired\<rparr>)) (\<lambda>_. ret ClaimExpired)
      else if p_State pairing \<noteq> PairingStatePending then fail ErrConflict
      else
        seq (claim_device now input name) (\<lambda>device.
        let pairing = pairing\<lparr>p_State := PairingStateVerification,
              p_UserID := Some (ci_UserID input), p_DeviceID := Some (d_ID device)\<rparr> in
        seq (SavePairing pairing) (\<lambda>_.
        seq (AppendAuditEvent \<lparr> a_UserID = Some (ci_UserID input), a_DeviceID = Some (d_ID device),
              a_ConnectorID = None, a_PairingID = Some (p_ID pairing),
              a_EventType = ''pairing.reviewed'', a_OccurredAt = now \<rparr>) (\<lambda>_.
        ret (Claimed \<lparr> clr_PairingID = p_ID pairing, clr_DeviceID = d_ID device,
              clr_ExpiresAt = p_ExpiresAt pairing,
              clr_Transcript = transcript svc pairing (ci_Identity input) \<rparr>)))))"

text \<open>The lookup of the guessed code: a code that names no pairing is recorded against the account.\<close>

definition claim_guess ::
  "conn_service \<Rightarrow> instant \<Rightarrow> claim_pairing_input \<Rightarrow> string \<Rightarrow> string \<Rightarrow> claim_outcome conn_op" where
  "claim_guess svc now input name code =
     seq (attempt (PairingByCodeForUpdate (hashUserCode svc code))) (\<lambda>found.
     case found of
       Inl e \<Rightarrow>
         (if e = ErrNotFound then
            seq (RecordClaimFailure (ci_UserID input) now (now - accountClaimFailureWindow svc)) (\<lambda>_.
            ret ClaimWrongCode)
          else fail e)
     | Inr pairing \<Rightarrow> claim_found svc now input name pairing)"

definition claim_transaction ::
  "conn_service \<Rightarrow> instant \<Rightarrow> claim_pairing_input \<Rightarrow> string \<Rightarrow> string \<Rightarrow> claim_outcome conn_op" where
  "claim_transaction svc now input name code =
     (if authorizeAccount svc (ci_UserID input) \<noteq> None then fail ErrUnauthorized
      else
        seq (ChallengeForUpdate (hashSecret svc (pr_Challenge (ci_Proof input)))) (\<lambda>challenge.
        if ch_Purpose challenge \<noteq> ChallengePurposeDevice \<or>
           ch_UserID challenge \<noteq> Some (ci_UserID input) \<or> ch_UsedAt challenge \<noteq> None \<or>
           expired_at now (ch_ExpiresAt challenge)
        then fail ErrUnauthorized
        else
        seq (checkClaimFailures svc (ci_UserID input) now) (\<lambda>_.
        seq (SaveChallenge (challenge\<lparr>ch_UsedAt := Some now\<rparr>)) (\<lambda>_.
        claim_guess svc now input name code))))"

definition ClaimPairing ::
  "conn_service \<Rightarrow> instant \<Rightarrow> claim_pairing_input \<Rightarrow> claim_pairing_result conn_op" where
  "ClaimPairing svc now input =
     (case normalizeName (ci_DeviceName input) of
        None \<Rightarrow> fail ErrInvalidInput
      | Some name \<Rightarrow>
     (if ci_UserID input = [] \<or> \<not> validIdentity (crypto_of svc) (ci_Identity input) \<or>
         \<not> verifyIdentityProof (crypto_of svc) (ci_Identity input) (ci_Proof input)
      then fail ErrInvalidInput
      else
        let code = normalizeUserCode (crypto_of svc) (ci_UserCode input) in
        if length code \<noteq> 8 then fail ErrInvalidInput
        else
        seq (on_error normalizeAuthorizationError
              (WithinTransaction (claim_transaction svc now input name code))) (\<lambda>outcome.
        case outcome of
          ClaimWrongCode \<Rightarrow> fail ErrInvalidCode
        | ClaimExpired \<Rightarrow> fail ErrExpired
        | Claimed result \<Rightarrow> ret result)))"

section \<open>Confirming\<close>

text \<open>A repeated confirmation of a completed pairing: hand out the credential it issued, while it is
  still the current one on both sides.\<close>

definition confirm_again ::
  "conn_service \<Rightarrow> string \<Rightarrow> pairing \<Rightarrow> device \<Rightarrow> confirm_pairing_result conn_op" where
  "confirm_again svc userID pairing device =
     (if length (slice (p_ConnectorCredentialHash pairing)) \<noteq> 32 \<or>
         length (slice (p_DeviceCredentialSeed pairing)) \<noteq> deviceCredentialSeedLength
      then fail ErrConflict
      else
        let deviceCredential = deriveDeviceCredential svc (slice (p_DeviceCredentialSeed pairing)) in
        if \<not> hmac_Equal (hashSecret svc deviceCredential) (slice (d_CredentialHash device))
        then fail ErrConflict
        else
        seq (ConnectorByIDForUpdate (the (p_ConnectorID pairing))) (\<lambda>connector.
        if c_UserID connector \<noteq> userID \<or> c_RevokedAt connector \<noteq> None \<or>
           \<not> hmac_Equal (slice (c_CredentialHash connector)) (slice (p_ConnectorCredentialHash pairing))
        then fail ErrConflict
        else ret \<lparr> cfr_DeviceID = d_ID device, cfr_ConnectorID = the (p_ConnectorID pairing),
          cfr_DeviceCredential = deviceCredential,
          cfr_DeviceCredentialExpiresAt = the (d_CredentialExpiresAt device) \<rparr>))"

text \<open>The connector row of the pairing's key, created on its first confirmation.\<close>

definition confirm_connector :: "instant \<Rightarrow> string \<Rightarrow> pairing \<Rightarrow> connector conn_op" where
  "confirm_connector now userID pairing =
     seq (attempt (ConnectorByKeyIDForUpdate (i_KeyID (p_ConnectorIdentity pairing)))) (\<lambda>found.
     case found of
       Inl e \<Rightarrow>
         (if e = ErrNotFound then
            seq (issueIdentifier ''con_'') (\<lambda>connectorID.
            let connector = \<lparr> c_ID = connectorID, c_UserID = userID,
              c_Name = p_ConnectorName pairing, c_Identity = p_ConnectorIdentity pairing,
              c_CredentialHash = None, c_CredentialExpiresAt = None,
              c_PendingCredentialHash = None, c_PendingCredentialExpiresAt = None,
              c_CreatedAt = now, c_RevokedAt = None \<rparr> in
            seq (CreateConnector connector) (\<lambda>_. ret connector))
          else fail e)
     | Inr connector \<Rightarrow>
         (if c_UserID connector \<noteq> userID \<or> c_RevokedAt connector \<noteq> None \<or>
             i_PublicKey (c_Identity connector) \<noteq> i_PublicKey (p_ConnectorIdentity pairing)
          then fail ErrConflict else ret connector))"

text \<open>The writes of a first confirmation.\<close>

definition complete_pairing ::
  "conn_service \<Rightarrow> instant \<Rightarrow> string \<Rightarrow> pairing \<Rightarrow> device \<Rightarrow> connector \<Rightarrow> confirm_pairing_result conn_op" where
  "complete_pairing svc now userID pairing device connector =
     seq (draw deviceCredentialSeedLength) (\<lambda>seed.
     let deviceCredential = deriveDeviceCredential svc seed;
         deviceCredentialExpiresAt = now + deviceCredentialLifetime svc;
         device = device\<lparr>d_CredentialHash := Some (hashSecret svc deviceCredential),
           d_CredentialExpiresAt := Some deviceCredentialExpiresAt,
           d_ActivatedAt := (if d_ActivatedAt device = None then Some now else d_ActivatedAt device)\<rparr> in
     seq (SaveDevice device) (\<lambda>_.
     seq (UpsertTrust \<lparr> t_UserID = userID, t_DeviceID = d_ID device, t_ConnectorID = c_ID connector,
            t_CreatedAt = now, t_RevokedAt = None \<rparr>) (\<lambda>_.
     seq (SaveConnector (connector\<lparr>c_CredentialHash := p_ConnectorCredentialHash pairing,
            c_CredentialExpiresAt := Some (now + connectorCredentialLifetime svc)\<rparr>)) (\<lambda>_.
     seq (SavePairing (pairing\<lparr>p_DeviceCredentialSeed := Some seed, p_State := PairingStateCompleted,
            p_ConnectorID := Some (c_ID connector), p_ConfirmedAt := Some now,
            p_CompletedAt := Some now\<rparr>)) (\<lambda>_.
     seq (AppendAuditEvent \<lparr> a_UserID = Some userID, a_DeviceID = Some (d_ID device),
            a_ConnectorID = Some (c_ID connector), a_PairingID = Some (p_ID pairing),
            a_EventType = ''pairing.completed'', a_OccurredAt = now \<rparr>) (\<lambda>_.
     ret \<lparr> cfr_DeviceID = d_ID device, cfr_ConnectorID = c_ID connector,
       cfr_DeviceCredential = deviceCredential,
       cfr_DeviceCredentialExpiresAt = deviceCredentialExpiresAt \<rparr>))))))"

definition confirm_transaction ::
  "conn_service \<Rightarrow> instant \<Rightarrow> string \<Rightarrow> string \<Rightarrow> string \<Rightarrow> confirm_pairing_result conn_op" where
  "confirm_transaction svc now userID pairingID deviceID =
     seq (check (authorizeAccount svc userID)) (\<lambda>_.
     seq (PairingByIDForUpdate pairingID) (\<lambda>pairing.
     if expired_at now (p_ExpiresAt pairing) then fail ErrExpired
     else if p_UserID pairing \<noteq> Some userID \<or> p_DeviceID pairing \<noteq> Some deviceID
     then fail ErrConflict
     else
     seq (DeviceByIDForUpdate deviceID) (\<lambda>device.
     if d_UserID device \<noteq> userID \<or> d_RevokedAt device \<noteq> None then fail ErrUnauthorized
     else if p_State pairing = PairingStateCompleted \<and> p_ConnectorID pairing \<noteq> None \<and>
        d_CredentialExpiresAt device \<noteq> None
     then confirm_again svc userID pairing device
     else if p_State pairing = PairingStateExpired then fail ErrExpired
     else if p_State pairing \<noteq> PairingStateVerification \<or> p_ConnectorReviewedAt pairing = None \<or>
        length (slice (p_ConnectorCredentialHash pairing)) \<noteq> 32
     then fail ErrConflict
     else
     seq (confirm_connector now userID pairing) (\<lambda>connector.
     complete_pairing svc now userID pairing device connector))))"

definition ConfirmPairing ::
  "conn_service \<Rightarrow> instant \<Rightarrow> string \<Rightarrow> string \<Rightarrow> string \<Rightarrow> confirm_pairing_result conn_op" where
  "ConfirmPairing svc now userID pairingID deviceID =
     (if userID = [] \<or> pairingID = [] \<or> deviceID = [] then fail ErrInvalidInput
      else on_error normalizeAuthorizationError
        (WithinTransaction (confirm_transaction svc now userID pairingID deviceID)))"

section \<open>Polling, approving and cancelling\<close>

definition poll_transcript :: "conn_service \<Rightarrow> pairing \<Rightarrow> pairing_transcript option conn_op" where
  "poll_transcript svc pairing =
     (case p_DeviceID pairing of
        None \<Rightarrow> ret None
      | Some deviceID \<Rightarrow>
          seq (DeviceByIDForUpdate deviceID) (\<lambda>device.
          ret (Some (transcript svc pairing (d_Identity device)))))"

text \<open>The poll of a completed pairing: the connector's credential, while it is the current one.\<close>

definition poll_completed ::
  "conn_service \<Rightarrow> string \<Rightarrow> pairing \<Rightarrow> poll_pairing_result \<Rightarrow> poll_pairing_result conn_op" where
  "poll_completed svc pairingSecret pairing result =
     seq (ConnectorByIDForUpdate (the (p_ConnectorID pairing))) (\<lambda>connector.
     if c_CredentialExpiresAt connector = None \<or> c_RevokedAt connector \<noteq> None then fail ErrUnauthorized
     else
     let credential = deriveConnectorCredential svc pairingSecret in
     if \<not> hmac_Equal (hashSecret svc credential) (slice (c_CredentialHash connector))
     then fail ErrUnauthorized
     else ret (result\<lparr>po_ConnectorID := c_ID connector, po_ConnectorCredential := credential,
       po_ConnectorCredentialExpiresAt := c_CredentialExpiresAt connector,
       po_LinkedAt := Some (c_CreatedAt connector)\<rparr>))"

text \<open>The poll of a pairing in the state \<open>confirmed\<close>, which only older data can hold.\<close>

definition poll_confirmed ::
  "conn_service \<Rightarrow> instant \<Rightarrow> string \<Rightarrow> pairing \<Rightarrow> poll_pairing_result \<Rightarrow> poll_pairing_result conn_op" where
  "poll_confirmed svc now pairingSecret pairing result =
     (case p_ConnectorID pairing of
        None \<Rightarrow> fail ErrConflict
      | Some connectorID \<Rightarrow>
          seq (ConnectorByIDForUpdate connectorID) (\<lambda>connector.
          if c_RevokedAt connector \<noteq> None then fail ErrUnauthorized
          else
          let credential = deriveConnectorCredential svc pairingSecret;
              expiresAt = now + connectorCredentialLifetime svc in
          seq (SaveConnector (connector\<lparr>c_CredentialHash := Some (hashSecret svc credential),
                c_CredentialExpiresAt := Some expiresAt\<rparr>)) (\<lambda>_.
          seq (SavePairing (pairing\<lparr>p_State := PairingStateCompleted, p_CompletedAt := Some now\<rparr>)) (\<lambda>_.
          seq (AppendAuditEvent \<lparr> a_UserID = p_UserID pairing, a_DeviceID = p_DeviceID pairing,
                a_ConnectorID = p_ConnectorID pairing, a_PairingID = Some (p_ID pairing),
                a_EventType = ''pairing.completed'', a_OccurredAt = now \<rparr>) (\<lambda>_.
          ret (result\<lparr>po_Status := PairingStateCompleted, po_ConnectorID := c_ID connector,
            po_ConnectorCredential := credential, po_ConnectorCredentialExpiresAt := Some expiresAt,
            po_LinkedAt := Some (c_CreatedAt connector)\<rparr>))))))"

definition poll_transaction :: "conn_service \<Rightarrow> instant \<Rightarrow> string \<Rightarrow> poll_pairing_result conn_op" where
  "poll_transaction svc now pairingSecret =
     seq (PairingBySecretForUpdate (hashSecret svc pairingSecret)) (\<lambda>pairing.
     let result = \<lparr> po_Status = p_State pairing, po_PairingID = p_ID pairing,
           po_ServiceID = serviceID svc, po_ExpiresAt = p_ExpiresAt pairing, po_Transcript = None,
           po_ConnectorID = [], po_ConnectorCredential = [],
           po_ConnectorCredentialExpiresAt = None, po_LinkedAt = None \<rparr> in
     if expired_at now (p_ExpiresAt pairing) then
       (if p_State pairing \<noteq> PairingStateCompleted then
          seq (SavePairing (pairing\<lparr>p_State := PairingStateExpired\<rparr>)) (\<lambda>_.
          ret (result\<lparr>po_Status := PairingStateExpired\<rparr>))
        else fail ErrExpired)
     else
     seq (poll_transcript svc pairing) (\<lambda>transcript.
     let result = result\<lparr>po_Transcript := transcript\<rparr> in
     if p_State pairing = PairingStateVerification then ret result
     else if p_State pairing = PairingStateCompleted \<and> p_ConnectorID pairing \<noteq> None
     then poll_completed svc pairingSecret pairing result
     else if p_State pairing \<noteq> PairingStateConfirmed then ret result
     else poll_confirmed svc now pairingSecret pairing result))"

definition PollPairing :: "conn_service \<Rightarrow> instant \<Rightarrow> string \<Rightarrow> poll_pairing_result conn_op" where
  "PollPairing svc now pairingSecret =
     (if \<not> validToken pairingSecret ''orp_'' then fail ErrUnauthorized
      else on_error normalizeAuthorizationError
        (WithinTransaction (poll_transaction svc now pairingSecret)))"

text \<open>The closure returns whether it found the pairing over (\<open>expired\<close>).\<close>

definition approve_transaction ::
  "conn_service \<Rightarrow> instant \<Rightarrow> string \<Rightarrow> string \<Rightarrow> string \<Rightarrow> bool conn_op" where
  "approve_transaction svc now pairingID pairingSecret deviceKeyID =
     seq (PairingBySecretForUpdate (hashSecret svc pairingSecret)) (\<lambda>pairing.
     if p_ID pairing \<noteq> pairingID then fail ErrUnauthorized
     else if p_State pairing = PairingStateExpired then ret True
     else if expired_at now (p_ExpiresAt pairing) then
       (if p_State pairing = PairingStateCompleted then fail ErrExpired
        else seq (SavePairing (pairing\<lparr>p_State := PairingStateExpired\<rparr>)) (\<lambda>_. ret True))
     else if p_State pairing \<noteq> PairingStateVerification then fail ErrConflict
     else case p_DeviceID pairing of
       None \<Rightarrow> fail ErrConflict
     | Some deviceID \<Rightarrow>
         seq (DeviceByIDForUpdate deviceID) (\<lambda>device.
         if i_KeyID (d_Identity device) \<noteq> deviceKeyID then fail ErrConflict
         else if p_ConnectorReviewedAt pairing \<noteq> None then ret False
         else
         seq (SavePairing (pairing\<lparr>p_ConnectorReviewedAt := Some now\<rparr>)) (\<lambda>_.
         seq (AppendAuditEvent \<lparr> a_UserID = p_UserID pairing, a_DeviceID = p_DeviceID pairing,
               a_ConnectorID = None, a_PairingID = Some (p_ID pairing),
               a_EventType = ''pairing.connector_approved'', a_OccurredAt = now \<rparr>) (\<lambda>_.
         ret False))))"

definition ApprovePairing ::
  "conn_service \<Rightarrow> instant \<Rightarrow> string \<Rightarrow> string \<Rightarrow> string \<Rightarrow> unit conn_op" where
  "ApprovePairing svc now pairingID pairingSecret deviceKeyID =
     (if pairingID = [] \<or> \<not> validToken pairingSecret ''orp_'' then fail ErrUnauthorized
      else if deviceKeyID = [] \<or> length deviceKeyID > 64 then fail ErrInvalidInput
      else
        seq (on_error normalizeAuthorizationError
              (WithinTransaction (approve_transaction svc now pairingID pairingSecret deviceKeyID)))
          (\<lambda>expired. if expired then fail ErrExpired else ret ()))"

definition cancel_transaction :: "conn_service \<Rightarrow> instant \<Rightarrow> string \<Rightarrow> string \<Rightarrow> unit conn_op" where
  "cancel_transaction svc now pairingID pairingSecret =
     seq (PairingBySecretForUpdate (hashSecret svc pairingSecret)) (\<lambda>pairing.
     if p_ID pairing \<noteq> pairingID then fail ErrUnauthorized
     else if p_State pairing = PairingStateExpired then ret ()
     else if p_State pairing = PairingStateCompleted then fail ErrConflict
     else
     seq (SavePairing (pairing\<lparr>p_State := PairingStateExpired\<rparr>)) (\<lambda>_.
     AppendAuditEvent \<lparr> a_UserID = p_UserID pairing, a_DeviceID = p_DeviceID pairing,
       a_ConnectorID = None, a_PairingID = Some (p_ID pairing),
       a_EventType = ''pairing.cancelled'', a_OccurredAt = now \<rparr>))"

definition CancelPairing :: "conn_service \<Rightarrow> instant \<Rightarrow> string \<Rightarrow> string \<Rightarrow> unit conn_op" where
  "CancelPairing svc now pairingID pairingSecret =
     (if pairingID = [] \<or> \<not> validToken pairingSecret ''orp_'' then fail ErrUnauthorized
      else on_error normalizeAuthorizationError
        (WithinTransaction (cancel_transaction svc now pairingID pairingSecret)))"

end
