(* ===== verification/Conn_Credentials.thy ===== *)
theory Conn_Credentials
  imports Conn_Codec
begin

text \<open>
  Credentials after pairing (\<open>internal/connectors/service.go\<close>): the two-step rotation of a device's and
  of a connector's credential, the connector's view of itself, the three revocations, and the account's
  listing and renaming.
\<close>

section \<open>Device credentials\<close>

definition rotate_device_transaction ::
  "conn_service \<Rightarrow> instant \<Rightarrow> string \<Rightarrow> string \<Rightarrow> string \<Rightarrow> string \<Rightarrow> rotation_result conn_op" where
  "rotate_device_transaction svc now userID sessionID deviceID credential =
     seq (DeviceByCredentialForUpdate (hashSecret svc credential)) (\<lambda>device.
     if d_ID device \<noteq> deviceID \<or> d_UserID device \<noteq> userID \<or> d_ActivatedAt device = None \<or>
        d_RevokedAt device \<noteq> None \<or> \<not> live_at now (d_CredentialExpiresAt device)
     then fail ErrUnauthorized
     else
     seq (check (authorizeAccount svc (d_UserID device))) (\<lambda>_.
     seq (check (authorizeSession svc (d_UserID device) sessionID)) (\<lambda>_.
     seq (issueToken ''ord_'') (\<lambda>issued.
     let activationDeadline = now + credentialActivationWindow svc in
     seq (SaveDevice (device\<lparr>d_PendingCredentialHash := Some (hashSecret svc issued),
           d_PendingCredentialExpiresAt := Some activationDeadline\<rparr>)) (\<lambda>_.
     seq (AppendAuditEvent \<lparr> a_UserID = Some (d_UserID device), a_DeviceID = Some (d_ID device),
           a_ConnectorID = None, a_PairingID = None,
           a_EventType = ''device.credential.rotated'', a_OccurredAt = now \<rparr>) (\<lambda>_.
     ret \<lparr> ro_Credential = issued, ro_ActivateBy = activationDeadline \<rparr>))))))"

definition RotateDeviceCredential ::
  "conn_service \<Rightarrow> instant \<Rightarrow> string \<Rightarrow> string \<Rightarrow> string \<Rightarrow> string \<Rightarrow> rotation_result conn_op" where
  "RotateDeviceCredential svc now userID sessionID deviceID credential =
     (if userID = [] \<or> sessionID = [] \<or> deviceID = [] \<or> \<not> validToken credential ''ord_''
      then fail ErrUnauthorized
      else on_error normalizeAuthorizationError (WithinTransaction
        (rotate_device_transaction svc now userID sessionID deviceID credential)))"

definition activate_device_transaction ::
  "conn_service \<Rightarrow> instant \<Rightarrow> string \<Rightarrow> string \<Rightarrow> string \<Rightarrow> string \<Rightarrow> instant conn_op" where
  "activate_device_transaction svc now userID sessionID deviceID credential =
     (let hash = hashSecret svc credential in
     seq (DeviceByAnyCredentialForUpdate hash) (\<lambda>device.
     if d_ID device \<noteq> deviceID \<or> d_UserID device \<noteq> userID \<or> d_ActivatedAt device = None \<or>
        d_RevokedAt device \<noteq> None
     then fail ErrUnauthorized
     else
     seq (check (authorizeAccount svc (d_UserID device))) (\<lambda>_.
     seq (check (authorizeSession svc (d_UserID device) sessionID)) (\<lambda>_.
     if hmac_Equal hash (slice (d_CredentialHash device)) then
       (if \<not> live_at now (d_CredentialExpiresAt device) then fail ErrUnauthorized
        else ret (the (d_CredentialExpiresAt device)))
     else if d_PendingCredentialHash device = None \<or>
        \<not> hmac_Equal hash (slice (d_PendingCredentialHash device)) \<or>
        \<not> live_at now (d_PendingCredentialExpiresAt device)
     then fail ErrUnauthorized
     else
     let expiresAt = now + deviceCredentialLifetime svc in
     seq (SaveDevice (device\<lparr>d_CredentialHash := Some hash, d_CredentialExpiresAt := Some expiresAt,
           d_PendingCredentialHash := None, d_PendingCredentialExpiresAt := None\<rparr>)) (\<lambda>_.
     seq (AppendAuditEvent \<lparr> a_UserID = Some (d_UserID device), a_DeviceID = Some (d_ID device),
           a_ConnectorID = None, a_PairingID = None,
           a_EventType = ''device.credential.activated'', a_OccurredAt = now \<rparr>) (\<lambda>_.
     ret expiresAt))))))"

definition ActivateDeviceCredential ::
  "conn_service \<Rightarrow> instant \<Rightarrow> string \<Rightarrow> string \<Rightarrow> string \<Rightarrow> string \<Rightarrow> instant conn_op" where
  "ActivateDeviceCredential svc now userID sessionID deviceID credential =
     (if userID = [] \<or> sessionID = [] \<or> deviceID = [] \<or> \<not> validToken credential ''ord_''
      then fail ErrUnauthorized
      else on_error normalizeAuthorizationError (WithinTransaction
        (activate_device_transaction svc now userID sessionID deviceID credential)))"

text \<open>The device as its pending rotation is discarded; the code updates it in place.\<close>

definition cancelPendingDeviceRotation :: "device \<Rightarrow> instant \<Rightarrow> device conn_op" where
  "cancelPendingDeviceRotation device now =
     (if d_PendingCredentialHash device = None then ret device
      else
      let device = device\<lparr>d_PendingCredentialHash := None, d_PendingCredentialExpiresAt := None\<rparr> in
      seq (SaveDevice device) (\<lambda>_.
      seq (AppendAuditEvent \<lparr> a_UserID = Some (d_UserID device), a_DeviceID = Some (d_ID device),
            a_ConnectorID = None, a_PairingID = None,
            a_EventType = ''device.credential.rotation_cancelled'', a_OccurredAt = now \<rparr>) (\<lambda>_.
      ret device)))"

section \<open>Connector credentials\<close>

definition own_connector_transaction :: "conn_service \<Rightarrow> instant \<Rightarrow> string \<Rightarrow> connector conn_op" where
  "own_connector_transaction svc now credential =
     seq (ConnectorByCredentialForUpdate (hashSecret svc credential)) (\<lambda>connector.
     if c_RevokedAt connector \<noteq> None \<or> \<not> live_at now (c_CredentialExpiresAt connector)
     then fail ErrUnauthorized
     else
     seq (check (authorizeAccount svc (c_UserID connector))) (\<lambda>_.
     ret connector))"

definition OwnConnector :: "conn_service \<Rightarrow> instant \<Rightarrow> string \<Rightarrow> connector conn_op" where
  "OwnConnector svc now credential =
     (if \<not> validToken credential ''orc_'' then fail ErrUnauthorized
      else on_error normalizeAuthorizationError
        (WithinTransaction (own_connector_transaction svc now credential)))"

definition rotate_connector_transaction ::
  "conn_service \<Rightarrow> instant \<Rightarrow> string \<Rightarrow> rotation_result conn_op" where
  "rotate_connector_transaction svc now credential =
     seq (ConnectorByCredentialForUpdate (hashSecret svc credential)) (\<lambda>connector.
     if c_RevokedAt connector \<noteq> None \<or> \<not> live_at now (c_CredentialExpiresAt connector)
     then fail ErrUnauthorized
     else
     seq (check (authorizeAccount svc (c_UserID connector))) (\<lambda>_.
     seq (issueToken ''orc_'') (\<lambda>issued.
     let activationDeadline = now + credentialActivationWindow svc in
     seq (SaveConnector (connector\<lparr>c_PendingCredentialHash := Some (hashSecret svc issued),
           c_PendingCredentialExpiresAt := Some activationDeadline\<rparr>)) (\<lambda>_.
     seq (AppendAuditEvent \<lparr> a_UserID = Some (c_UserID connector), a_DeviceID = None,
           a_ConnectorID = Some (c_ID connector), a_PairingID = None,
           a_EventType = ''connector.credential.rotated'', a_OccurredAt = now \<rparr>) (\<lambda>_.
     ret \<lparr> ro_Credential = issued, ro_ActivateBy = activationDeadline \<rparr>)))))"

definition RotateConnectorCredential ::
  "conn_service \<Rightarrow> instant \<Rightarrow> string \<Rightarrow> rotation_result conn_op" where
  "RotateConnectorCredential svc now credential =
     (if \<not> validToken credential ''orc_'' then fail ErrUnauthorized
      else on_error normalizeAuthorizationError
        (WithinTransaction (rotate_connector_transaction svc now credential)))"

definition activate_connector_transaction ::
  "conn_service \<Rightarrow> instant \<Rightarrow> string \<Rightarrow> instant conn_op" where
  "activate_connector_transaction svc now credential =
     (let hash = hashSecret svc credential in
     seq (ConnectorByAnyCredentialForUpdate hash) (\<lambda>connector.
     if c_RevokedAt connector \<noteq> None then fail ErrUnauthorized
     else
     seq (check (authorizeAccount svc (c_UserID connector))) (\<lambda>_.
     if hmac_Equal hash (slice (c_CredentialHash connector)) then
       (if \<not> live_at now (c_CredentialExpiresAt connector) then fail ErrUnauthorized
        else ret (the (c_CredentialExpiresAt connector)))
     else if c_PendingCredentialHash connector = None \<or>
        \<not> hmac_Equal hash (slice (c_PendingCredentialHash connector)) \<or>
        \<not> live_at now (c_PendingCredentialExpiresAt connector)
     then fail ErrUnauthorized
     else
     let expiresAt = now + connectorCredentialLifetime svc in
     seq (SaveConnector (connector\<lparr>c_CredentialHash := Some hash,
           c_CredentialExpiresAt := Some expiresAt, c_PendingCredentialHash := None,
           c_PendingCredentialExpiresAt := None\<rparr>)) (\<lambda>_.
     seq (AppendAuditEvent \<lparr> a_UserID = Some (c_UserID connector), a_DeviceID = None,
           a_ConnectorID = Some (c_ID connector), a_PairingID = None,
           a_EventType = ''connector.credential.activated'', a_OccurredAt = now \<rparr>) (\<lambda>_.
     ret expiresAt)))))"

definition ActivateConnectorCredential :: "conn_service \<Rightarrow> instant \<Rightarrow> string \<Rightarrow> instant conn_op" where
  "ActivateConnectorCredential svc now credential =
     (if \<not> validToken credential ''orc_'' then fail ErrUnauthorized
      else on_error normalizeAuthorizationError
        (WithinTransaction (activate_connector_transaction svc now credential)))"

definition cancelPendingRotation :: "connector \<Rightarrow> instant \<Rightarrow> connector conn_op" where
  "cancelPendingRotation connector now =
     (if c_PendingCredentialHash connector = None then ret connector
      else
      let connector = connector\<lparr>c_PendingCredentialHash := None, c_PendingCredentialExpiresAt := None\<rparr> in
      seq (SaveConnector connector) (\<lambda>_.
      seq (AppendAuditEvent \<lparr> a_UserID = Some (c_UserID connector), a_DeviceID = None,
            a_ConnectorID = Some (c_ID connector), a_PairingID = None,
            a_EventType = ''connector.credential.rotation_cancelled'', a_OccurredAt = now \<rparr>) (\<lambda>_.
      ret connector)))"

section \<open>Revocation\<close>

text \<open>\<open>service.onRevoked(revocation)\<close>, after the transaction has committed.\<close>

definition onRevoked :: "revocation \<Rightarrow> unit conn_op" where
  "onRevoked revocation = (\<lambda>w. (Inr (), w\<lparr>w_revoked := w_revoked w @ [revocation]\<rparr>))"

lemma ensures_onRevoked [vc]:
  "ensures (onRevoked r w) Q E = Q () (w\<lparr>w_revoked := w_revoked w @ [r]\<rparr>)"
  by (simp add: onRevoked_def vc)

lemma onRevoked_runs [runs]:
  "onRevoked r w = (Inr u, w') \<longleftrightarrow> w' = w\<lparr>w_revoked := w_revoked w @ [r]\<rparr>"
  by (auto simp: onRevoked_def)

definition connector_revoked_event :: "connector \<Rightarrow> instant \<Rightarrow> audit_event" where
  "connector_revoked_event connector now =
     \<lparr> a_UserID = Some (c_UserID connector), a_DeviceID = None, a_ConnectorID = Some (c_ID connector),
       a_PairingID = None, a_EventType = ''connector.revoked'', a_OccurredAt = now \<rparr>"

definition revoke_connector_transaction ::
  "conn_service \<Rightarrow> instant \<Rightarrow> string \<Rightarrow> revocation conn_op" where
  "revoke_connector_transaction svc now credential =
     seq (ConnectorByCredentialForUpdate (hashSecret svc credential)) (\<lambda>connector.
     let revoked = \<lparr> rv_UserID = c_UserID connector, rv_ConnectorID = c_ID connector,
           rv_DeviceID = [], rv_SessionID = [] \<rparr> in
     if c_RevokedAt connector \<noteq> None then ret revoked
     else if \<not> live_at now (c_CredentialExpiresAt connector) then fail ErrUnauthorized
     else
     seq (SaveConnector (connector\<lparr>c_RevokedAt := Some now\<rparr>)) (\<lambda>_.
     seq (AppendAuditEvent (connector_revoked_event connector now)) (\<lambda>_.
     ret revoked)))"

definition RevokeConnector :: "conn_service \<Rightarrow> instant \<Rightarrow> string \<Rightarrow> unit conn_op" where
  "RevokeConnector svc now credential =
     (if \<not> validToken credential ''orc_'' then fail ErrUnauthorized
      else
      seq (on_error normalizeAuthorizationError
            (WithinTransaction (revoke_connector_transaction svc now credential))) (\<lambda>revoked.
      onRevoked revoked))"

definition revoke_account_connector_transaction ::
  "instant \<Rightarrow> string \<Rightarrow> string \<Rightarrow> unit conn_op" where
  "revoke_account_connector_transaction now userID connectorID =
     seq (ConnectorByIDForUpdate connectorID) (\<lambda>connector.
     if c_UserID connector \<noteq> userID then fail ErrNotFound
     else if c_RevokedAt connector \<noteq> None then ret ()
     else
     seq (SaveConnector (connector\<lparr>c_RevokedAt := Some now\<rparr>)) (\<lambda>_.
     AppendAuditEvent (connector_revoked_event connector now)))"

definition RevokeAccountConnector ::
  "conn_service \<Rightarrow> instant \<Rightarrow> string \<Rightarrow> string \<Rightarrow> unit conn_op" where
  "RevokeAccountConnector svc now userID connectorID =
     (if userID = [] \<or> connectorID = [] \<or> length connectorID > 64 then fail ErrInvalidInput
      else if authorizeAccount svc userID \<noteq> None then fail ErrUnauthorized
      else
      seq (WithinTransaction (revoke_account_connector_transaction now userID connectorID)) (\<lambda>_.
      onRevoked \<lparr> rv_UserID = userID, rv_ConnectorID = connectorID, rv_DeviceID = [],
        rv_SessionID = [] \<rparr>))"

definition revoke_account_device_transaction ::
  "instant \<Rightarrow> string \<Rightarrow> string \<Rightarrow> unit conn_op" where
  "revoke_account_device_transaction now userID deviceID =
     seq (DeviceByIDForUpdate deviceID) (\<lambda>device.
     if d_UserID device \<noteq> userID then fail ErrNotFound
     else if d_RevokedAt device \<noteq> None then ret ()
     else
     seq (SaveDevice (device\<lparr>d_RevokedAt := Some now, d_PendingCredentialHash := None,
           d_PendingCredentialExpiresAt := None\<rparr>)) (\<lambda>_.
     seq (RevokeDeviceTrust userID (d_ID device) now) (\<lambda>_.
     AppendAuditEvent \<lparr> a_UserID = Some (d_UserID device), a_DeviceID = Some (d_ID device),
       a_ConnectorID = None, a_PairingID = None, a_EventType = ''device.revoked'',
       a_OccurredAt = now \<rparr>)))"

definition RevokeAccountDevice ::
  "conn_service \<Rightarrow> instant \<Rightarrow> string \<Rightarrow> string \<Rightarrow> unit conn_op" where
  "RevokeAccountDevice svc now userID deviceID =
     (if userID = [] \<or> deviceID = [] \<or> length deviceID > 64 then fail ErrInvalidInput
      else if authorizeAccount svc userID \<noteq> None then fail ErrUnauthorized
      else
      seq (WithinTransaction (revoke_account_device_transaction now userID deviceID)) (\<lambda>_.
      onRevoked \<lparr> rv_UserID = userID, rv_ConnectorID = [], rv_DeviceID = deviceID,
        rv_SessionID = [] \<rparr>))"

section \<open>Listing and renaming\<close>

definition ListDevices :: "string \<Rightarrow> device list conn_op" where
  "ListDevices userID =
     (if userID = [] then fail ErrUnauthorized else query (\<lambda>db. Inr (listDevices userID db)))"

definition ListConnectors :: "string \<Rightarrow> connector list conn_op" where
  "ListConnectors userID =
     (if userID = [] then fail ErrUnauthorized else query (\<lambda>db. Inr (listConnectors userID db)))"

definition rename_connector_transaction ::
  "instant \<Rightarrow> string \<Rightarrow> string \<Rightarrow> string \<Rightarrow> connector conn_op" where
  "rename_connector_transaction now userID connectorID name =
     seq (ConnectorByIDForUpdate connectorID) (\<lambda>connector.
     if c_UserID connector \<noteq> userID \<or> c_RevokedAt connector \<noteq> None then fail ErrNotFound
     else if c_Name connector \<noteq> name then
       (let connector = connector\<lparr>c_Name := name\<rparr> in
        seq (SaveConnector connector) (\<lambda>_.
        seq (AppendAuditEvent \<lparr> a_UserID = Some (c_UserID connector), a_DeviceID = None,
              a_ConnectorID = Some (c_ID connector), a_PairingID = None,
              a_EventType = ''connector.renamed'', a_OccurredAt = now \<rparr>) (\<lambda>_.
        ret connector)))
     else ret connector)"

definition RenameAccountConnector ::
  "conn_service \<Rightarrow> instant \<Rightarrow> string \<Rightarrow> string \<Rightarrow> string \<Rightarrow> connector conn_op" where
  "RenameAccountConnector svc now userID connectorID name =
     (case normalizeName name of
        None \<Rightarrow> fail ErrInvalidInput
      | Some name \<Rightarrow>
     (if userID = [] \<or> connectorID = [] \<or> length connectorID > 64 then fail ErrInvalidInput
      else if authorizeAccount svc userID \<noteq> None then fail ErrUnauthorized
      else WithinTransaction (rename_connector_transaction now userID connectorID name)))"

end
