(* ===== verification/Conn_Tickets.thy ===== *)
theory Conn_Tickets
  imports Conn_Credentials
begin

text \<open>
  Relay admission (\<open>internal/connectors/service.go\<close>): the single-use tickets that devices and
  connectors obtain with their credentials, the admission a ticket is exchanged for, and the repeated
  validation of a live admission.
\<close>

section \<open>Issuing\<close>

text \<open>
  Who a ticket is for, as \<open>issueTicket\<close> computes it in its variables: the account, the credential it
  was obtained under (an account session for a client, the connector's ID otherwise), the subject, its
  identity and the end of the authorization.
\<close>

record ticket_subject =
  ts_UserID :: string
  ts_CredentialID :: string
  ts_SubjectID :: string
  ts_Identity :: public_identity
  ts_AuthorizationExpiresAt :: instant

definition client_subject ::
  "instant \<Rightarrow> string \<Rightarrow> string \<Rightarrow> string \<Rightarrow> bytes \<Rightarrow> instant \<Rightarrow> ticket_subject conn_op" where
  "client_subject now userID credentialID subjectID credentialHash authorizationExpiresAt =
     seq (DeviceByCredentialForUpdate credentialHash) (\<lambda>device.
     if d_ID device \<noteq> subjectID \<or> d_UserID device \<noteq> userID \<or> d_ActivatedAt device = None \<or>
        d_RevokedAt device \<noteq> None \<or> \<not> live_at now (d_CredentialExpiresAt device)
     then fail ErrUnauthorized
     else
     seq (cancelPendingDeviceRotation device now) (\<lambda>device.
     let credentialExpiresAt = the (d_CredentialExpiresAt device) in
     ret \<lparr> ts_UserID = userID, ts_CredentialID = credentialID, ts_SubjectID = subjectID,
       ts_Identity = d_Identity device,
       ts_AuthorizationExpiresAt =
         (if authorizationExpiresAt = 0 \<or> credentialExpiresAt < authorizationExpiresAt
          then credentialExpiresAt else authorizationExpiresAt) \<rparr>))"

definition connector_subject :: "instant \<Rightarrow> bytes \<Rightarrow> ticket_subject conn_op" where
  "connector_subject now credentialHash =
     seq (ConnectorByCredentialForUpdate credentialHash) (\<lambda>connector.
     if c_RevokedAt connector \<noteq> None \<or> \<not> live_at now (c_CredentialExpiresAt connector)
     then fail ErrUnauthorized
     else
     seq (cancelPendingRotation connector now) (\<lambda>connector.
     ret \<lparr> ts_UserID = c_UserID connector, ts_CredentialID = c_ID connector,
       ts_SubjectID = c_ID connector, ts_Identity = c_Identity connector,
       ts_AuthorizationExpiresAt = the (c_CredentialExpiresAt connector) \<rparr>))"

definition issue_ticket_transaction ::
  "conn_service \<Rightarrow> instant \<Rightarrow> string \<Rightarrow> string \<Rightarrow> instant \<Rightarrow> ticket_subject conn_op \<Rightarrow> unit conn_op" where
  "issue_ticket_transaction svc now role ticket expiresAt find_subject =
     seq find_subject (\<lambda>subject.
     seq (check (authorizeAccount svc (ts_UserID subject))) (\<lambda>_.
     seq (if role = RelayRoleClient
          then check (authorizeSession svc (ts_UserID subject) (ts_CredentialID subject))
          else ret ()) (\<lambda>_.
     CreateRelayTicket
       \<lparr> rt_TokenHash = hashSecret svc ticket, rt_UserID = ts_UserID subject, rt_Role = role,
         rt_SubjectID = ts_SubjectID subject, rt_SubjectKeyID = i_KeyID (ts_Identity subject),
         rt_CredentialID = ts_CredentialID subject,
         rt_AuthorizationExpiresAt = Some (ts_AuthorizationExpiresAt subject),
         rt_CreatedAt = now, rt_ExpiresAt = expiresAt, rt_ConsumedAt = None \<rparr>)))"

definition issueTicket ::
  "conn_service \<Rightarrow> instant \<Rightarrow> string \<Rightarrow> string \<Rightarrow> string \<Rightarrow> string \<Rightarrow> bytes \<Rightarrow> instant \<Rightarrow>
   ticket_result conn_op" where
  "issueTicket svc now role userID credentialID subjectID credentialHash authorizationExpiresAt =
     seq (issueToken ''ort_'') (\<lambda>ticket.
     let expiresAt = now + ticketLifetime svc in
     seq (on_error normalizeAuthorizationError (WithinTransaction
           (issue_ticket_transaction svc now role ticket expiresAt
             (if role = RelayRoleClient
              then client_subject now userID credentialID subjectID credentialHash authorizationExpiresAt
              else connector_subject now credentialHash)))) (\<lambda>_.
     ret \<lparr> tk_Ticket = ticket, tk_ExpiresAt = expiresAt \<rparr>))"

definition IssueBrowserTicket ::
  "conn_service \<Rightarrow> instant \<Rightarrow> string \<Rightarrow> string \<Rightarrow> string \<Rightarrow> string \<Rightarrow> instant \<Rightarrow> ticket_result conn_op" where
  "IssueBrowserTicket svc now userID sessionID deviceID credential authorizationExpiresAt =
     (if userID = [] \<or> sessionID = [] \<or> deviceID = [] \<or> \<not> validToken credential ''ord_''
      then fail ErrUnauthorized
      else issueTicket svc now RelayRoleClient userID sessionID deviceID
        (hashSecret svc credential) authorizationExpiresAt)"

definition IssueConnectorTicket :: "conn_service \<Rightarrow> instant \<Rightarrow> string \<Rightarrow> ticket_result conn_op" where
  "IssueConnectorTicket svc now credential =
     (if \<not> validToken credential ''orc_'' then fail ErrUnauthorized
      else issueTicket svc now RelayRoleConnector [] [] [] (hashSecret svc credential) 0)"

section \<open>Consuming\<close>

definition ticket_identity :: "relay_ticket \<Rightarrow> public_identity conn_op" where
  "ticket_identity record =
     (if rt_Role record = RelayRoleClient then
        seq (DeviceByIDForUpdate (rt_SubjectID record)) (\<lambda>device.
        if d_UserID device \<noteq> rt_UserID record \<or> d_ActivatedAt device = None \<or>
           d_RevokedAt device \<noteq> None \<or> i_KeyID (d_Identity device) \<noteq> rt_SubjectKeyID record
        then fail ErrUnauthorized
        else ret (d_Identity device))
      else if rt_Role record = RelayRoleConnector then
        seq (ConnectorByIDForUpdate (rt_SubjectID record)) (\<lambda>connector.
        if c_UserID connector \<noteq> rt_UserID record \<or> c_RevokedAt connector \<noteq> None \<or>
           i_KeyID (c_Identity connector) \<noteq> rt_SubjectKeyID record
        then fail ErrUnauthorized
        else ret (c_Identity connector))
      else fail ErrUnauthorized)"

definition consume_ticket_transaction :: "conn_service \<Rightarrow> instant \<Rightarrow> string \<Rightarrow> admission conn_op" where
  "consume_ticket_transaction svc now ticket =
     seq (RelayTicketForUpdate (hashSecret svc ticket)) (\<lambda>record.
     if rt_ConsumedAt record \<noteq> None \<or> \<not> now < rt_ExpiresAt record \<or>
        \<not> live_at now (rt_AuthorizationExpiresAt record)
     then fail ErrUnauthorized
     else
     seq (check (authorizeAccount svc (rt_UserID record))) (\<lambda>_.
     seq (if rt_Role record = RelayRoleClient
          then check (authorizeSession svc (rt_UserID record) (rt_CredentialID record))
          else ret ()) (\<lambda>_.
     seq (ticket_identity record) (\<lambda>identity.
     seq (TrustedIdentities (rt_UserID record) (rt_Role record) (rt_SubjectID record)) (\<lambda>trusted.
     seq (SaveRelayTicket (record\<lparr>rt_ConsumedAt := Some now\<rparr>)) (\<lambda>_.
     let authorizationExpiresAt = the (rt_AuthorizationExpiresAt record);
         lease = now + defaultAuthorizationLease;
         leaseExpiresAt = (if authorizationExpiresAt < lease then authorizationExpiresAt else lease) in
     ret \<lparr> ad_UserID = rt_UserID record, ad_Role = rt_Role record, ad_SubjectID = rt_SubjectID record,
       ad_SessionID = (if rt_Role record = RelayRoleClient then rt_CredentialID record else []),
       ad_Identity = identity, ad_TrustedIdentities = trusted,
       ad_AuthorizationExpiresAt = leaseExpiresAt \<rparr>))))))"

definition ConsumeRelayTicket :: "conn_service \<Rightarrow> instant \<Rightarrow> string \<Rightarrow> admission conn_op" where
  "ConsumeRelayTicket svc now ticket =
     (if \<not> validToken ticket ''ort_'' then fail ErrUnauthorized
      else on_error normalizeAuthorizationError
        (WithinTransaction (consume_ticket_transaction svc now ticket)))"

section \<open>Validating a live admission\<close>

definition validate_transaction :: "conn_service \<Rightarrow> instant \<Rightarrow> admission \<Rightarrow> unit conn_op" where
  "validate_transaction svc now admission =
     (if ad_Role admission = RelayRoleConnector then
        seq (ConnectorByIDForUpdate (ad_SubjectID admission)) (\<lambda>connector.
        if c_UserID connector \<noteq> ad_UserID admission \<or> c_Identity connector \<noteq> ad_Identity admission \<or>
           c_RevokedAt connector \<noteq> None \<or> \<not> live_at now (c_CredentialExpiresAt connector)
        then fail ErrUnauthorized
        else check (authorizeAccount svc (c_UserID connector)))
      else
        seq (DeviceByIDForUpdate (ad_SubjectID admission)) (\<lambda>device.
        if d_UserID device \<noteq> ad_UserID admission \<or> d_Identity device \<noteq> ad_Identity admission \<or>
           d_ActivatedAt device = None \<or> d_RevokedAt device \<noteq> None \<or>
           \<not> live_at now (d_CredentialExpiresAt device)
        then fail ErrUnauthorized
        else
        seq (check (authorizeAccount svc (d_UserID device))) (\<lambda>_.
        check (authorizeSession svc (d_UserID device) (ad_SessionID admission)))))"

definition ValidateAdmission :: "conn_service \<Rightarrow> instant \<Rightarrow> admission \<Rightarrow> unit conn_op" where
  "ValidateAdmission svc now admission =
     (if ad_UserID admission = [] \<or> ad_SubjectID admission = [] then fail ErrUnauthorized
      else if ad_Role admission \<noteq> RelayRoleConnector \<and> ad_Role admission \<noteq> RelayRoleClient
      then fail ErrUnauthorized
      else if ad_Role admission = RelayRoleClient \<and> ad_SessionID admission = []
      then fail ErrUnauthorized
      else on_error normalizeAuthorizationError
        (WithinTransaction (validate_transaction svc now admission)))"

end
