(* ===== verification/Conn_Evolution.thy ===== *)
theory Conn_Evolution
  imports Conn_Pairing Conn_Tickets
begin

text \<open>
  How the connectors database may change: for each table, what an update of a row may do and what a
  new row looks like, and the step relation of a pairing.  \<open>db_step\<close> collects them; the lemmas of
  \<open>Conn_Steps\<close> show that every operation is such a step, so the properties that hold along a run
  follow from this relation alone.
\<close>

section \<open>Rows\<close>

text \<open>A challenge is spent at most once, and nothing else of it changes.\<close>

definition challenge_le :: "challenge \<Rightarrow> challenge \<Rightarrow> bool" where
  "challenge_le a b \<longleftrightarrow> b = a\<lparr>ch_UsedAt := ch_UsedAt b\<rparr> \<and> (ch_UsedAt a \<noteq> None \<longrightarrow> b = a)"

definition challenge_fresh :: "challenge \<Rightarrow> bool" where
  "challenge_fresh c \<longleftrightarrow> ch_UsedAt c = None"

text \<open>A relay ticket is consumed at most once, and nothing else of it changes.\<close>

definition ticket_le :: "relay_ticket \<Rightarrow> relay_ticket \<Rightarrow> bool" where
  "ticket_le a b \<longleftrightarrow> b = a\<lparr>rt_ConsumedAt := rt_ConsumedAt b\<rparr> \<and> (rt_ConsumedAt a \<noteq> None \<longrightarrow> b = a)"

definition ticket_fresh :: "relay_ticket \<Rightarrow> bool" where
  "ticket_fresh t \<longleftrightarrow> rt_ConsumedAt t = None"

text \<open>
  A device or a connector keeps its ID, account and identity; an activation stands; and a revoked row
  never changes again.
\<close>

definition device_le :: "device \<Rightarrow> device \<Rightarrow> bool" where
  "device_le a b \<longleftrightarrow> d_ID b = d_ID a \<and> d_UserID b = d_UserID a \<and> d_Name b = d_Name a \<and>
     d_Identity b = d_Identity a \<and> d_CreatedAt b = d_CreatedAt a \<and>
     (d_ActivatedAt a \<noteq> None \<longrightarrow> d_ActivatedAt b = d_ActivatedAt a) \<and>
     (d_RevokedAt a \<noteq> None \<longrightarrow> b = a)"

definition device_fresh :: "device \<Rightarrow> bool" where
  "device_fresh d \<longleftrightarrow> d_RevokedAt d = None \<and> d_ActivatedAt d = None \<and> d_CredentialHash d = None \<and>
     d_PendingCredentialHash d = None"

definition connector_le :: "connector \<Rightarrow> connector \<Rightarrow> bool" where
  "connector_le a b \<longleftrightarrow> c_ID b = c_ID a \<and> c_UserID b = c_UserID a \<and>
     c_Identity b = c_Identity a \<and> c_CreatedAt b = c_CreatedAt a \<and>
     (c_RevokedAt a \<noteq> None \<longrightarrow> b = a)"

definition connector_fresh :: "connector \<Rightarrow> bool" where
  "connector_fresh c \<longleftrightarrow> c_RevokedAt c = None"

definition trust_le :: "trust \<Rightarrow> trust \<Rightarrow> bool" where
  "trust_le a b \<longleftrightarrow> trust_key b = trust_key a"

lemmas row_order_defs = challenge_le_def ticket_le_def device_le_def connector_le_def trust_le_def

lemmas row_fresh_defs = challenge_fresh_def ticket_fresh_def device_fresh_def connector_fresh_def

lemma row_order_refl [simp]:
  "challenge_le a a" "ticket_le t t" "device_le d d" "connector_le c c" "trust_le u u"
  by (simp_all add: row_order_defs)

lemma row_order_trans:
  "challenge_le a a' \<Longrightarrow> challenge_le a' a'' \<Longrightarrow> challenge_le a a''"
  "ticket_le t t' \<Longrightarrow> ticket_le t' t'' \<Longrightarrow> ticket_le t t''"
  "device_le d d' \<Longrightarrow> device_le d' d'' \<Longrightarrow> device_le d d''"
  "connector_le c c' \<Longrightarrow> connector_le c' c'' \<Longrightarrow> connector_le c c''"
  "trust_le u u' \<Longrightarrow> trust_le u' u'' \<Longrightarrow> trust_le u u''"
  unfolding row_order_defs
  by (metis challenge.surjective challenge.update_convs(6),
      metis relay_ticket.surjective relay_ticket.update_convs(10), metis, metis, metis)

section \<open>The life of a pairing\<close>

text \<open>
  The moves of one pairing at the instant \<open>now\<close>.  \<open>claim\<close> binds it to an account and a device,
  \<open>approve\<close> records the consent given at the connector, \<open>complete\<close> binds the connector and issues the
  credentials, and it can be given up or run out (\<open>over\<close>).
\<close>

inductive pairing_step :: "instant \<Rightarrow> pairing \<Rightarrow> pairing \<Rightarrow> bool" for now where
  claim: "p_State p = PairingStatePending \<Longrightarrow> now < p_ExpiresAt p \<Longrightarrow>
    pairing_step now p (p\<lparr>p_State := PairingStateVerification, p_UserID := Some u, p_DeviceID := Some d\<rparr>)"
| approve: "p_State p = PairingStateVerification \<Longrightarrow> now < p_ExpiresAt p \<Longrightarrow> p_DeviceID p \<noteq> None \<Longrightarrow>
    p_ConnectorReviewedAt p = None \<Longrightarrow>
    pairing_step now p (p\<lparr>p_ConnectorReviewedAt := Some now\<rparr>)"
| complete: "p_State p = PairingStateVerification \<Longrightarrow> now < p_ExpiresAt p \<Longrightarrow>
    p_ConnectorReviewedAt p \<noteq> None \<Longrightarrow> p_UserID p = Some u \<Longrightarrow> p_DeviceID p = Some d \<Longrightarrow>
    length seed = deviceCredentialSeedLength \<Longrightarrow>
    pairing_step now p (p\<lparr>p_DeviceCredentialSeed := Some seed, p_State := PairingStateCompleted,
      p_ConnectorID := Some c, p_ConfirmedAt := Some now, p_CompletedAt := Some now\<rparr>)"
| finish: "p_State p = PairingStateConfirmed \<Longrightarrow> now < p_ExpiresAt p \<Longrightarrow>
    pairing_step now p (p\<lparr>p_State := PairingStateCompleted, p_CompletedAt := Some now\<rparr>)"
| over: "p_State p \<noteq> PairingStateCompleted \<or> p_ExpiresAt p \<le> now \<Longrightarrow>
    pairing_step now p (p\<lparr>p_State := PairingStateExpired\<rparr>)"
| stay: "pairing_step now p p"

inductive_cases pairing_stepE: "pairing_step now p q"

definition pairing_fresh :: "pairing \<Rightarrow> bool" where
  "pairing_fresh p \<longleftrightarrow> p_State p = PairingStatePending \<and> p_UserID p = None \<and> p_DeviceID p = None \<and>
     p_ConnectorID p = None \<and> p_ConnectorReviewedAt p = None \<and> p_DeviceCredentialSeed p = None"

section \<open>The whole database\<close>

text \<open>
  A trust links a device and a connector of its own account, and a live one links no revoked device.
\<close>

definition trust_live :: "trust \<Rightarrow> bool" where
  "trust_live t \<longleftrightarrow> t_RevokedAt t = None"

definition trust_grounded :: "conn_db \<Rightarrow> trust \<Rightarrow> bool" where
  "trust_grounded db t \<longleftrightarrow>
     (\<exists>d \<in> set (devices db). d_ID d = t_DeviceID t \<and> d_UserID d = t_UserID t \<and>
        (trust_live t \<longrightarrow> d_RevokedAt d = None)) \<and>
     (\<exists>c \<in> set (connectors db). c_ID c = t_ConnectorID t \<and> c_UserID c = t_UserID t)"

text \<open>What holds of a pairing by its state, and of the rows it names.\<close>

definition pairing_bound :: "pairing \<Rightarrow> bool" where
  "pairing_bound p \<longleftrightarrow>
     p_State p \<noteq> PairingStateConfirmed \<and>
     (p_DeviceID p = None \<longleftrightarrow> p_UserID p = None) \<and>
     (p_State p = PairingStatePending \<longrightarrow> p_DeviceID p = None \<and> p_ConnectorID p = None \<and>
        p_ConnectorReviewedAt p = None) \<and>
     (p_State p = PairingStateVerification \<longrightarrow> p_DeviceID p \<noteq> None \<and> p_ConnectorID p = None) \<and>
     (p_ConnectorReviewedAt p \<noteq> None \<longrightarrow> p_DeviceID p \<noteq> None) \<and>
     (p_State p = PairingStateCompleted \<longrightarrow> p_DeviceID p \<noteq> None \<and> p_ConnectorID p \<noteq> None \<and>
        p_ConnectorReviewedAt p \<noteq> None \<and>
        length (slice (p_DeviceCredentialSeed p)) = deviceCredentialSeedLength)"

definition pairing_grounded :: "conn_db \<Rightarrow> pairing \<Rightarrow> bool" where
  "pairing_grounded db p \<longleftrightarrow>
     (\<forall>i. p_DeviceID p = Some i \<longrightarrow>
        (\<exists>d \<in> set (devices db). d_ID d = i \<and> Some (d_UserID d) = p_UserID p)) \<and>
     (\<forall>i. p_ConnectorID p = Some i \<longrightarrow>
        (\<exists>c \<in> set (connectors db). c_ID c = i \<and> Some (c_UserID c) = p_UserID p \<and>
           i_KeyID (c_Identity c) = i_KeyID (p_ConnectorIdentity p)))"

definition db_inv :: "conn_db \<Rightarrow> bool" where
  "db_inv db \<longleftrightarrow> schema_ok db \<and>
     (\<forall>p \<in> set (pairings db). pairing_bound p \<and> pairing_grounded db p) \<and>
     (\<forall>t \<in> set (trusts db). trust_grounded db t)"

definition db_step :: "instant \<Rightarrow> conn_db \<Rightarrow> conn_db \<Rightarrow> bool" where
  "db_step now db db' \<longleftrightarrow>
     evolves challenge_le challenge_fresh (challenges db) (challenges db') \<and>
     evolves (pairing_step now)\<^sup>*\<^sup>* pairing_fresh (pairings db) (pairings db') \<and>
     evolves device_le device_fresh (devices db) (devices db') \<and>
     evolves connector_le connector_fresh (connectors db) (connectors db') \<and>
     evolves trust_le (\<lambda>_. True) (trusts db) (trusts db') \<and>
     evolves ticket_le ticket_fresh (relay_tickets db) (relay_tickets db') \<and>
     (\<exists>events. audit_events db' = audit_events db @ events) \<and>
     set (user_ids db) \<subseteq> set (user_ids db')"

section \<open>The invariant along a step\<close>

lemma pairing_step_bound:
  "pairing_step now p q \<Longrightarrow> pairing_bound p \<Longrightarrow> pairing_bound q"
  by (erule pairing_stepE) (auto simp: pairing_bound_def)

lemma pairing_steps_bound:
  "(pairing_step now)\<^sup>*\<^sup>* p q \<Longrightarrow> pairing_bound p \<Longrightarrow> pairing_bound q"
  by (induction rule: rtranclp_induct) (auto intro: pairing_step_bound)

lemma pairing_fresh_bound: "pairing_fresh p \<Longrightarrow> pairing_bound p"
  by (simp add: pairing_fresh_def pairing_bound_def)

lemma pairing_fresh_grounded: "pairing_fresh p \<Longrightarrow> pairing_grounded db p"
  by (simp add: pairing_fresh_def pairing_grounded_def)

lemma pairing_grounded_mono:
  assumes "pairing_grounded db p" and "db_step now db db'"
    and "p_UserID q = p_UserID p" "p_DeviceID q = p_DeviceID p" "p_ConnectorID q = p_ConnectorID p"
      "p_ConnectorIdentity q = p_ConnectorIdentity p"
  shows "pairing_grounded db' q"
proof -
  have d: "\<exists>d' \<in> set (devices db'). device_le d d'" if "d \<in> set (devices db)" for d
    using assms(2) that by (auto simp: db_step_def dest: evolves_old)
  have c: "\<exists>c' \<in> set (connectors db'). connector_le c c'" if "c \<in> set (connectors db)" for c
    using assms(2) that by (auto simp: db_step_def dest: evolves_old)
  have "\<exists>d' \<in> set (devices db'). d_ID d' = i \<and> Some (d_UserID d') = p_UserID q"
    if i: "p_DeviceID q = Some i" for i
  proof -
    obtain x where x: "x \<in> set (devices db)" "d_ID x = i" "Some (d_UserID x) = p_UserID p"
      using assms(1,4) i unfolding pairing_grounded_def by metis
    obtain x' where "x' \<in> set (devices db')" "device_le x x'" using d[OF x(1)] by blast
    then show ?thesis using x assms(3) by (auto simp: device_le_def)
  qed
  moreover have "\<exists>c' \<in> set (connectors db'). c_ID c' = i \<and> Some (c_UserID c') = p_UserID q \<and>
      i_KeyID (c_Identity c') = i_KeyID (p_ConnectorIdentity q)" if i: "p_ConnectorID q = Some i" for i
  proof -
    obtain x where x: "x \<in> set (connectors db)" "c_ID x = i" "Some (c_UserID x) = p_UserID p"
        "i_KeyID (c_Identity x) = i_KeyID (p_ConnectorIdentity p)"
      using assms(1,5) i unfolding pairing_grounded_def by metis
    obtain x' where "x' \<in> set (connectors db')" "connector_le x x'" using c[OF x(1)] by blast
    then show ?thesis using x assms(3,6) by (auto simp: connector_le_def)
  qed
  ultimately show ?thesis by (simp add: pairing_grounded_def)
qed

definition same_parties :: "pairing \<Rightarrow> pairing \<Rightarrow> bool" where
  "same_parties p q \<longleftrightarrow> p_UserID q = p_UserID p \<and> p_DeviceID q = p_DeviceID p \<and>
     p_ConnectorID q = p_ConnectorID p \<and> p_ConnectorIdentity q = p_ConnectorIdentity p"

definition revocations_kept :: "conn_db \<Rightarrow> conn_db \<Rightarrow> trust \<Rightarrow> trust \<Rightarrow> bool" where
  "revocations_kept db db' t t' \<longleftrightarrow> trust_key t' = trust_key t \<and>
     (trust_live t' \<longrightarrow> trust_live t \<and> (\<forall>d \<in> set (devices db). \<forall>d' \<in> set (devices db').
        d_ID d = t_DeviceID t \<and> device_le d d' \<and> d_RevokedAt d = None \<longrightarrow> d_RevokedAt d' = None))"

lemma trust_grounded_mono:
  assumes "trust_grounded db t" and step: "db_step now db db'" and "revocations_kept db db' t t'"
  shows "trust_grounded db' t'"
proof -
  from assms(1) obtain d c where d: "d \<in> set (devices db)" "d_ID d = t_DeviceID t" "d_UserID d = t_UserID t"
      "trust_live t \<Longrightarrow> d_RevokedAt d = None"
    and c: "c \<in> set (connectors db)" "c_ID c = t_ConnectorID t" "c_UserID c = t_UserID t"
    by (auto simp: trust_grounded_def)
  obtain d' where d': "d' \<in> set (devices db')" "device_le d d'"
    using step d(1) by (auto simp: db_step_def dest: evolves_old)
  obtain c' where c': "c' \<in> set (connectors db')" "connector_le c c'"
    using step c(1) by (auto simp: db_step_def dest: evolves_old)
  have key: "t_UserID t' = t_UserID t" "t_DeviceID t' = t_DeviceID t" "t_ConnectorID t' = t_ConnectorID t"
    using assms(3) by (auto simp: revocations_kept_def trust_key_def)
  have "trust_live t' \<Longrightarrow> d_RevokedAt d' = None"
    using assms(3) d d' by (auto simp: revocations_kept_def)
  moreover have "d_ID d' = t_DeviceID t'" "d_UserID d' = t_UserID t'"
    "c_ID c' = t_ConnectorID t'" "c_UserID c' = t_UserID t'"
    using d d' c c' key by (auto simp: device_le_def connector_le_def)
  ultimately show ?thesis
    using d'(1) c'(1) unfolding trust_grounded_def by blast
qed

text \<open>A step from a good database that keeps its constraints and grounds what it binds.\<close>

lemma db_inv_step:
  assumes inv: "db_inv db" and schema: "schema_ok db'" and step: "db_step now db db'"
    and pairs: "\<And>q. q \<in> set (pairings db') \<Longrightarrow>
      (\<exists>p \<in> set (pairings db). same_parties p q) \<or> pairing_fresh q \<or> pairing_grounded db' q"
    and trusts: "\<And>t'. t' \<in> set (trusts db') \<Longrightarrow>
      (\<exists>t \<in> set (trusts db). revocations_kept db db' t t') \<or> trust_grounded db' t'"
  shows "db_inv db'"
proof -
  have "pairing_bound q" if q: "q \<in> set (pairings db')" for q
  proof -
    have "evolves (pairing_step now)\<^sup>*\<^sup>* pairing_fresh (pairings db) (pairings db')"
      using step by (simp add: db_step_def)
    then show ?thesis
      using evolves_new[OF _ q] inv pairing_steps_bound pairing_fresh_bound
      unfolding db_inv_def by blast
  qed
  moreover have "pairing_grounded db' q" if "q \<in> set (pairings db')" for q
    using pairs[OF that] inv pairing_grounded_mono[OF _ step] pairing_fresh_grounded
    unfolding db_inv_def same_parties_def by blast
  moreover have "trust_grounded db' t'" if "t' \<in> set (trusts db')" for t'
    using trusts[OF that] inv trust_grounded_mono[OF _ step] unfolding db_inv_def by blast
  ultimately show ?thesis
    using schema by (simp add: db_inv_def)
qed

definition good_step :: "instant \<Rightarrow> conn_db \<Rightarrow> conn_db \<Rightarrow> bool" where
  "good_step now db db' \<longleftrightarrow> db_step now db db' \<and> db_inv db'"

lemma db_step_refl: "db_step now db db"
  by (simp add: db_step_def evolves_refl)

lemma good_refl: "db_inv db \<Longrightarrow> good_step now db db"
  by (simp add: good_step_def db_step_refl)

lemma db_step_trans:
  assumes "db_step now a b" and "db_step now b c" shows "db_step now a c"
proof -
  have "evolves challenge_le challenge_fresh (challenges a) (challenges c)"
    "evolves (pairing_step now)\<^sup>*\<^sup>* pairing_fresh (pairings a) (pairings c)"
    "evolves device_le device_fresh (devices a) (devices c)"
    "evolves connector_le connector_fresh (connectors a) (connectors c)"
    "evolves trust_le (\<lambda>_. True) (trusts a) (trusts c)"
    "evolves ticket_le ticket_fresh (relay_tickets a) (relay_tickets c)"
    using assms unfolding db_step_def
    by (blast intro: evolves_trans row_order_trans rtranclp_trans)+
  then show ?thesis using assms unfolding db_step_def by auto
qed

lemma good_trans: "good_step now a b \<Longrightarrow> good_step now b c \<Longrightarrow> good_step now a c"
  by (auto simp: good_step_def intro: db_step_trans)

end

