(* ===== verification/Conn_Steps.thy ===== *)
theory Conn_Steps
  imports Conn_Evolution
begin

text \<open>
  Every operation of the connectors service that succeeds is a step of \<open>Conn_Evolution\<close> and keeps the
  invariant of the database; one that fails leaves the database as it was, because each runs inside
  one transaction.  The statements of the store come first, each as a step of its table; then the
  operations, by composing them.
\<close>

section \<open>Tables\<close>

lemma db_invD:
  assumes "db_inv db"
  shows "rows_ok challenge_clash challenge_valid (challenges db)"
    "rows_ok pairing_clash pairing_valid (pairings db)"
    "rows_ok device_clash device_valid (devices db)"
    "rows_ok connector_clash connector_valid (connectors db)"
    "rows_ok trust_clash (\<lambda>_. True) (trusts db)"
    "rows_ok relay_ticket_clash relay_ticket_valid (relay_tickets db)"
  using assms by (simp_all add: db_inv_def schema_ok_def)

lemma same_parties_refl [simp]: "same_parties p p"
  by (simp add: same_parties_def)

lemma parties_kept: "q \<in> set rows \<Longrightarrow> \<exists>p \<in> set rows. same_parties p q"
  using same_parties_refl by blast

lemma revocations_kept_same:
  assumes "schema_ok db" and "devices db' = devices db"
  shows "revocations_kept db db' t t"
  using assms(1) unfolding revocations_kept_def device_le_def schema_ok_def assms(2)
  by (metis device_table.wf_key)

lemmas plain_defs = good_step_def db_inv_def schema_ok_def db_step_def pairing_grounded_def trust_grounded_def

lemma good_challenges:
  assumes "db_inv db" and "rows_ok challenge_clash challenge_valid rows"
    and "evolves challenge_le challenge_fresh (challenges db) rows"
  shows "good_step now db (db\<lparr>challenges := rows\<rparr>)"
  using assms by (simp add: plain_defs evolves_refl)

lemma good_relay_tickets:
  assumes "db_inv db" and "rows_ok relay_ticket_clash relay_ticket_valid rows"
    and "evolves ticket_le ticket_fresh (relay_tickets db) rows"
  shows "good_step now db (db\<lparr>relay_tickets := rows\<rparr>)"
  using assms by (simp add: plain_defs evolves_refl)

lemma good_audit_events: "db_inv db \<Longrightarrow> good_step now db (db\<lparr>audit_events := audit_events db @ events\<rparr>)"
  by (simp add: plain_defs evolves_refl)

lemma good_claim_failures: "db_inv db \<Longrightarrow> good_step now db (db\<lparr>claim_failures := rows\<rparr>)"
  by (simp add: plain_defs evolves_refl)

lemma good_pairings:
  assumes inv: "db_inv db" and ok: "rows_ok pairing_clash pairing_valid rows"
    and ev: "evolves (pairing_step now)\<^sup>*\<^sup>* pairing_fresh (pairings db) rows"
    and parties: "\<And>q. q \<in> set rows \<Longrightarrow>
      (\<exists>p \<in> set (pairings db). same_parties p q) \<or> pairing_fresh q \<or> pairing_grounded db q"
  shows "good_step now db (db\<lparr>pairings := rows\<rparr>)"
proof -
  have step: "db_step now db (db\<lparr>pairings := rows\<rparr>)"
    using ev by (simp add: db_step_def evolves_refl)
  have "db_inv (db\<lparr>pairings := rows\<rparr>)"
  proof (rule db_inv_step[OF inv _ step])
    show "schema_ok (db\<lparr>pairings := rows\<rparr>)"
      using inv ok by (simp add: db_inv_def schema_ok_def)
    show "(\<exists>p \<in> set (pairings db). same_parties p q) \<or> pairing_fresh q \<or>
        pairing_grounded (db\<lparr>pairings := rows\<rparr>) q" if "q \<in> set (pairings (db\<lparr>pairings := rows\<rparr>))" for q
      using parties[of q] that by (simp add: pairing_grounded_def)
    show "(\<exists>t \<in> set (trusts db). revocations_kept db (db\<lparr>pairings := rows\<rparr>) t t') \<or>
        trust_grounded (db\<lparr>pairings := rows\<rparr>) t'" if "t' \<in> set (trusts (db\<lparr>pairings := rows\<rparr>))" for t'
      using inv that by (simp add: db_inv_def trust_grounded_def)
  qed
  then show ?thesis using step by (simp add: good_step_def)
qed

lemma good_connectors:
  assumes inv: "db_inv db" and ok: "rows_ok connector_clash connector_valid rows"
    and ev: "evolves connector_le connector_fresh (connectors db) rows"
  shows "good_step now db (db\<lparr>connectors := rows\<rparr>)"
proof -
  have step: "db_step now db (db\<lparr>connectors := rows\<rparr>)"
    using ev by (simp add: db_step_def evolves_refl)
  have "db_inv (db\<lparr>connectors := rows\<rparr>)"
  proof (rule db_inv_step[OF inv _ step])
    show "schema_ok (db\<lparr>connectors := rows\<rparr>)"
      using inv ok by (simp add: db_inv_def schema_ok_def)
    show "(\<exists>p \<in> set (pairings db). same_parties p q) \<or> pairing_fresh q \<or>
        pairing_grounded (db\<lparr>connectors := rows\<rparr>) q" if "q \<in> set (pairings (db\<lparr>connectors := rows\<rparr>))" for q
      using that by (simp add: parties_kept)
    show "(\<exists>t \<in> set (trusts db). revocations_kept db (db\<lparr>connectors := rows\<rparr>) t t') \<or>
        trust_grounded (db\<lparr>connectors := rows\<rparr>) t'" if "t' \<in> set (trusts (db\<lparr>connectors := rows\<rparr>))" for t'
      using inv that revocations_kept_same[of db "db\<lparr>connectors := rows\<rparr>" t'] by (auto simp: db_inv_def)
  qed
  then show ?thesis using step by (simp add: good_step_def)
qed

text \<open>Devices, with the trusts: a revocation writes both.\<close>

lemma good_devices:
  assumes inv: "db_inv db" and ok: "rows_ok device_clash device_valid rows"
    and ev: "evolves device_le device_fresh (devices db) rows"
    and live: "\<And>d d'. d \<in> set (devices db) \<Longrightarrow> d' \<in> set rows \<Longrightarrow> device_le d d' \<Longrightarrow>
      d_RevokedAt d = None \<Longrightarrow> d_RevokedAt d' = None"
  shows "good_step now db (db\<lparr>devices := rows\<rparr>)"
proof -
  have step: "db_step now db (db\<lparr>devices := rows\<rparr>)"
    using ev by (simp add: db_step_def evolves_refl)
  have "db_inv (db\<lparr>devices := rows\<rparr>)"
  proof (rule db_inv_step[OF inv _ step])
    show "schema_ok (db\<lparr>devices := rows\<rparr>)"
      using inv ok by (simp add: db_inv_def schema_ok_def)
    show "(\<exists>p \<in> set (pairings db). same_parties p q) \<or> pairing_fresh q \<or>
        pairing_grounded (db\<lparr>devices := rows\<rparr>) q" if "q \<in> set (pairings (db\<lparr>devices := rows\<rparr>))" for q
      using that by (simp add: parties_kept)
    show "(\<exists>t \<in> set (trusts db). revocations_kept db (db\<lparr>devices := rows\<rparr>) t t') \<or>
        trust_grounded (db\<lparr>devices := rows\<rparr>) t'" if "t' \<in> set (trusts (db\<lparr>devices := rows\<rparr>))" for t'
    proof -
      have "revocations_kept db (db\<lparr>devices := rows\<rparr>) t' t'"
        using live by (auto simp: revocations_kept_def)
      then show ?thesis using that by auto
    qed
  qed
  then show ?thesis using step by (simp add: good_step_def)
qed

lemma good_trusts:
  assumes inv: "db_inv db" and ok: "rows_ok trust_clash (\<lambda>_. True) rows"
    and ev: "evolves trust_le (\<lambda>_. True) (trusts db) rows"
    and kept: "\<And>t'. t' \<in> set rows \<Longrightarrow> trust_grounded db t'"
  shows "good_step now db (db\<lparr>trusts := rows\<rparr>)"
  using assms by (simp add: plain_defs evolves_refl)

section \<open>Statements\<close>

text \<open>Each statement of the store, as a step: what it must be given for the database to stay good.\<close>

lemma good_create_challenge:
  "create_row challenge_clash challenge_valid refs c (challenges db) = Inr rows \<Longrightarrow> db_inv db \<Longrightarrow>
   challenge_fresh c \<Longrightarrow> good_step now db (db\<lparr>challenges := rows\<rparr>)"
  by (rule good_challenges)
    (auto intro: challenge_table.wf_create challenge_table.evolves_create dest: db_invD)

lemma good_save_challenge:
  "save_row ch_Hash challenge_clash challenge_valid refs c' (challenges db) = Inr rows \<Longrightarrow> db_inv db \<Longrightarrow>
   c \<in> set (challenges db) \<Longrightarrow> ch_Hash c' = ch_Hash c \<Longrightarrow> challenge_le c c' \<Longrightarrow>
   good_step now db (db\<lparr>challenges := rows\<rparr>)"
  by (rule good_challenges)
    (auto intro: challenge_table.wf_save challenge_table.evolves_save dest: db_invD)

lemma good_create_ticket:
  "create_row relay_ticket_clash relay_ticket_valid refs t (relay_tickets db) = Inr rows \<Longrightarrow> db_inv db \<Longrightarrow>
   ticket_fresh t \<Longrightarrow> good_step now db (db\<lparr>relay_tickets := rows\<rparr>)"
  by (rule good_relay_tickets)
    (auto intro: relay_ticket_table.wf_create relay_ticket_table.evolves_create dest: db_invD)

lemma good_save_ticket:
  "save_row rt_TokenHash relay_ticket_clash relay_ticket_valid refs t' (relay_tickets db) = Inr rows \<Longrightarrow>
   db_inv db \<Longrightarrow>
   t \<in> set (relay_tickets db) \<Longrightarrow> rt_TokenHash t' = rt_TokenHash t \<Longrightarrow> ticket_le t t' \<Longrightarrow>
   good_step now db (db\<lparr>relay_tickets := rows\<rparr>)"
  by (rule good_relay_tickets)
    (auto intro: relay_ticket_table.wf_save relay_ticket_table.evolves_save dest: db_invD)

lemma good_create_connector:
  "create_row connector_clash connector_valid refs c (connectors db) = Inr rows \<Longrightarrow> db_inv db \<Longrightarrow>
   connector_fresh c \<Longrightarrow> good_step now db (db\<lparr>connectors := rows\<rparr>)"
  by (rule good_connectors)
    (auto intro: connector_table.wf_create connector_table.evolves_create dest: db_invD)

lemma good_save_connector:
  "save_row c_ID connector_clash connector_valid refs c' (connectors db) = Inr rows \<Longrightarrow> db_inv db \<Longrightarrow>
   c \<in> set (connectors db) \<Longrightarrow> connector_le c c' \<Longrightarrow> good_step now db (db\<lparr>connectors := rows\<rparr>)"
  by (rule good_connectors)
    (auto intro: connector_table.wf_save connector_table.evolves_save dest: db_invD simp: connector_le_def)

lemma good_create_device:
  assumes run: "create_row device_clash device_valid refs d (devices db) = Inr rows" and inv: "db_inv db"
    and "device_fresh d"
  shows "good_step now db (db\<lparr>devices := rows\<rparr>)"
proof (rule good_devices[OF inv])
  show "rows_ok device_clash device_valid rows"
    using inv run by (auto intro: device_table.wf_create dest: db_invD)
  show "evolves device_le device_fresh (devices db) rows"
    using assms by (auto intro: device_table.evolves_create)
  show "d_RevokedAt y = None"
    if "x \<in> set (devices db)" "y \<in> set rows" "device_le x y" "d_RevokedAt x = None" for x y
    using that assms(3) run device_table.wf_key[OF db_invD(3)[OF inv] that(1), of y]
    by (auto simp: create_row_Inr device_fresh_def device_le_def)
qed

lemma good_save_device:
  assumes run: "save_row d_ID device_clash device_valid refs d' (devices db) = Inr rows" and inv: "db_inv db"
    and d: "d \<in> set (devices db)" and le: "device_le d d'" and same: "d_RevokedAt d' = d_RevokedAt d"
  shows "good_step now db (db\<lparr>devices := rows\<rparr>)"
proof (rule good_devices[OF inv])
  note ok = db_invD(3)[OF inv]
  show "rows_ok device_clash device_valid rows"
    using inv run by (auto intro: device_table.wf_save dest: db_invD)
  show "evolves device_le device_fresh (devices db) rows"
    by (rule device_table.evolves_save[OF ok d run]) (use le in \<open>auto simp: device_le_def\<close>)
  show "d_RevokedAt y = None"
    if x: "x \<in> set (devices db)" and y: "y \<in> set rows" "device_le x y" "d_RevokedAt x = None" for x y
  proof -
    have "y = d' \<or> y \<in> set (devices db)"
      using y(1) run by (auto simp: save_row_Inr set_replace_row)
    moreover have "x = d" if "y = d'"
      using device_table.wf_key[OF ok x d] that y(2) le by (simp add: device_le_def)
    moreover have "x = y" if "y \<in> set (devices db)"
      using device_table.wf_key[OF ok x that] y(2) by (simp add: device_le_def)
    ultimately show ?thesis using y(3) same by auto
  qed
qed

lemma good_create_pairing:
  "create_row pairing_clash pairing_valid refs p (pairings db) = Inr rows \<Longrightarrow> db_inv db \<Longrightarrow>
   pairing_fresh p \<Longrightarrow> good_step now db (db\<lparr>pairings := rows\<rparr>)"
  by (rule good_pairings)
    (auto intro: pairing_table.wf_create pairing_table.evolves_create parties_kept dest: db_invD
      simp: create_row_Inr)

lemma good_save_pairing:
  assumes run: "save_row p_ID pairing_clash pairing_valid refs p' (pairings db) = Inr rows" and inv: "db_inv db"
    and p: "p \<in> set (pairings db)" and "p_ID p' = p_ID p" and "pairing_step now p p'"
    and "same_parties p p' \<or> pairing_grounded db p'"
  shows "good_step now db (db\<lparr>pairings := rows\<rparr>)"
proof (rule good_pairings[OF inv])
  show "rows_ok pairing_clash pairing_valid rows"
    using inv run by (auto intro: pairing_table.wf_save dest: db_invD)
  show "evolves (pairing_step now)\<^sup>*\<^sup>* pairing_fresh (pairings db) rows"
    by (rule pairing_table.evolves_save[OF db_invD(2)[OF inv] p run]) (use assms in auto)
  show "(\<exists>p \<in> set (pairings db). same_parties p q) \<or> pairing_fresh q \<or> pairing_grounded db q"
    if "q \<in> set rows" for q
    using that run p assms(6) parties_kept[of q "pairings db"] by (auto simp: save_row_Inr set_replace_row)
qed

lemma expire_step: "pairing_step now p (expire_pairing_for_key key now p)"
  by (auto simp: expire_pairing_for_key_def intro: pairing_step.intros)

lemma good_expire_pairings:
  assumes inv: "db_inv db"
  shows "good_step now db (db\<lparr>pairings := map (expire_pairing_for_key key now) (pairings db)\<rparr>)"
proof (rule good_pairings[OF inv])
  show "rows_ok pairing_clash pairing_valid (map (expire_pairing_for_key key now) (pairings db))"
    by (rule rows_ok_expire[OF db_invD(2)[OF inv]])
  show "evolves (pairing_step now)\<^sup>*\<^sup>* pairing_fresh (pairings db)
      (map (expire_pairing_for_key key now) (pairings db))"
    by (rule evolves_map) (simp add: expire_step r_into_rtranclp)
  have "same_parties p (expire_pairing_for_key key now p)" for p
    by (simp add: same_parties_def expire_pairing_for_key_def)
  then show "(\<exists>p \<in> set (pairings db). same_parties p q) \<or> pairing_fresh q \<or> pairing_grounded db q"
    if "q \<in> set (map (expire_pairing_for_key key now) (pairings db))" for q
    using that by auto
qed

lemma good_upsert_trust:
  assumes inv: "db_inv db" and d: "d \<in> set (devices db)" "d_ID d = t_DeviceID v" "d_UserID d = t_UserID v"
      "d_RevokedAt d = None"
    and c: "c \<in> set (connectors db)" "c_ID c = t_ConnectorID v" "c_UserID c = t_UserID v"
    and run: "(if \<exists>t \<in> set (trusts db). trust_key t = trust_key v then
             Inr (map (\<lambda>t. if trust_key t = trust_key v
                            then t\<lparr>t_CreatedAt := t_CreatedAt v, t_RevokedAt := None\<rparr> else t) (trusts db))
           else create_row trust_clash (\<lambda>_. True) refs v (trusts db)) = Inr rows"
  shows "good_step now db (db\<lparr>trusts := rows\<rparr>)"
proof (rule good_trusts[OF inv])
  let ?f = "\<lambda>t. if trust_key t = trust_key v then t\<lparr>t_CreatedAt := t_CreatedAt v, t_RevokedAt := None\<rparr> else t"
  have key: "trust_key (?f t) = trust_key t" for t by (simp add: trust_key_def)
  have "rows = map ?f (trusts db) \<or> create_row trust_clash (\<lambda>_. True) refs v (trusts db) = Inr rows"
    using run by (cases "\<exists>t \<in> set (trusts db). trust_key t = trust_key v") (simp_all only: if_True if_False sum.inject, blast+)
  then consider (old) "rows = map ?f (trusts db)"
    | (new) "create_row trust_clash (\<lambda>_. True) refs v (trusts db) = Inr rows"
    by blast
  note cases = this
  show "rows_ok trust_clash (\<lambda>_. True) rows"
    using cases
  proof cases
    case old
    then show ?thesis using rows_ok_trusts[OF db_invD(5)[OF inv], of ?f] key by simp
  next
    case new
    then show ?thesis using db_invD(5)[OF inv] by (rule trust_table.wf_create[rotated])
  qed
  show "evolves trust_le (\<lambda>_. True) (trusts db) rows"
    using cases
  proof cases
    case old
    show ?thesis unfolding old by (rule evolves_map) (simp only: trust_le_def key)
  next
    case new
    then show ?thesis by (rule trust_table.evolves_create) simp_all
  qed
  have v: "trust_grounded db t" if "trust_key t = trust_key v" for t
    using that d c unfolding trust_grounded_def trust_key_def by auto
  show "trust_grounded db t" if "t \<in> set rows" for t
    using cases
  proof cases
    case old
    then obtain q where q: "q \<in> set (trusts db)" "t = ?f q" using \<open>t \<in> set rows\<close> by auto
    show ?thesis
    proof (cases "trust_key q = trust_key v")
      case True
      then show ?thesis using q key[of q] by (intro v) simp
    next
      case False
      then show ?thesis using q inv by (simp add: db_inv_def)
    qed
  next
    case new
    then show ?thesis using \<open>t \<in> set rows\<close> inv v by (auto simp: create_row_Inr db_inv_def)
  qed
qed

lemma good_revoke_device:
  assumes inv: "db_inv db" and d: "d \<in> set (devices db)" and le: "device_le d d'"
    and run: "save_row d_ID device_clash device_valid refs d' (devices db) = Inr rows"
  shows "good_step now db (db\<lparr>devices := rows,
    trusts := map (\<lambda>t. if t_UserID t = d_UserID d \<and> t_DeviceID t = d_ID d \<and> t_RevokedAt t = None
      then t\<lparr>t_RevokedAt := Some now\<rparr> else t) (trusts db)\<rparr>)" (is "good_step now db ?db'")
proof -
  let ?f = "\<lambda>t. if t_UserID t = d_UserID d \<and> t_DeviceID t = d_ID d \<and> t_RevokedAt t = None
      then t\<lparr>t_RevokedAt := Some now\<rparr> else t"
  have key: "trust_key (?f t) = trust_key t" for t by (simp add: trust_key_def)
  have ev: "evolves device_le device_fresh (devices db) rows"
    by (rule device_table.evolves_save[OF db_invD(3)[OF inv] d run]) (use le in \<open>auto simp: device_le_def\<close>)
  have step: "db_step now db ?db'"
    using ev key by (auto simp: db_step_def trust_le_def intro: evolves_refl evolves_map)
  have "db_inv ?db'"
  proof (rule db_inv_step[OF inv _ step])
    show "schema_ok ?db'"
      using db_invD[OF inv] device_table.wf_save[OF _ run] rows_ok_trusts[of "trusts db" ?f] key
      by (simp add: schema_ok_def)
    show "(\<exists>p \<in> set (pairings db). same_parties p q) \<or> pairing_fresh q \<or> pairing_grounded ?db' q"
      if "q \<in> set (pairings ?db')" for q
      using that by (simp add: parties_kept)
    show "(\<exists>t \<in> set (trusts db). revocations_kept db ?db' t t') \<or> trust_grounded ?db' t'"
      if t': "t' \<in> set (trusts ?db')" for t'
    proof -
      obtain t where t: "t \<in> set (trusts db)" "t' = ?f t" using t' by auto
      have "d_RevokedAt y = None"
        if live: "trust_live t'" and x: "x \<in> set (devices db)" "d_ID x = t_DeviceID t" "d_RevokedAt x = None"
          and y: "y \<in> set rows" "device_le x y" for x y
      proof -
        have "trust_grounded db t" using inv t by (simp add: db_inv_def)
        then obtain z where z: "z \<in> set (devices db)" "d_ID z = t_DeviceID t" "d_UserID z = t_UserID t"
          by (auto simp: trust_grounded_def)
        have "z = x" using device_table.wf_key[OF db_invD(3)[OF inv] z(1) x(1)] z x by simp
        moreover have "\<not> (t_UserID t = d_UserID d \<and> t_DeviceID t = d_ID d)"
          using t live by (auto simp: trust_live_def split: if_splits)
        ultimately have "x \<noteq> d" using z by auto
        then have "d_ID y \<noteq> d_ID d'"
          using device_table.wf_key[OF db_invD(3)[OF inv] x(1) d] y le by (auto simp: device_le_def)
        then have "y \<in> set (devices db)"
          using y(1) run by (auto simp: save_row_Inr set_replace_row)
        then have "y = x" using device_table.wf_key[OF db_invD(3)[OF inv] _ x(1)] y by (simp add: device_le_def)
        then show ?thesis using x by simp
      qed
      then have "revocations_kept db ?db' t t'"
        using t key[of t] by (auto simp: revocations_kept_def trust_live_def)
      then show ?thesis using t by blast
    qed
  qed
  then show ?thesis using step by (simp add: good_step_def)
qed

lemma good_then: "good_step now a b \<Longrightarrow> (db_inv b \<Longrightarrow> good_step now b c) \<Longrightarrow> good_step now a c"
  using good_trans good_step_def by blast


section \<open>Statements in a run\<close>

text \<open>
  A statement that succeeds carries a good run one step further.  The rules are used backwards, from the
  last statement of an operation to its first.
\<close>

lemma CreateChallenge_step:
  "CreateChallenge c w = (Inr u, w') \<Longrightarrow> good_step now db (w_db w) \<Longrightarrow> challenge_fresh c \<Longrightarrow>
   good_step now db (w_db w')"
  by (erule good_then) (auto simp: CreateChallenge_def runs intro: good_create_challenge)

lemma SaveChallenge_step:
  "SaveChallenge c' w = (Inr u, w') \<Longrightarrow> good_step now db (w_db w) \<Longrightarrow> c \<in> set (challenges (w_db w)) \<Longrightarrow>
   ch_Hash c' = ch_Hash c \<Longrightarrow> challenge_le c c' \<Longrightarrow> good_step now db (w_db w')"
  by (erule good_then) (auto simp: SaveChallenge_def runs intro: good_save_challenge)

lemma CreatePairing_step:
  "CreatePairing p w = (Inr u, w') \<Longrightarrow> good_step now db (w_db w) \<Longrightarrow> pairing_fresh p \<Longrightarrow>
   good_step now db (w_db w')"
  by (erule good_then) (auto simp: CreatePairing_def runs intro: good_create_pairing)

lemma ExpirePairingsForKey_step:
  "ExpirePairingsForKey key now w = (Inr u, w') \<Longrightarrow> good_step now db (w_db w) \<Longrightarrow>
   good_step now db (w_db w')"
  by (erule good_then) (auto simp: ExpirePairingsForKey_def runs intro: good_expire_pairings)

lemma SavePairing_step:
  "SavePairing p' w = (Inr u, w') \<Longrightarrow> good_step now db (w_db w) \<Longrightarrow> p \<in> set (pairings (w_db w)) \<Longrightarrow>
   p_ID p' = p_ID p \<Longrightarrow> pairing_step now p p' \<Longrightarrow> same_parties p p' \<or> pairing_grounded (w_db w) p' \<Longrightarrow>
   good_step now db (w_db w')"
  by (erule good_then) (auto simp: SavePairing_def runs intro: good_save_pairing)

lemma CreateDevice_step:
  "CreateDevice d w = (Inr u, w') \<Longrightarrow> good_step now db (w_db w) \<Longrightarrow> device_fresh d \<Longrightarrow>
   good_step now db (w_db w')"
  by (erule good_then) (auto simp: CreateDevice_def runs intro: good_create_device)

lemma SaveDevice_step:
  "SaveDevice d' w = (Inr u, w') \<Longrightarrow> good_step now db (w_db w) \<Longrightarrow> d \<in> set (devices (w_db w)) \<Longrightarrow>
   device_le d d' \<Longrightarrow> d_RevokedAt d' = d_RevokedAt d \<Longrightarrow> good_step now db (w_db w')"
  by (erule good_then) (auto simp: SaveDevice_def runs intro: good_save_device)

lemma CreateConnector_step:
  "CreateConnector c w = (Inr u, w') \<Longrightarrow> good_step now db (w_db w) \<Longrightarrow> connector_fresh c \<Longrightarrow>
   good_step now db (w_db w')"
  by (erule good_then) (auto simp: CreateConnector_def runs intro: good_create_connector)

lemma SaveConnector_step:
  "SaveConnector c' w = (Inr u, w') \<Longrightarrow> good_step now db (w_db w) \<Longrightarrow> c \<in> set (connectors (w_db w)) \<Longrightarrow>
   connector_le c c' \<Longrightarrow> good_step now db (w_db w')"
  by (erule good_then) (auto simp: SaveConnector_def runs intro: good_save_connector)

lemma UpsertTrust_step:
  assumes "UpsertTrust v w = (Inr u, w')" and "good_step now db (w_db w)"
    and "d \<in> set (devices (w_db w))" "d_ID d = t_DeviceID v" "d_UserID d = t_UserID v" "d_RevokedAt d = None"
    and "c \<in> set (connectors (w_db w))" "c_ID c = t_ConnectorID v" "c_UserID c = t_UserID v"
  shows "good_step now db (w_db w')"
proof (rule good_then[OF assms(2)])
  assume inv: "db_inv (w_db w)"
  show "good_step now (w_db w) (w_db w')"
    using assms(1) good_upsert_trust[OF inv assms(3-9)] by (auto simp: UpsertTrust_def runs)
qed

lemma CreateRelayTicket_step:
  "CreateRelayTicket t w = (Inr u, w') \<Longrightarrow> good_step now db (w_db w) \<Longrightarrow> ticket_fresh t \<Longrightarrow>
   good_step now db (w_db w')"
  by (erule good_then) (auto simp: CreateRelayTicket_def runs intro: good_create_ticket)

lemma SaveRelayTicket_step:
  "SaveRelayTicket t' w = (Inr u, w') \<Longrightarrow> good_step now db (w_db w) \<Longrightarrow> t \<in> set (relay_tickets (w_db w)) \<Longrightarrow>
   rt_TokenHash t' = rt_TokenHash t \<Longrightarrow> ticket_le t t' \<Longrightarrow> good_step now db (w_db w')"
  by (erule good_then) (auto simp: SaveRelayTicket_def runs intro: good_save_ticket)

lemma RecordClaimFailure_step:
  "RecordClaimFailure userID now purge w = (Inr u, w') \<Longrightarrow> good_step now db (w_db w) \<Longrightarrow>
   good_step now db (w_db w')"
  by (erule good_then) (auto simp: RecordClaimFailure_def runs intro: good_claim_failures split: if_splits)

lemma AppendAuditEvent_step:
  "AppendAuditEvent e w = (Inr u, w') \<Longrightarrow> good_step now db (w_db w) \<Longrightarrow> good_step now db (w_db w')"
  by (erule good_then) (auto simp: AppendAuditEvent_def runs intro: good_audit_events)

text \<open>What a statement leaves alone.\<close>

lemma frame_CreateDevice:
  assumes "CreateDevice d w = (Inr u, w')"
  shows "pairings (w_db w') = pairings (w_db w)" and "d \<in> set (devices (w_db w'))"
  using assms by (auto simp: write_defs runs create_row_Inr save_row_Inr replace_row_in split: if_splits)

lemma frame_CreateConnector:
  assumes "CreateConnector c w = (Inr u, w')"
  shows "pairings (w_db w') = pairings (w_db w)" and "devices (w_db w') = devices (w_db w)" and "c \<in> set (connectors (w_db w'))"
  using assms by (auto simp: write_defs runs create_row_Inr save_row_Inr replace_row_in split: if_splits)

lemma frame_SaveDevice:
  assumes "SaveDevice d w = (Inr u, w')"
  shows "pairings (w_db w') = pairings (w_db w)" and "connectors (w_db w') = connectors (w_db w)" and "d \<in> set (devices (w_db w'))"
  using assms by (auto simp: write_defs runs create_row_Inr save_row_Inr replace_row_in split: if_splits)

lemma frame_UpsertTrust:
  assumes "UpsertTrust t w = (Inr u, w')"
  shows "pairings (w_db w') = pairings (w_db w)" and "devices (w_db w') = devices (w_db w)" and "connectors (w_db w') = connectors (w_db w)"
  using assms by (auto simp: write_defs runs create_row_Inr save_row_Inr replace_row_in split: if_splits)

lemma frame_SaveConnector:
  assumes "SaveConnector c w = (Inr u, w')"
  shows "pairings (w_db w') = pairings (w_db w)" and "devices (w_db w') = devices (w_db w)" and "c \<in> set (connectors (w_db w'))"
  using assms by (auto simp: write_defs runs create_row_Inr save_row_Inr replace_row_in split: if_splits)

lemma frame_SaveRelayTicket:
  assumes "SaveRelayTicket t w = (Inr u, w')"
  shows "devices (w_db w') = devices (w_db w)" and "connectors (w_db w') = connectors (w_db w)"
  using assms by (auto simp: write_defs runs create_row_Inr save_row_Inr replace_row_in split: if_splits)

lemmas frames = frame_CreateDevice frame_CreateConnector frame_SaveDevice frame_UpsertTrust frame_SaveConnector frame_SaveRelayTicket

section \<open>Pairing operations\<close>

lemma IssueChallenge_step:
  assumes inv: "db_inv (w_db w)" and run: "IssueChallenge svc now purpose userID w = (Inr r, w')"
  shows "good_step now (w_db w) (w_db w')"
proof -
  have "CreateChallenge \<lparr> ch_Hash = hashSecret svc (cr_Challenge r), ch_Purpose = purpose, ch_UserID = userID,
      ch_CreatedAt = now, ch_ExpiresAt = now + challengeLifetime svc, ch_UsedAt = None \<rparr>
      (w\<lparr>w_random := drop 32 (w_random w)\<rparr>) = (Inr (), w')"
    using run by (auto simp: IssueChallenge_def runs)
  then show ?thesis by (rule CreateChallenge_step) (simp_all add: good_refl inv challenge_fresh_def)
qed

lemma begin_step:
  assumes inv: "db_inv (w_db w)" and fresh: "pairing_fresh p"
   and run: "begin_pairing_transaction svc now input p w = (Inr u, w')"
  shows "good_step now (w_db w) (w_db w')"
proof -
  obtain c w1 w2 where c: "c \<in> set (challenges (w_db w))" "ch_UsedAt c = None"
    and 1: "SaveChallenge (c\<lparr>ch_UsedAt := Some now\<rparr>) w = (Inr (), w1)"
    and 2: "ExpirePairingsForKey (i_KeyID (bi_Identity input)) now w1 = (Inr (), w2)"
    and 3: "CreatePairing p w2 = (Inr (), w')"
    using run by (auto simp: begin_pairing_transaction_def runs find_defs dest!: first_rowD)
  show ?thesis
    using c by (intro CreatePairing_step[OF 3] ExpirePairingsForKey_step[OF 2] SaveChallenge_step[OF 1] fresh
      good_refl[OF inv]) (auto simp: challenge_le_def)
qed


lemma checkClaimFailures_state: "checkClaimFailures svc userID now w = (Inr u, w') \<Longrightarrow> w' = w"
  by (auto simp: checkClaimFailures_def runs find_defs)

lemma find_state:
  "PairingByCodeForUpdate h w = (r, w') \<Longrightarrow> w' = w"
  "DeviceByKeyIDForUpdate k w = (r', w') \<Longrightarrow> w' = w"
  "ConnectorByKeyIDForUpdate k w = (r'', w') \<Longrightarrow> w' = w"
  by (auto simp: find_defs query_def split: sum.splits)

lemma claim_device_cases:
  assumes "claim_device now input name w = (Inr d, w')"
  obtains (old) "d \<in> set (devices (w_db w))" "i_KeyID (d_Identity d) = i_KeyID (ci_Identity input)"
      "i_PublicKey (d_Identity d) = i_PublicKey (ci_Identity input)"
      "d_UserID d = ci_UserID input" "d_RevokedAt d = None" "w' = w"
    | (new) "device_fresh d" "d_UserID d = ci_UserID input" "d_Identity d = ci_Identity input"
      "CreateDevice d (w\<lparr>w_random := drop 18 (w_random w)\<rparr>) = (Inr (), w')"
  using assms
  by (simp add: claim_device_def runs, elim exE conjE disjE;
      clarsimp simp: DeviceByKeyIDForUpdate_def runs device_fresh_def dest!: first_rowD)

lemma claim_device_step:
  assumes "claim_device now input name w = (Inr d, w')" and g: "good_step now db (w_db w)"
  shows "good_step now db (w_db w')" and "d \<in> set (devices (w_db w'))" and "d_UserID d = ci_UserID input"
    and "pairings (w_db w') = pairings (w_db w)"
proof -
  have "good_step now db (w_db w') \<and> d \<in> set (devices (w_db w')) \<and> d_UserID d = ci_UserID input \<and>
      pairings (w_db w') = pairings (w_db w)"
    using assms(1)
  proof (cases rule: claim_device_cases)
    case new
    then show ?thesis using g CreateDevice_step[OF new(4)] frame_CreateDevice[OF new(4)] by simp
  qed (simp add: g)
  then show "good_step now db (w_db w')" and "d \<in> set (devices (w_db w'))" and "d_UserID d = ci_UserID input"
    and "pairings (w_db w') = pairings (w_db w)" by simp_all
qed

lemma claim_found_step:
  assumes run: "claim_found svc now input name p w = (Inr out, w')" and g: "good_step now db (w_db w)"
    and p: "p \<in> set (pairings (w_db w))"
  shows "good_step now db (w_db w')"
proof (cases "p_ExpiresAt p \<le> now")
  case True
  then have "SavePairing (p\<lparr>p_State := PairingStateExpired\<rparr>) w = (Inr (), w')"
    using run by (simp add: claim_found_def runs expired_at_def)
  then show ?thesis
    by (rule SavePairing_step[OF _ g p]) (use True in \<open>auto intro: pairing_step.over simp: same_parties_def\<close>)
next
  case False
  then have state: "p_State p = PairingStatePending"
    using run by (auto simp: claim_found_def runs expired_at_def)
  let ?p = "\<lambda>d. p\<lparr>p_State := PairingStateVerification, p_UserID := Some (ci_UserID input),
        p_DeviceID := Some (d_ID d)\<rparr>"
  obtain d w2 w3 e where dev: "claim_device now input name w = (Inr d, w2)"
    and save: "SavePairing (?p d) w2 = (Inr (), w3)" and audit: "AppendAuditEvent e w3 = (Inr (), w')"
    using run False state by (auto simp: claim_found_def runs expired_at_def)
  note d = claim_device_step[OF dev g]
  have p2: "p \<in> set (pairings (w_db w2))" using p d(4) by simp
  have "p_ConnectorID p = None"
    using d(1) p2 state by (auto simp: good_step_def db_inv_def pairing_bound_def)
  then have "pairing_grounded (w_db w2) (?p d)"
    using d by (auto simp: pairing_grounded_def)
  moreover have "pairing_step now p (?p d)"
    using False state by (intro pairing_step.claim) auto
  ultimately have "good_step now db (w_db w3)"
    by (intro SavePairing_step[OF save d(1) p2]) auto
  then show ?thesis by (rule AppendAuditEvent_step[OF audit])
qed

lemma claim_step:
  assumes inv: "db_inv (w_db w)"
   and run: "claim_transaction svc now input name code w = (Inr out, w')"
  shows "good_step now (w_db w) (w_db w')"
proof -
  obtain c w1 where c: "c \<in> set (challenges (w_db w))" "ch_UsedAt c = None"
    and save: "SaveChallenge (c\<lparr>ch_UsedAt := Some now\<rparr>) w = (Inr (), w1)"
    and guess: "claim_guess svc now input name code w1 = (Inr out, w')"
    using run by (auto simp: claim_transaction_def runs ChallengeForUpdate_def
      dest!: first_rowD checkClaimFailures_state)
  have g1: "good_step now (w_db w) (w_db w1)"
    using c by (intro SaveChallenge_step[OF save] good_refl[OF inv]) (auto simp: challenge_le_def)
  consider (wrong) "RecordClaimFailure (ci_UserID input) now (now - accountClaimFailureWindow svc) w1 = (Inr (), w')"
    | (found) p where "p \<in> set (pairings (w_db w1))" "claim_found svc now input name p w1 = (Inr out, w')"
    using guess
    by (simp add: claim_guess_def runs, elim exE conjE disjE;
        clarsimp simp: PairingByCodeForUpdate_def runs dest!: first_rowD)
  then show ?thesis
    by cases (auto intro: RecordClaimFailure_step[OF _ g1] claim_found_step[OF _ g1])
qed

lemma confirm_connector_cases:
  assumes "confirm_connector now userID p w = (Inr c, w')"
  obtains (old) "c \<in> set (connectors (w_db w))" "i_KeyID (c_Identity c) = i_KeyID (p_ConnectorIdentity p)"
      "i_PublicKey (c_Identity c) = i_PublicKey (p_ConnectorIdentity p)"
      "c_UserID c = userID" "c_RevokedAt c = None" "w' = w"
    | (new) "connector_fresh c" "c_UserID c = userID" "c_Identity c = p_ConnectorIdentity p"
      "CreateConnector c (w\<lparr>w_random := drop 18 (w_random w)\<rparr>) = (Inr (), w')"
  using assms
  by (simp add: confirm_connector_def runs, elim exE conjE disjE;
      clarsimp simp: ConnectorByKeyIDForUpdate_def runs connector_fresh_def dest!: first_rowD)

lemma confirm_connector_step:
  assumes "confirm_connector now userID p w = (Inr c, w')" and g: "good_step now db (w_db w)"
  shows "good_step now db (w_db w')" and "c \<in> set (connectors (w_db w'))" and "c_UserID c = userID"
    and "c_RevokedAt c = None" and "i_KeyID (c_Identity c) = i_KeyID (p_ConnectorIdentity p)"
    and "pairings (w_db w') = pairings (w_db w)" and "devices (w_db w') = devices (w_db w)"
proof -
  have "good_step now db (w_db w') \<and> c \<in> set (connectors (w_db w')) \<and> c_UserID c = userID \<and>
      c_RevokedAt c = None \<and> i_KeyID (c_Identity c) = i_KeyID (p_ConnectorIdentity p) \<and>
      pairings (w_db w') = pairings (w_db w) \<and> devices (w_db w') = devices (w_db w)"
    using assms(1)
  proof (cases rule: confirm_connector_cases)
    case new
    then show ?thesis using g CreateConnector_step[OF new(4)] frame_CreateConnector[OF new(4)]
      by (simp add: connector_fresh_def)
  qed (simp add: g)
  then show "good_step now db (w_db w')" and "c \<in> set (connectors (w_db w'))" and "c_UserID c = userID"
    and "c_RevokedAt c = None" and "i_KeyID (c_Identity c) = i_KeyID (p_ConnectorIdentity p)"
    and "pairings (w_db w') = pairings (w_db w)" and "devices (w_db w') = devices (w_db w)" by simp_all
qed

lemma pairing_groundedI:
  assumes "d \<in> set (devices db)" "p_DeviceID p = Some (d_ID d)" "p_UserID p = Some (d_UserID d)"
    and "c \<in> set (connectors db)" "p_ConnectorID p = Some (c_ID c)" "c_UserID c = d_UserID d"
      "i_KeyID (c_Identity c) = i_KeyID (p_ConnectorIdentity p)"
  shows "pairing_grounded db p"
  using assms by (auto simp: pairing_grounded_def)

lemma complete_pairing_step:
  assumes run: "complete_pairing svc now userID p d c w = (Inr r, w')" and g: "good_step now db (w_db w)"
    and p: "p \<in> set (pairings (w_db w))" "p_State p = PairingStateVerification" "now < p_ExpiresAt p"
      "p_ConnectorReviewedAt p \<noteq> None" "p_UserID p = Some userID" "p_DeviceID p = Some (d_ID d)"
    and d: "d \<in> set (devices (w_db w))" "d_UserID d = userID" "d_RevokedAt d = None"
    and c: "c \<in> set (connectors (w_db w))" "c_UserID c = userID" "c_RevokedAt c = None"
      "i_KeyID (c_Identity c) = i_KeyID (p_ConnectorIdentity p)"
  shows "good_step now db (w_db w')"
proof -
  let ?seed = "take deviceCredentialSeedLength (w_random w)"
  let ?d = "d\<lparr>d_CredentialHash := Some (hashSecret svc (deriveDeviceCredential svc ?seed)),
    d_CredentialExpiresAt := Some (now + deviceCredentialLifetime svc),
    d_ActivatedAt := (if d_ActivatedAt d = None then Some now else d_ActivatedAt d)\<rparr>"
  let ?t = "\<lparr> t_UserID = userID, t_DeviceID = d_ID d, t_ConnectorID = c_ID c, t_CreatedAt = now, t_RevokedAt = None \<rparr>"
  let ?c = "c\<lparr>c_CredentialHash := p_ConnectorCredentialHash p,
    c_CredentialExpiresAt := Some (now + connectorCredentialLifetime svc)\<rparr>"
  let ?p = "p\<lparr>p_DeviceCredentialSeed := Some ?seed, p_State := PairingStateCompleted,
    p_ConnectorID := Some (c_ID c), p_ConfirmedAt := Some now, p_CompletedAt := Some now\<rparr>"
  obtain w2 w3 w4 w5 e where seed: "deviceCredentialSeedLength \<le> length (w_random w)"
    and 1: "SaveDevice ?d (w\<lparr>w_random := drop deviceCredentialSeedLength (w_random w)\<rparr>) = (Inr (), w2)"
    and 2: "UpsertTrust ?t w2 = (Inr (), w3)" and 3: "SaveConnector ?c w3 = (Inr (), w4)"
    and 4: "SavePairing ?p w4 = (Inr (), w5)" and 5: "AppendAuditEvent e w5 = (Inr (), w')"
    using run by (simp add: complete_pairing_def runs) blast
  note fr = frame_SaveDevice[OF 1] frame_UpsertTrust[OF 2] frame_SaveConnector[OF 3]
  have g2: "good_step now db (w_db w2)"
    by (rule SaveDevice_step[OF 1, where d = d]) (use g d in \<open>auto simp: device_le_def\<close>)
  have d2: "?d \<in> set (devices (w_db w2))" "c \<in> set (connectors (w_db w2))"
    using fr c by simp_all
  have g3: "good_step now db (w_db w3)"
    by (rule UpsertTrust_step[OF 2 g2 d2(1) _ _ _ d2(2)]) (use d c in auto)
  have g4: "good_step now db (w_db w4)"
    by (rule SaveConnector_step[OF 3 g3, where c = c]) (use c d2 fr in \<open>auto simp: connector_le_def\<close>)
  have p4: "p \<in> set (pairings (w_db w4))"
    using p fr by simp
  have d4: "?d \<in> set (devices (w_db w4))" and c4: "?c \<in> set (connectors (w_db w4))"
    using d2 fr by simp_all
  have "pairing_grounded (w_db w4) ?p"
    by (rule pairing_groundedI[OF d4 _ _ c4]) (use p d c in simp_all)
  moreover have "pairing_step now p ?p"
    using p seed by (intro pairing_step.complete) auto
  ultimately have "good_step now db (w_db w5)"
    by (intro SavePairing_step[OF 4 g4 p4]) auto
  then show ?thesis by (rule AppendAuditEvent_step[OF 5])
qed

lemma find_runs:
  "PairingByIDForUpdate i w = (Inr p, w') \<longleftrightarrow> first_row p_ID (\<lambda>p. p_ID p = i) (pairings (w_db w)) = Inr p \<and> w' = w"
  "DeviceByIDForUpdate i w = (Inr d, w') \<longleftrightarrow> first_row d_ID (\<lambda>d. d_ID d = i) (devices (w_db w)) = Inr d \<and> w' = w"
  by (auto simp: find_defs runs)

lemma confirm_again_state: "confirm_again svc userID p d w = (Inr r, w') \<Longrightarrow> w' = w"
  by (auto simp: confirm_again_def runs find_defs)

lemma confirm_step:
  assumes inv: "db_inv (w_db w)"
    and run: "confirm_transaction svc now userID pairingID deviceID w = (Inr r, w')"
  shows "good_step now (w_db w) (w_db w')"
proof -
  have "w' = w \<or> (\<exists>p d c w1. p \<in> set (pairings (w_db w)) \<and> now < p_ExpiresAt p \<and> p_UserID p = Some userID \<and>
      p_DeviceID p = Some (d_ID d) \<and> d \<in> set (devices (w_db w)) \<and> d_UserID d = userID \<and> d_RevokedAt d = None \<and>
      p_State p = PairingStateVerification \<and> p_ConnectorReviewedAt p \<noteq> None \<and>
      confirm_connector now userID p w = (Inr c, w1) \<and> complete_pairing svc now userID p d c w1 = (Inr r, w'))"
    using run by (auto simp: confirm_transaction_def runs find_runs expired_at_def
      dest!: first_rowD confirm_again_state)
  then show ?thesis
  proof (elim disjE exE conjE)
    fix p d c w1
    assume pd: "p \<in> set (pairings (w_db w))" "now < p_ExpiresAt p" "p_UserID p = Some userID"
      "p_DeviceID p = Some (d_ID d)" "d \<in> set (devices (w_db w))" "d_UserID d = userID" "d_RevokedAt d = None"
      "p_State p = PairingStateVerification" "p_ConnectorReviewedAt p \<noteq> None"
      and con: "confirm_connector now userID p w = (Inr c, w1)"
      and complete: "complete_pairing svc now userID p d c w1 = (Inr r, w')"
    show ?thesis
      using confirm_connector_step[OF con good_refl[OF inv]] pd
      by (intro complete_pairing_step[OF complete]) simp_all
  qed (simp add: good_refl inv)
qed

lemma poll_completed_state: "poll_completed svc secret p res w = (Inr r, w') \<Longrightarrow> w' = w"
  by (auto simp: poll_completed_def runs find_defs Let_def)

lemma poll_transcript_state: "poll_transcript svc p w = (Inr r, w') \<Longrightarrow> w' = w"
  by (auto simp: poll_transcript_def runs find_defs)

lemma poll_confirmed_step:
  assumes run: "poll_confirmed svc now secret p res w = (Inr r, w')" and g: "good_step now db (w_db w)"
    and p: "p \<in> set (pairings (w_db w))" "p_State p = PairingStateConfirmed" "now < p_ExpiresAt p"
  shows "good_step now db (w_db w')"
proof -
  have "pairing_bound p" using g p(1) by (simp add: good_step_def db_inv_def)
  then show ?thesis using p(2) by (simp add: pairing_bound_def)
qed

lemma poll_step:
  assumes inv: "db_inv (w_db w)" and run: "poll_transaction svc now secret w = (Inr r, w')"
  shows "good_step now (w_db w) (w_db w')"
proof -
  have "w' = w \<or> (\<exists>p. p \<in> set (pairings (w_db w)) \<and>
      (p_State p \<noteq> PairingStateCompleted \<and> p_ExpiresAt p \<le> now \<and>
         SavePairing (p\<lparr>p_State := PairingStateExpired\<rparr>) w = (Inr (), w') \<or>
       p_State p = PairingStateConfirmed \<and> now < p_ExpiresAt p \<and>
         (\<exists>res. poll_confirmed svc now secret p res w = (Inr r, w'))))"
    using run by (auto simp: poll_transaction_def runs PairingBySecretForUpdate_def expired_at_def Let_def
      dest!: first_rowD poll_transcript_state poll_completed_state)
  then show ?thesis
    by (elim disjE exE conjE)
      (auto simp: good_refl inv same_parties_def
        intro: SavePairing_step[OF _ good_refl[OF inv]] pairing_step.over poll_confirmed_step[OF _ good_refl[OF inv]])
qed

lemma approve_step:
  assumes inv: "db_inv (w_db w)"
    and run: "approve_transaction svc now pairingID secret deviceKeyID w = (Inr r, w')"
  shows "good_step now (w_db w) (w_db w')"
proof -
  have "w' = w \<or> (\<exists>p w1 q e. p \<in> set (pairings (w_db w)) \<and> SavePairing q w = (Inr (), w1) \<and>
      (q = p\<lparr>p_State := PairingStateExpired\<rparr> \<and> p_ExpiresAt p \<le> now \<and> w' = w1 \<or>
       q = p\<lparr>p_ConnectorReviewedAt := Some now\<rparr> \<and> p_State p = PairingStateVerification \<and> now < p_ExpiresAt p \<and>
         p_DeviceID p \<noteq> None \<and> p_ConnectorReviewedAt p = None \<and> AppendAuditEvent e w1 = (Inr (), w')))"
    using run by (auto simp: approve_transaction_def runs PairingBySecretForUpdate_def DeviceByIDForUpdate_def
      expired_at_def dest!: first_rowD)
  then show ?thesis
  proof (elim disjE exE conjE)
    fix p w1 q e
    assume p: "p \<in> set (pairings (w_db w))" and save: "SavePairing q w = (Inr (), w1)"
      and q: "q = p\<lparr>p_State := PairingStateExpired\<rparr>" "p_ExpiresAt p \<le> now" "w' = w1"
    show ?thesis unfolding q(3)
      by (rule SavePairing_step[OF save good_refl[OF inv] p])
        (use q in \<open>auto intro: pairing_step.over simp: same_parties_def\<close>)
  next
    fix p w1 q e
    assume p: "p \<in> set (pairings (w_db w))" and save: "SavePairing q w = (Inr (), w1)"
      and q: "q = p\<lparr>p_ConnectorReviewedAt := Some now\<rparr>" "p_State p = PairingStateVerification"
        "now < p_ExpiresAt p" "p_DeviceID p \<noteq> None" "p_ConnectorReviewedAt p = None"
      and audit: "AppendAuditEvent e w1 = (Inr (), w')"
    have "good_step now (w_db w) (w_db w1)"
      by (rule SavePairing_step[OF save good_refl[OF inv] p])
        (use q in \<open>auto intro: pairing_step.approve simp: same_parties_def\<close>)
    then show ?thesis by (rule AppendAuditEvent_step[OF audit])
  qed (simp add: good_refl inv)
qed

lemma cancel_step:
  assumes inv: "db_inv (w_db w)" and run: "cancel_transaction svc now pairingID secret w = (Inr r, w')"
  shows "good_step now (w_db w) (w_db w')"
proof -
  have "w' = w \<or> (\<exists>p w1 e. p \<in> set (pairings (w_db w)) \<and> p_State p \<noteq> PairingStateCompleted \<and>
      SavePairing (p\<lparr>p_State := PairingStateExpired\<rparr>) w = (Inr (), w1) \<and> AppendAuditEvent e w1 = (Inr (), w'))"
    using run by (auto simp: cancel_transaction_def runs PairingBySecretForUpdate_def dest!: first_rowD)
  then show ?thesis
  proof (elim disjE exE conjE)
    fix p w1 e
    assume p: "p \<in> set (pairings (w_db w))" "p_State p \<noteq> PairingStateCompleted"
      and save: "SavePairing (p\<lparr>p_State := PairingStateExpired\<rparr>) w = (Inr (), w1)"
      and audit: "AppendAuditEvent e w1 = (Inr (), w')"
    have "good_step now (w_db w) (w_db w1)"
      by (rule SavePairing_step[OF save good_refl[OF inv] p(1)])
        (use p in \<open>auto intro: pairing_step.over simp: same_parties_def\<close>)
    then show ?thesis by (rule AppendAuditEvent_step[OF audit])
  qed (simp add: good_refl inv)
qed

section \<open>Credential operations\<close>

text \<open>The common tail: one row is saved and an audit event appended.\<close>

lemma device_saved:
  assumes "SaveDevice d' w1 = (Inr (), w2)" and "AppendAuditEvent e w2 = (Inr (), w')"
    and "d \<in> set rows" and "devices (w_db w1) = rows" and "good_step now db (w_db w1)"
    and "device_le d d'" and "d_RevokedAt d' = d_RevokedAt d"
  shows "good_step now db (w_db w')"
  using assms by (intro AppendAuditEvent_step[OF assms(2)] SaveDevice_step[OF assms(1)]) simp_all

lemma connector_saved:
  assumes "SaveConnector c' w1 = (Inr (), w2)" and "AppendAuditEvent e w2 = (Inr (), w')"
    and "c \<in> set rows" and "connectors (w_db w1) = rows" and "good_step now db (w_db w1)"
    and "connector_le c c'"
  shows "good_step now db (w_db w')"
  using assms by (intro AppendAuditEvent_step[OF assms(2)] SaveConnector_step[OF assms(1)]) simp_all

lemma rotate_device_step:
  assumes inv: "db_inv (w_db w)"
    and run: "rotate_device_transaction svc now userID sessionID deviceID credential w = (Inr r, w')"
  shows "good_step now (w_db w) (w_db w')"
  using run
  by (clarsimp simp: rotate_device_transaction_def runs DeviceByCredentialForUpdate_def dest!: first_rowD)
    (erule (2) device_saved; simp add: device_le_def good_refl inv)

lemma activate_device_step:
  assumes inv: "db_inv (w_db w)"
    and run: "activate_device_transaction svc now userID sessionID deviceID credential w = (Inr r, w')"
  shows "good_step now (w_db w) (w_db w')"
  using run
  by (simp add: activate_device_transaction_def runs DeviceByAnyCredentialForUpdate_def, elim exE conjE disjE;
      clarsimp simp: good_refl inv dest!: first_rowD)
    (erule (2) device_saved; simp add: device_le_def good_refl inv)+

lemma cancelPendingDeviceRotation_step:
  assumes "cancelPendingDeviceRotation d now w = (Inr r, w')" and "good_step now db (w_db w)"
    and "d \<in> set (devices (w_db w))" and "d_RevokedAt d = None"
  shows "good_step now db (w_db w')"
  using assms
  by (simp add: cancelPendingDeviceRotation_def runs, elim exE conjE disjE; clarsimp)
    (erule (2) device_saved; simp add: device_le_def)

lemma rotate_connector_step:
  assumes inv: "db_inv (w_db w)"
    and run: "rotate_connector_transaction svc now credential w = (Inr r, w')"
  shows "good_step now (w_db w) (w_db w')"
  using run
  by (clarsimp simp: rotate_connector_transaction_def runs ConnectorByCredentialForUpdate_def dest!: first_rowD)
    (erule (2) connector_saved; simp add: connector_le_def good_refl inv)

lemma activate_connector_step:
  assumes inv: "db_inv (w_db w)"
    and run: "activate_connector_transaction svc now credential w = (Inr r, w')"
  shows "good_step now (w_db w) (w_db w')"
  using run
  by (simp add: activate_connector_transaction_def runs ConnectorByAnyCredentialForUpdate_def, elim exE conjE disjE;
      clarsimp simp: good_refl inv dest!: first_rowD)
    (erule (2) connector_saved; simp add: connector_le_def good_refl inv)+

lemma cancelPendingRotation_step:
  assumes "cancelPendingRotation c now w = (Inr r, w')" and "good_step now db (w_db w)"
    and "c \<in> set (connectors (w_db w))" and "c_RevokedAt c = None"
  shows "good_step now db (w_db w')"
  using assms
  by (simp add: cancelPendingRotation_def runs, elim exE conjE disjE; clarsimp)
    (erule (2) connector_saved; simp add: connector_le_def)

lemma own_connector_state: "own_connector_transaction svc now credential w = (Inr r, w') \<Longrightarrow> w' = w"
  by (auto simp: own_connector_transaction_def runs find_defs)

lemma revoke_connector_step:
  assumes inv: "db_inv (w_db w)" and run: "revoke_connector_transaction svc now credential w = (Inr r, w')"
  shows "good_step now (w_db w) (w_db w')"
  using run
  by (simp add: revoke_connector_transaction_def runs ConnectorByCredentialForUpdate_def Let_def, elim exE conjE disjE;
      clarsimp simp: good_refl inv dest!: first_rowD)
    (erule (2) connector_saved; simp add: connector_le_def good_refl inv)+

lemma revoke_account_connector_step:
  assumes inv: "db_inv (w_db w)"
    and run: "revoke_account_connector_transaction now userID connectorID w = (Inr r, w')"
  shows "good_step now (w_db w) (w_db w')"
  using run
  by (simp add: revoke_account_connector_transaction_def runs ConnectorByIDForUpdate_def, elim exE conjE disjE;
      clarsimp simp: good_refl inv dest!: first_rowD)
    (erule (2) connector_saved; simp add: connector_le_def good_refl inv)+

lemma rename_connector_step:
  assumes inv: "db_inv (w_db w)"
    and run: "rename_connector_transaction now userID connectorID name w = (Inr r, w')"
  shows "good_step now (w_db w) (w_db w')"
  using run
  by (simp add: rename_connector_transaction_def runs ConnectorByIDForUpdate_def, elim exE conjE disjE;
      clarsimp simp: good_refl inv dest!: first_rowD)
    (erule (2) connector_saved; simp add: connector_le_def good_refl inv)+

lemma revoke_account_device_step:
  assumes inv: "db_inv (w_db w)"
    and run: "revoke_account_device_transaction now userID deviceID w = (Inr r, w')"
  shows "good_step now (w_db w) (w_db w')"
proof -
  have "w' = w \<or> (\<exists>d w1 w2 e. d \<in> set (devices (w_db w)) \<and> d_RevokedAt d = None \<and>
      SaveDevice (d\<lparr>d_RevokedAt := Some now, d_PendingCredentialHash := None,
           d_PendingCredentialExpiresAt := None\<rparr>) w = (Inr (), w1) \<and>
      RevokeDeviceTrust (d_UserID d) (d_ID d) now w1 = (Inr (), w2) \<and> AppendAuditEvent e w2 = (Inr (), w'))"
    using run by (auto simp: revoke_account_device_transaction_def runs DeviceByIDForUpdate_def dest!: first_rowD)
  then show ?thesis
  proof (elim disjE exE conjE)
    fix d :: device and w1 w2 e
    let ?d = "d\<lparr>d_RevokedAt := Some now, d_PendingCredentialHash := None, d_PendingCredentialExpiresAt := None\<rparr>"
    assume d: "d \<in> set (devices (w_db w))" "d_RevokedAt d = None"
      and save: "SaveDevice ?d w = (Inr (), w1)"
      and trust: "RevokeDeviceTrust (d_UserID d) (d_ID d) now w1 = (Inr (), w2)"
      and audit: "AppendAuditEvent e w2 = (Inr (), w')"
    have le: "device_le d ?d" using d by (simp add: device_le_def)
    have "good_step now (w_db w) (w_db w2)"
      using save trust good_revoke_device[OF inv d(1) le, where now = now]
      by (auto simp: SaveDevice_def RevokeDeviceTrust_def runs)
    then show ?thesis by (rule AppendAuditEvent_step[OF audit])
  qed (simp add: good_refl inv)
qed

section \<open>Ticket operations\<close>

lemma client_subject_step:
  assumes inv: "db_inv (w_db w)"
    and run: "client_subject now userID credentialID subjectID hash authorizationExpiresAt w = (Inr s, w')"
  shows "good_step now (w_db w) (w_db w')"
  using run
  by (clarsimp simp: client_subject_def runs DeviceByCredentialForUpdate_def Let_def dest!: first_rowD)
    (erule cancelPendingDeviceRotation_step[OF _ good_refl[OF inv]], simp_all)

lemma connector_subject_step:
  assumes inv: "db_inv (w_db w)" and run: "connector_subject now hash w = (Inr s, w')"
  shows "good_step now (w_db w) (w_db w')"
  using run
  by (clarsimp simp: connector_subject_def runs ConnectorByCredentialForUpdate_def Let_def dest!: first_rowD)
    (erule cancelPendingRotation_step[OF _ good_refl[OF inv]], simp_all)

lemma issue_ticket_step:
  assumes run: "issue_ticket_transaction svc now role ticket expiresAt look w = (Inr r, w')"
    and find: "\<And>s w1. look w = (Inr s, w1) \<Longrightarrow> good_step now (w_db w) (w_db w1)"
  shows "good_step now (w_db w) (w_db w')"
proof -
  obtain s w1 t where 1: "look w = (Inr s, w1)" and 2: "CreateRelayTicket t w1 = (Inr (), w')" "ticket_fresh t"
    using run by (auto simp: issue_ticket_transaction_def runs ticket_fresh_def)
  show ?thesis by (rule CreateRelayTicket_step[OF 2(1) find[OF 1] 2(2)])
qed

lemma ticket_identity_state: "ticket_identity t w = (Inr r, w') \<Longrightarrow> w' = w"
  by (auto simp: ticket_identity_def runs find_defs)

lemma consume_ticket_step:
  assumes inv: "db_inv (w_db w)" and run: "consume_ticket_transaction svc now ticket w = (Inr r, w')"
  shows "good_step now (w_db w) (w_db w')"
proof -
  obtain t where t: "t \<in> set (relay_tickets (w_db w))" "rt_ConsumedAt t = None"
    and save: "SaveRelayTicket (t\<lparr>rt_ConsumedAt := Some now\<rparr>) w = (Inr (), w')"
    using run by (auto simp: consume_ticket_transaction_def runs RelayTicketForUpdate_def TrustedIdentities_def
      dest!: first_rowD ticket_identity_state)
  show ?thesis
    by (rule SaveRelayTicket_step[OF save good_refl[OF inv] t(1)]) (use t in \<open>auto simp: ticket_le_def\<close>)
qed

lemma validate_state: "validate_transaction svc now a w = (Inr r, w') \<Longrightarrow> w' = w"
  by (auto simp: validate_transaction_def runs find_defs)

end
