(* ===== verification/Conn_Machine.thy ===== *)
theory Conn_Machine
  imports Conn_Steps
begin

text \<open>
  The connectors service as a state machine: the requests its HTTP layer makes of it, the transition a
  request causes at an instant, and the runs of the service.  Between requests the clock moves on, the
  answers of the account and session authorizers change, users register and fresh random bytes arrive.
\<close>

section \<open>The database after an operation\<close>

definition leaves :: "instant \<Rightarrow> conn_world \<Rightarrow> ('e + 'a) \<times> conn_world \<Rightarrow> bool" where
  "leaves now w r \<longleftrightarrow> good_step now (w_db w) (w_db (snd r))"

lemma leaves_transaction:
  assumes "db_inv (w_db w)" and "\<And>x w'. m w = (Inr x, w') \<Longrightarrow> good_step now (w_db w) (w_db w')"
  shows "leaves now w (WithinTransaction m w)"
  using assms by (auto simp: leaves_def WithinTransaction_def good_refl split: prod.splits sum.splits)

lemma leaves_unchanged: "db_inv (w_db w) \<Longrightarrow> w_db (snd r) = w_db w \<Longrightarrow> leaves now w r"
  by (simp add: leaves_def good_refl)

lemma leaves_on_error [simp]: "leaves now w (on_error f m w) = leaves now w (m w)"
  by (auto simp: leaves_def on_error_def split: prod.splits sum.splits)

lemma leaves_seq:
  assumes "leaves now w (m w)"
    and "\<And>x w1. m w = (Inr x, w1) \<Longrightarrow> w_db (snd (f x w1)) = w_db w1"
  shows "leaves now w (seq m f w)"
  using assms by (auto simp: leaves_def seq_def split: prod.splits sum.splits)

text \<open>Steps before the transaction that only draw random bytes.\<close>

lemma leaves_draw:
  assumes inv: "db_inv (w_db w)" and keep: "w_db (snd (m w)) = w_db w"
    and rest: "\<And>x w1. m w = (Inr x, w1) \<Longrightarrow> w_db w1 = w_db w \<Longrightarrow> leaves now w1 (f x w1)"
  shows "leaves now w (seq m f w)"
proof (cases "m w")
  case (Pair r w1)
  then have w1: "w_db w1 = w_db w" using keep by simp
  show ?thesis
  proof (cases r)
    case (Inl e)
    then show ?thesis using Pair w1 inv by (simp add: seq_def leaves_unchanged)
  next
    case (Inr x)
    then show ?thesis using Pair w1 rest[of x w1] by (simp add: seq_def leaves_def)
  qed
qed

lemma draws_keep [simp]:
  "w_db (snd (draw n w)) = w_db w" "w_db (snd (randomBase64 n w)) = w_db w"
  "w_db (snd (issueIdentifier prefix w)) = w_db w" "w_db (snd (issueToken prefix w)) = w_db w"
  "w_db (snd (issueUserCode w)) = w_db w"
  by (simp_all add: draw_def randomBase64_def issueIdentifier_def issueToken_def issueUserCode_def
    ReadFull_def seq_def ret_def split: prod.splits sum.splits)

lemma tails_keep [simp]:
  "w_db (snd (ret x w)) = w_db w" "w_db (snd (fail e w)) = w_db w" "w_db (snd (onRevoked r w)) = w_db w"
  "w_db (snd (query f w)) = w_db w"
  by (simp_all add: ret_def fail_def onRevoked_def query_def split: sum.splits)

section \<open>Every operation\<close>

lemma IssueChallenge_leaves:
  assumes inv: "db_inv (w_db w)" shows "leaves now w (IssueChallenge svc now purpose userID w)"
proof -
  have create: "leaves now w' (WithinTransaction (CreateChallenge c) w')"
    if "db_inv (w_db w')" "challenge_fresh c" for w' c
    using that CreateChallenge_step[OF _ good_refl] by (intro leaves_transaction) auto
  have "leaves now w (seq (randomBase64 32) (\<lambda>challenge. seq (WithinTransaction (CreateChallenge (c challenge)))
      (\<lambda>_. ret (res challenge))) w)" if "\<And>x. challenge_fresh (c x)" for c and res :: "string \<Rightarrow> challenge_result"
    by (rule leaves_draw[OF inv], simp, rule leaves_seq, rule create) (simp_all add: that inv)
  then show ?thesis
    unfolding IssueChallenge_def by (auto simp: leaves_unchanged inv challenge_fresh_def)
qed

lemma BeginPairing_leaves:
  assumes inv: "db_inv (w_db w)" shows "leaves now w (BeginPairing svc now input w)"
proof (cases "normalizeName (bi_Name input)")
  case None
  then show ?thesis by (simp add: BeginPairing_def inv leaves_unchanged)
next
  case (Some name)
  have start: "leaves now w' (WithinTransaction (begin_pairing_transaction svc now input p) w')"
    if "db_inv (w_db w')" "pairing_fresh p" for w' p
    using that by (intro leaves_transaction begin_step) auto
  show ?thesis
    unfolding BeginPairing_def Some option.case Let_def if_distrib[of "\<lambda>m. m w"]
    apply (rule if_split[THEN iffD2], intro conjI impI)
     apply (simp add: inv leaves_unchanged)
    apply (rule leaves_draw[OF inv], simp)
    apply (rule leaves_draw, simp add: inv, simp)
    apply (rule leaves_draw, simp add: inv, simp)
    apply (rule leaves_seq)
     apply (simp only: leaves_on_error)
     apply (rule start)
    by (simp_all add: pairing_fresh_def inv)
qed

lemma ClaimPairing_leaves:
  assumes inv: "db_inv (w_db w)" shows "leaves now w (ClaimPairing svc now input w)"
  unfolding ClaimPairing_def Let_def
  by (auto simp: inv leaves_unchanged split: option.splits claim_outcome.splits
    intro!: leaves_seq leaves_transaction claim_step)

lemma ConfirmPairing_leaves:
  assumes inv: "db_inv (w_db w)" shows "leaves now w (ConfirmPairing svc now userID pairingID deviceID w)"
  unfolding ConfirmPairing_def by (auto simp: inv leaves_unchanged intro!: leaves_transaction confirm_step)

lemma PollPairing_leaves:
  assumes inv: "db_inv (w_db w)" shows "leaves now w (PollPairing svc now secret w)"
  unfolding PollPairing_def by (auto simp: inv leaves_unchanged intro!: leaves_transaction poll_step)

lemma ApprovePairing_leaves:
  assumes inv: "db_inv (w_db w)" shows "leaves now w (ApprovePairing svc now pairingID secret deviceKeyID w)"
  unfolding ApprovePairing_def by (auto simp: inv leaves_unchanged intro!: leaves_seq leaves_transaction approve_step)

lemma CancelPairing_leaves:
  assumes inv: "db_inv (w_db w)" shows "leaves now w (CancelPairing svc now pairingID secret w)"
  unfolding CancelPairing_def by (auto simp: inv leaves_unchanged intro!: leaves_transaction cancel_step)

lemma RotateDeviceCredential_leaves:
  assumes inv: "db_inv (w_db w)"
  shows "leaves now w (RotateDeviceCredential svc now userID sessionID deviceID credential w)"
  unfolding RotateDeviceCredential_def
  by (auto simp: inv leaves_unchanged intro!: leaves_transaction rotate_device_step)

lemma ActivateDeviceCredential_leaves:
  assumes inv: "db_inv (w_db w)"
  shows "leaves now w (ActivateDeviceCredential svc now userID sessionID deviceID credential w)"
  unfolding ActivateDeviceCredential_def
  by (auto simp: inv leaves_unchanged intro!: leaves_transaction activate_device_step)

lemma RotateConnectorCredential_leaves:
  assumes inv: "db_inv (w_db w)" shows "leaves now w (RotateConnectorCredential svc now credential w)"
  unfolding RotateConnectorCredential_def
  by (auto simp: inv leaves_unchanged intro!: leaves_transaction rotate_connector_step)

lemma ActivateConnectorCredential_leaves:
  assumes inv: "db_inv (w_db w)" shows "leaves now w (ActivateConnectorCredential svc now credential w)"
  unfolding ActivateConnectorCredential_def
  by (auto simp: inv leaves_unchanged intro!: leaves_transaction activate_connector_step)

lemma OwnConnector_leaves:
  assumes inv: "db_inv (w_db w)" shows "leaves now w (OwnConnector svc now credential w)"
  unfolding OwnConnector_def
  by (auto simp: inv leaves_unchanged good_refl intro!: leaves_transaction dest!: own_connector_state)

lemma RevokeConnector_leaves:
  assumes inv: "db_inv (w_db w)" shows "leaves now w (RevokeConnector svc now credential w)"
  unfolding RevokeConnector_def
  by (auto simp: inv leaves_unchanged intro!: leaves_seq leaves_transaction revoke_connector_step)

lemma RevokeAccountConnector_leaves:
  assumes inv: "db_inv (w_db w)" shows "leaves now w (RevokeAccountConnector svc now userID connectorID w)"
  unfolding RevokeAccountConnector_def
  by (auto simp: inv leaves_unchanged intro!: leaves_seq leaves_transaction revoke_account_connector_step)

lemma RevokeAccountDevice_leaves:
  assumes inv: "db_inv (w_db w)" shows "leaves now w (RevokeAccountDevice svc now userID deviceID w)"
  unfolding RevokeAccountDevice_def
  by (auto simp: inv leaves_unchanged intro!: leaves_seq leaves_transaction revoke_account_device_step)

lemma RenameAccountConnector_leaves:
  assumes inv: "db_inv (w_db w)" shows "leaves now w (RenameAccountConnector svc now userID connectorID name w)"
  unfolding RenameAccountConnector_def
  by (auto simp: inv leaves_unchanged split: option.splits intro!: leaves_transaction rename_connector_step)

lemma issueTicket_leaves:
  assumes inv: "db_inv (w_db w)"
  shows "leaves now w (issueTicket svc now role userID credentialID subjectID hash authorizationExpiresAt w)"
proof -
  let ?look = "if role = RelayRoleClient then client_subject now userID credentialID subjectID hash authorizationExpiresAt
    else connector_subject now hash"
  have look: "good_step now (w_db w0) (w_db w1)" if "db_inv (w_db w0)" "?look w0 = (Inr s, w1)" for w0 w1 s
    using that by (auto split: if_splits intro: client_subject_step connector_subject_step)
  have "leaves now w' (WithinTransaction (issue_ticket_transaction svc now role ticket expiresAt ?look) w')"
    if w': "db_inv (w_db w')" for w' ticket expiresAt
    by (rule leaves_transaction[OF w']) (erule issue_ticket_step, erule look[OF w'])
  then show ?thesis
    unfolding issueTicket_def Let_def
    by (intro leaves_draw[OF inv] leaves_seq) (simp_all add: inv)
qed

lemma IssueBrowserTicket_leaves:
  assumes inv: "db_inv (w_db w)"
  shows "leaves now w (IssueBrowserTicket svc now userID sessionID deviceID credential expiresAt w)"
  unfolding IssueBrowserTicket_def by (auto simp: inv leaves_unchanged intro: issueTicket_leaves)

lemma IssueConnectorTicket_leaves:
  assumes inv: "db_inv (w_db w)" shows "leaves now w (IssueConnectorTicket svc now credential w)"
  unfolding IssueConnectorTicket_def by (auto simp: inv leaves_unchanged intro: issueTicket_leaves)

lemma ConsumeRelayTicket_leaves:
  assumes inv: "db_inv (w_db w)" shows "leaves now w (ConsumeRelayTicket svc now ticket w)"
  unfolding ConsumeRelayTicket_def
  by (auto simp: inv leaves_unchanged intro!: leaves_transaction consume_ticket_step)

lemma ValidateAdmission_leaves:
  assumes inv: "db_inv (w_db w)" shows "leaves now w (ValidateAdmission svc now admission w)"
  unfolding ValidateAdmission_def
  by (auto simp: inv leaves_unchanged good_refl intro!: leaves_transaction dest!: validate_state)

lemma List_leaves:
  assumes inv: "db_inv (w_db w)"
  shows "leaves now w (ListDevices userID w)" and "leaves now w (ListConnectors userID w)"
  by (simp_all add: ListDevices_def ListConnectors_def leaves_unchanged inv)

section \<open>Requests and runs\<close>

datatype conn_request =
    Req_IssueChallenge string "string option"
  | Req_BeginPairing begin_pairing_input
  | Req_ClaimPairing claim_pairing_input
  | Req_ConfirmPairing string string string
  | Req_PollPairing string
  | Req_ApprovePairing string string string
  | Req_CancelPairing string string
  | Req_RotateDeviceCredential string string string string
  | Req_ActivateDeviceCredential string string string string
  | Req_OwnConnector string
  | Req_RotateConnectorCredential string
  | Req_ActivateConnectorCredential string
  | Req_RevokeConnector string
  | Req_RevokeAccountConnector string string
  | Req_RevokeAccountDevice string string
  | Req_RenameAccountConnector string string string
  | Req_ListDevices string
  | Req_ListConnectors string
  | Req_IssueBrowserTicket string string string string instant
  | Req_IssueConnectorTicket string
  | Req_ConsumeRelayTicket string
  | Req_ValidateAdmission admission

text \<open>What a request answers, as an error or success, and the state it leaves.\<close>

definition outcome :: "('e + 'a) \<times> conn_world \<Rightarrow> 'e option \<times> conn_world" where
  "outcome r = (case fst r of Inl e \<Rightarrow> Some e | Inr _ \<Rightarrow> None, snd r)"

fun handle :: "conn_service \<Rightarrow> instant \<Rightarrow> conn_request \<Rightarrow> conn_world \<Rightarrow> conn_error option \<times> conn_world" where
  "handle svc now (Req_IssueChallenge purpose userID) w = outcome (IssueChallenge svc now purpose userID w)"
| "handle svc now (Req_BeginPairing input) w = outcome (BeginPairing svc now input w)"
| "handle svc now (Req_ClaimPairing input) w = outcome (ClaimPairing svc now input w)"
| "handle svc now (Req_ConfirmPairing u p d) w = outcome (ConfirmPairing svc now u p d w)"
| "handle svc now (Req_PollPairing secret) w = outcome (PollPairing svc now secret w)"
| "handle svc now (Req_ApprovePairing p secret k) w = outcome (ApprovePairing svc now p secret k w)"
| "handle svc now (Req_CancelPairing p secret) w = outcome (CancelPairing svc now p secret w)"
| "handle svc now (Req_RotateDeviceCredential u s d c) w = outcome (RotateDeviceCredential svc now u s d c w)"
| "handle svc now (Req_ActivateDeviceCredential u s d c) w = outcome (ActivateDeviceCredential svc now u s d c w)"
| "handle svc now (Req_OwnConnector c) w = outcome (OwnConnector svc now c w)"
| "handle svc now (Req_RotateConnectorCredential c) w = outcome (RotateConnectorCredential svc now c w)"
| "handle svc now (Req_ActivateConnectorCredential c) w = outcome (ActivateConnectorCredential svc now c w)"
| "handle svc now (Req_RevokeConnector c) w = outcome (RevokeConnector svc now c w)"
| "handle svc now (Req_RevokeAccountConnector u c) w = outcome (RevokeAccountConnector svc now u c w)"
| "handle svc now (Req_RevokeAccountDevice u d) w = outcome (RevokeAccountDevice svc now u d w)"
| "handle svc now (Req_RenameAccountConnector u c n) w = outcome (RenameAccountConnector svc now u c n w)"
| "handle svc now (Req_ListDevices u) w = outcome (ListDevices u w)"
| "handle svc now (Req_ListConnectors u) w = outcome (ListConnectors u w)"
| "handle svc now (Req_IssueBrowserTicket u s d c e) w = outcome (IssueBrowserTicket svc now u s d c e w)"
| "handle svc now (Req_IssueConnectorTicket c) w = outcome (IssueConnectorTicket svc now c w)"
| "handle svc now (Req_ConsumeRelayTicket t) w = outcome (ConsumeRelayTicket svc now t w)"
| "handle svc now (Req_ValidateAdmission a) w = outcome (ValidateAdmission svc now a w)"

definition serve :: "conn_service \<Rightarrow> instant \<Rightarrow> conn_request \<Rightarrow> conn_world \<Rightarrow> conn_world" where
  "serve svc now req w = snd (handle svc now req w)"

lemma snd_outcome [simp]: "snd (outcome r) = snd r"
  by (simp add: outcome_def)

lemmas leaves_all = IssueChallenge_leaves BeginPairing_leaves ClaimPairing_leaves ConfirmPairing_leaves
  PollPairing_leaves ApprovePairing_leaves CancelPairing_leaves RotateDeviceCredential_leaves
  ActivateDeviceCredential_leaves OwnConnector_leaves RotateConnectorCredential_leaves
  ActivateConnectorCredential_leaves RevokeConnector_leaves RevokeAccountConnector_leaves
  RevokeAccountDevice_leaves RenameAccountConnector_leaves List_leaves IssueBrowserTicket_leaves
  IssueConnectorTicket_leaves ConsumeRelayTicket_leaves ValidateAdmission_leaves

lemma serve_good: "db_inv (w_db w) \<Longrightarrow> good_step now (w_db w) (w_db (serve svc now req w))"
  using leaves_all by (cases req) (simp_all add: leaves_def serve_def)

text \<open>The service with other answers from the identity module: the callbacks read its database.\<close>

definition with_authorizers ::
  "conn_service \<Rightarrow> (string \<Rightarrow> conn_error option) \<Rightarrow> (string \<Rightarrow> string \<Rightarrow> conn_error option) \<Rightarrow> conn_service" where
  "with_authorizers svc account session =
     svc\<lparr>authorizeAccount := account, authorizeSession := session\<rparr>"

inductive conn_step :: "conn_service \<Rightarrow> instant \<times> conn_world \<Rightarrow> instant \<times> conn_world \<Rightarrow> bool" for svc where
  request: "now \<le> now' \<Longrightarrow>
    conn_step svc (now, w) (now', serve (with_authorizers svc account session) now' req w)"
| arrival: "now \<le> now' \<Longrightarrow> conn_step svc (now, w)
    (now', w\<lparr>w_random := bytes, w_db := (w_db w)\<lparr>user_ids := user_ids (w_db w) @ users\<rparr>\<rparr>)"

definition conn_runs :: "conn_service \<Rightarrow> instant \<times> conn_world \<Rightarrow> instant \<times> conn_world \<Rightarrow> bool" where
  "conn_runs svc = (conn_step svc)\<^sup>*\<^sup>*"

definition initial_world :: "conn_world \<Rightarrow> bool" where
  "initial_world w \<longleftrightarrow> (\<exists>users. w_db w = empty_db users)"

definition reachable :: "conn_service \<Rightarrow> instant \<Rightarrow> conn_world \<Rightarrow> bool" where
  "reachable svc now w \<longleftrightarrow> (\<exists>now0 w0. initial_world w0 \<and> conn_runs svc (now0, w0) (now, w))"

lemma initial_inv: "initial_world w \<Longrightarrow> db_inv (w_db w)"
  by (auto simp: initial_world_def db_inv_def schema_ok_empty) (auto simp: empty_db_def)

lemma arrival_good: "db_inv db \<Longrightarrow> good_step now db (db\<lparr>user_ids := user_ids db @ users\<rparr>)"
  by (simp add: plain_defs evolves_refl)

lemma conn_step_good:
  assumes "conn_step svc (now, w) (now', w')" and "db_inv (w_db w)"
  shows "good_step now' (w_db w) (w_db w')" and "now \<le> now'"
  using assms(1) by (cases; simp add: serve_good arrival_good assms(2))+

lemma conn_runs_inv:
  assumes "conn_runs svc s s'" and "db_inv (w_db (snd s))"
  shows "db_inv (w_db (snd s'))" and "fst s \<le> fst s'"
proof -
  have "db_inv (w_db (snd s')) \<and> fst s \<le> fst s'"
    using assms unfolding conn_runs_def
  proof (induction rule: rtranclp_induct)
    case (step y z)
    then show ?case
      using conn_step_good[of svc "fst y" "snd y" "fst z" "snd z"] by (auto simp: good_step_def)
  qed simp
  then show "db_inv (w_db (snd s'))" and "fst s \<le> fst s'" by simp_all
qed

lemma reachable_inv: "reachable svc now w \<Longrightarrow> db_inv (w_db w)"
  using conn_runs_inv(1) initial_inv by (fastforce simp: reachable_def)

text \<open>What every step keeps of a table, along a run.\<close>

lemma runs_preserve:
  assumes runs: "conn_runs svc (now, w) (now', w')" and inv: "db_inv (w_db w)" and "P (w_db w)"
    and step: "\<And>t db db'. db_inv db \<Longrightarrow> P db \<Longrightarrow> db_step t db db' \<Longrightarrow> db_inv db' \<Longrightarrow> P db'"
  shows "P (w_db w')"
proof -
  have "db_inv (w_db (snd s')) \<and> P (w_db (snd s'))" if "conn_runs svc (now, w) s'" for s'
    using that unfolding conn_runs_def
  proof (induction rule: rtranclp_induct)
    case base
    then show ?case using inv assms(3) by simp
  next
    case (step y z)
    then have "good_step (fst z) (w_db (snd y)) (w_db (snd z))"
      using conn_step_good(1)[of svc "fst y" "snd y" "fst z" "snd z"] by simp
    then show ?case using step.IH assms(4) by (auto simp: good_step_def)
  qed
  then show ?thesis using runs by fastforce
qed

end
