(* ===== verification/Conn_Example.thy ===== *)
theory Conn_Example
  imports Conn_Machine
begin

text \<open>
  One pairing from the first challenge to an admitted socket, on concrete data.  The properties apply
  their statements to the worlds of this run.  The cryptography is a stand-in: a digest is the last 32
  bytes of its input, padded with zeros, and every signature verifies.
\<close>

definition ex_sha256 :: "bytes \<Rightarrow> bytes" where
  "ex_sha256 x = (let y = replicate 32 (CHR 0x00) @ x in drop (length y - 32) y)"

definition ex_crypto :: crypto where
  "ex_crypto = \<lparr> sha256 = ex_sha256, hmac_sha256 = (\<lambda>k x. ex_sha256 (k @ x)),
     unmarshal_P256 = (\<lambda>_. Some (0, 0)), ecdsa_verify_P256 = (\<lambda>_ _ _ _. True), unicode_upper = id \<rparr>"

definition ex_options :: service_options where
  "ex_options = \<lparr> o_PairingCodeKey = replicate 32 CHR ''k'', o_DeviceCredentialKey = [],
     o_ServiceID = ''opencode'', o_VerificationURI = ''https://relay'', o_ChallengeLifetime = 0,
     o_PairingLifetime = 0, o_DeviceCredentialLifetime = 0, o_ConnectorCredentialLifetime = 0,
     o_CredentialActivationWindow = 0, o_TicketLifetime = 0, o_PollInterval = 0,
     o_AuthorizeAccount = Some (\<lambda>_. None), o_AuthorizeSession = Some (\<lambda>_ _. None) \<rparr>"

definition ex_service :: conn_service where
  "ex_service = the (NewService ex_crypto ex_options)"

definition ex_key :: "char \<Rightarrow> bytes" where "ex_key c = CHR 0x04 # replicate 64 c"

definition ex_identity :: "char \<Rightarrow> public_identity" where
  "ex_identity c = \<lparr> i_Version = 1, i_Suite = hpkeSuiteID, i_KeyID = EncodeToString (ex_sha256 (ex_key c)),
     i_PublicKey = EncodeToString (ex_key c) \<rparr>"

definition ex_proof :: "char \<Rightarrow> identity_proof" where
  "ex_proof c = \<lparr> pr_Challenge = EncodeToString (replicate 32 c), pr_Signature = EncodeToString (replicate 64 c) \<rparr>"

lemma length_ex_sha256 [simp]: "length (ex_sha256 x) = 32"
  by (simp add: ex_sha256_def Let_def)

lemma ex_crypto_digests: "digests_32 ex_crypto"
  by (simp add: digests_32_def ex_crypto_def)

lemma ex_trim: "TrimSpace ''opencode'' = ''opencode''" "TrimSpace ''https://relay'' = ''https://relay''"
  by code_simp+

lemma ex_service_simps [simp]:
  "crypto_of ex_service = ex_crypto" "pairingLifetime ex_service = 600 * 1000000000"
  "challengeLifetime ex_service = 120 * 1000000000" "serviceID ex_service = ''opencode''"
  "deviceCredentialLifetime ex_service = 365 * 24 * hour" "connectorCredentialLifetime ex_service = 90 * 24 * hour"
  "ticketLifetime ex_service = 30 * 1000000000" "credentialActivationWindow ex_service = 15 * minute"
  "pollInterval ex_service = 2 * 1000000000" "verificationURI ex_service = ''https://relay''"
  "authorizeAccount ex_service = (\<lambda>_. None)" "authorizeSession ex_service = (\<lambda>_ _. None)"
  "pairingCodeKey ex_service = replicate 32 CHR ''k''" "deviceCredentialKey ex_service = replicate 32 CHR ''k''"
  "accountClaimFailureLimit ex_service = 10" "accountClaimFailureWindow ex_service = hour"
  "globalClaimFailureLimit ex_service = 120" "globalClaimFailureWindow ex_service = minute"
  by (simp_all add: ex_service_def ex_options_def NewService_def default_duration_def default_defs duration_defs
    ex_trim Let_def)

lemma ex_proof_challenge [simp]: "pr_Challenge (ex_proof c) = EncodeToString (replicate 32 c)"
  by (simp add: ex_proof_def)

lemma ex_identity_version [simp]: "i_Version (ex_identity c) = 1"
  by (simp add: ex_identity_def)

lemma ex_identity_valid [simp]:
  "validIdentity ex_crypto (ex_identity c)" "verifyIdentityProof ex_crypto (ex_identity c) (ex_proof b)"
proof -
  have "byte_nat CHR 0x04 = 4" by code_simp
  then show "validIdentity ex_crypto (ex_identity c)" "verifyIdentityProof ex_crypto (ex_identity c) (ex_proof b)"
    by (simp_all add: validIdentity_def verifyIdentityProof_def ex_identity_def ex_proof_def ex_crypto_def ex_key_def)
qed

section \<open>The worlds of the run\<close>


text \<open>The random bytes each request draws arrive just before it.\<close>

definition ex_world :: "conn_db \<Rightarrow> bytes \<Rightarrow> conn_world" where
  "ex_world db bytes = \<lparr> w_db = db, w_random = bytes, w_revoked = [] \<rparr>"

lemma ex_world_simps [simp]:
  "w_db (ex_world db bytes) = db" "w_random (ex_world db bytes) = bytes"
  "(ex_world db bytes)\<lparr>w_random := bytes'\<rparr> = ex_world db bytes'"
  "(ex_world db bytes)\<lparr>w_db := db'\<rparr> = ex_world db' bytes"
  by (simp_all add: ex_world_def)

definition ex_challenge :: "char \<Rightarrow> string \<Rightarrow> string option \<Rightarrow> challenge" where
  "ex_challenge c purpose user = \<lparr> ch_Hash = hashSecret ex_service (EncodeToString (replicate 32 c)),
     ch_Purpose = purpose, ch_UserID = user, ch_CreatedAt = 1, ch_ExpiresAt = 1 + 120 * 1000000000, ch_UsedAt = None \<rparr>"

definition ex_db0 :: conn_db where "ex_db0 = empty_db [''user'']"

definition ex_c1 :: challenge where "ex_c1 = ex_challenge CHR ''a'' ChallengePurposeConnector None"
definition ex_c2 :: challenge where "ex_c2 = ex_challenge CHR ''b'' ChallengePurposeDevice (Some ''user'')"

definition ex_db1 :: conn_db where "ex_db1 = ex_db0\<lparr>challenges := [ex_c1]\<rparr>"

lemma ex_run1: "IssueChallenge ex_service 1 ChallengePurposeConnector None (ex_world ex_db0 (replicate 32 CHR ''a'')) =
    (Inr \<lparr>cr_Challenge = pr_Challenge (ex_proof CHR ''a''), cr_ExpiresAt = 1 + 120 * 1000000000\<rparr>, ex_world ex_db1 [])"
  by (simp add: IssueChallenge_def runs write_defs create_row_Inr ex_db0_def ex_db1_def empty_db_def
    ex_c1_def ex_challenge_def challenge_valid_def challenge_refs_def digest_column_def ex_crypto_digests)

definition ex_db2 :: conn_db where "ex_db2 = ex_db1\<lparr>challenges := [ex_c1, ex_c2]\<rparr>"

lemma ex_hash_distinct: "ex_sha256 (EncodeToString (replicate 32 CHR ''b'')) \<noteq> ex_sha256 (EncodeToString (replicate 32 CHR ''a''))"
  by code_simp

lemma ex_run2: "IssueChallenge ex_service 1 ChallengePurposeDevice (Some ''user'') (ex_world ex_db1 (replicate 32 CHR ''b'')) =
    (Inr \<lparr>cr_Challenge = pr_Challenge (ex_proof CHR ''b''), cr_ExpiresAt = 1 + 120 * 1000000000\<rparr>, ex_world ex_db2 [])"
  using ex_hash_distinct
  by (simp add: IssueChallenge_def runs write_defs create_row_Inr ex_db0_def ex_db1_def ex_db2_def empty_db_def
    ex_c1_def ex_c2_def ex_challenge_def challenge_valid_def challenge_refs_def digest_column_def ex_crypto_digests
    user_ref_def challenge_clash_def hashSecret_def) (simp add: ex_crypto_def)

definition ex_secret :: string where "ex_secret = ''orp_'' @ EncodeToString (replicate 32 CHR ''s'')"
definition ex_code :: string where "ex_code = encode_user_code (replicate 5 CHR ''u'')"

definition ex_begin :: begin_pairing_input where
  "ex_begin = \<lparr> bi_Name = ''laptop'', bi_Identity = ex_identity CHR ''c'', bi_Proof = ex_proof CHR ''a'' \<rparr>"

definition ex_pairing :: pairing where
  "ex_pairing = \<lparr> p_ID = ''par_'' @ EncodeToString (replicate 18 CHR ''p''), p_SecretHash = hashSecret ex_service ex_secret,
     p_UserCodeHash = hashUserCode ex_service ex_code, p_ConnectorName = ''laptop'',
     p_ConnectorIdentity = ex_identity CHR ''c'',
     p_ConnectorCredentialHash = Some (hashSecret ex_service (deriveConnectorCredential ex_service ex_secret)),
     p_DeviceCredentialSeed = None, p_State = PairingStatePending, p_UserID = None,
     p_DeviceID = None, p_ConnectorID = None, p_CreatedAt = 2, p_ExpiresAt = 2 + 600 * 1000000000,
     p_ConnectorReviewedAt = None, p_ConfirmedAt = None, p_CompletedAt = None \<rparr>"

definition ex_db3 :: conn_db where
  "ex_db3 = ex_db2\<lparr>challenges := [ex_c1\<lparr>ch_UsedAt := Some 2\<rparr>, ex_c2], pairings := [ex_pairing]\<rparr>"

lemma ex_name: "normalizeName ''laptop'' = Some ''laptop''" "normalizeName ''phone'' = Some ''phone''"
  by code_simp+

lemma ex_challenge_simps [simp]:
  "ch_Hash (ex_challenge c p u) = hashSecret ex_service (EncodeToString (replicate 32 c))"
  "ch_Purpose (ex_challenge c p u) = p" "ch_UserID (ex_challenge c p u) = u" "ch_UsedAt (ex_challenge c p u) = None"
  "ch_CreatedAt (ex_challenge c p u) = 1" "ch_ExpiresAt (ex_challenge c p u) = 1 + 120 * 1000000000"
  by (simp_all add: ex_challenge_def)

lemma ex_hash_ne [simp]: "hashSecret ex_service (EncodeToString (replicate 32 CHR ''b'')) \<noteq>
    hashSecret ex_service (EncodeToString (replicate 32 CHR ''a''))"
  "hashSecret ex_service (EncodeToString (replicate 32 CHR ''a'')) \<noteq>
    hashSecret ex_service (EncodeToString (replicate 32 CHR ''b''))"
  using ex_hash_distinct by (simp_all add: hashSecret_def ex_crypto_def)

lemma ex_run3: "BeginPairing ex_service 2 ex_begin
      (ex_world ex_db2 (replicate 18 CHR ''p'' @ replicate 32 CHR ''s'' @ replicate 5 CHR ''u'')) =
    (Inr \<lparr> br_PairingID = p_ID ex_pairing, br_PairingSecret = ex_secret, br_UserCode = ex_code,
       br_ServiceID = ''opencode'', br_VerificationURI = ''https://relay'', br_ExpiresAt = 2 + 600 * 1000000000,
       br_PollInterval = 2 * 1000000000 \<rparr>, ex_world ex_db3 [])"
  by (simp add: BeginPairing_def begin_pairing_transaction_def ex_begin_def ex_name runs find_defs write_defs create_row_Inr save_row_Inr
    ex_db0_def ex_db1_def ex_db2_def ex_db3_def empty_db_def ex_pairing_def ex_secret_def ex_code_def
    ex_c1_def ex_c2_def first_row_def challenge_valid_def challenge_refs_def digest_column_def ex_crypto_digests
    user_ref_def challenge_clash_def expired_at_def pairing_valid_def pairing_refs_def replace_row_def
    length_EncodeToString)

definition ex_claim :: claim_pairing_input where
  "ex_claim = \<lparr> ci_UserID = ''user'', ci_UserCode = ex_code, ci_DeviceName = ''phone'',
     ci_Identity = ex_identity CHR ''d'', ci_Proof = ex_proof CHR ''b'' \<rparr>"

definition ex_device :: device where
  "ex_device = \<lparr> d_ID = ''dev_'' @ EncodeToString (replicate 18 CHR ''v''), d_UserID = ''user'', d_Name = ''phone'',
     d_Identity = ex_identity CHR ''d'', d_CredentialHash = None, d_CredentialExpiresAt = None,
     d_PendingCredentialHash = None, d_PendingCredentialExpiresAt = None, d_CreatedAt = 3,
     d_ActivatedAt = None, d_RevokedAt = None \<rparr>"

definition ex_claimed :: pairing where
  "ex_claimed = ex_pairing\<lparr>p_State := PairingStateVerification, p_UserID := Some ''user'', p_DeviceID := Some (d_ID ex_device)\<rparr>"

definition ex_event :: "string option \<Rightarrow> string \<Rightarrow> instant \<Rightarrow> audit_event" where
  "ex_event con name at = \<lparr> a_UserID = Some ''user'', a_DeviceID = Some (d_ID ex_device), a_ConnectorID = con,
     a_PairingID = Some (p_ID ex_pairing), a_EventType = name, a_OccurredAt = at \<rparr>"

definition ex_db4 :: conn_db where
  "ex_db4 = ex_db3\<lparr>challenges := [ex_c1\<lparr>ch_UsedAt := Some 2\<rparr>, ex_c2\<lparr>ch_UsedAt := Some 3\<rparr>],
     devices := [ex_device], pairings := [ex_claimed], audit_events := [ex_event None ''pairing.reviewed'' 3]\<rparr>"

lemmas ex_db_defs = ex_db0_def ex_db1_def ex_db2_def ex_db3_def ex_db4_def empty_db_def

lemmas ex_run_defs = runs find_defs write_defs create_row_Inr save_row_Inr first_row_def replace_row_def
  challenge_valid_def challenge_refs_def challenge_clash_def pairing_valid_def pairing_refs_def
  device_valid_def device_refs_def connector_valid_def connector_refs_def trust_refs_def
  digest_column_def user_ref_def device_ref_def connector_ref_def expired_at_def length_EncodeToString
  ex_crypto_digests

lemma ex_code_simps:
  "normalizeUserCode cr ex_code = raw_user_code (replicate 5 CHR ''u'')"
  "hashUserCode ex_service (raw_user_code (replicate 5 CHR ''u'')) = hashUserCode ex_service ex_code"
  by (simp_all add: ex_code_def hash_raw_code normalize_typed_code(1) set_encode_user_code remove_dash_code)

lemma seq_attempt_query:
  "seq (attempt (query f)) g w = (case f (w_db w) of Inl e \<Rightarrow> g (Inl (translateError e)) w | Inr x \<Rightarrow> g (Inr x) w)"
  by (simp add: seq_def attempt_def query_def split: sum.splits)

lemma ex_run4: "ClaimPairing ex_service 3 ex_claim (ex_world ex_db3 (replicate 18 CHR ''v'')) =
    (Inr \<lparr> clr_PairingID = p_ID ex_pairing, clr_DeviceID = d_ID ex_device, clr_ExpiresAt = p_ExpiresAt ex_pairing,
       clr_Transcript = transcript ex_service ex_claimed (ex_identity CHR ''d'') \<rparr>, ex_world ex_db4 [])"
  by (simp add: ClaimPairing_def seq_attempt_query claim_transaction_def checkClaimFailures_def claim_guess_def claim_found_def
    claim_device_def ex_run_defs ex_db_defs ex_claim_def ex_name ex_code_simps ex_c1_def ex_c2_def Let_def
    ex_pairing_def ex_claimed_def ex_device_def ex_event_def account_failures_def)

definition ex_approved :: pairing where
  "ex_approved = ex_claimed\<lparr>p_ConnectorReviewedAt := Some 4\<rparr>"

definition ex_db5 :: conn_db where
  "ex_db5 = ex_db4\<lparr>pairings := [ex_approved], audit_events := [ex_event None ''pairing.reviewed'' 3,
     ex_event None ''pairing.connector_approved'' 4]\<rparr>"

lemma ex_secret_valid [simp]: "validToken ex_secret ''orp_''"
  unfolding ex_secret_def by (rule validToken_encoded) simp

lemmas ex_row_defs = ex_c1_def ex_c2_def ex_pairing_def ex_claimed_def ex_approved_def ex_device_def ex_event_def

lemma ex_keyID_length: "length (i_KeyID (ex_identity c)) = 43"
  by (simp add: ex_identity_def length_EncodeToString)

lemma ex_run5: "ApprovePairing ex_service 4 (p_ID ex_pairing) ex_secret (i_KeyID (ex_identity CHR ''d''))
    (ex_world ex_db4 []) = (Inr (), ex_world ex_db5 [])"
  using ex_keyID_length[of "CHR ''d''"]
  by (auto simp: ApprovePairing_def approve_transaction_def ex_run_defs ex_db_defs ex_db5_def ex_row_defs)

definition ex_seed :: bytes where "ex_seed = replicate 32 CHR ''x''"
definition ex_deviceCredential :: string where "ex_deviceCredential = deriveDeviceCredential ex_service ex_seed"

definition ex_active :: device where
  "ex_active = ex_device\<lparr>d_CredentialHash := Some (hashSecret ex_service ex_deviceCredential),
     d_CredentialExpiresAt := Some (5 + 365 * 24 * hour), d_ActivatedAt := Some 5\<rparr>"

definition ex_connector :: connector where
  "ex_connector = \<lparr> c_ID = ''con_'' @ EncodeToString (replicate 18 CHR ''n''), c_UserID = ''user'', c_Name = ''laptop'',
     c_Identity = ex_identity CHR ''c'',
     c_CredentialHash = Some (hashSecret ex_service (deriveConnectorCredential ex_service ex_secret)),
     c_CredentialExpiresAt = Some (5 + 90 * 24 * hour), c_PendingCredentialHash = None,
     c_PendingCredentialExpiresAt = None, c_CreatedAt = 5, c_RevokedAt = None \<rparr>"

definition ex_trust :: trust where
  "ex_trust = \<lparr> t_UserID = ''user'', t_DeviceID = d_ID ex_device, t_ConnectorID = c_ID ex_connector, t_CreatedAt = 5,
     t_RevokedAt = None \<rparr>"

definition ex_completed :: pairing where
  "ex_completed = ex_approved\<lparr>p_DeviceCredentialSeed := Some ex_seed, p_State := PairingStateCompleted,
     p_ConnectorID := Some (c_ID ex_connector), p_ConfirmedAt := Some 5, p_CompletedAt := Some 5\<rparr>"

definition ex_db6 :: conn_db where
  "ex_db6 = ex_db5\<lparr>devices := [ex_active], connectors := [ex_connector], trusts := [ex_trust],
     pairings := [ex_completed], audit_events := audit_events ex_db5 @
       [ex_event (Some (c_ID ex_connector)) ''pairing.completed'' 5]\<rparr>"

lemma ex_hash_length [simp]: "length (hashSecret ex_service s) = 32"
  by (simp add: ex_crypto_digests)

lemma ex_run6: "ConfirmPairing ex_service 5 ''user'' (p_ID ex_pairing) (d_ID ex_device)
    (ex_world ex_db5 (replicate 18 CHR ''n'' @ replicate 32 CHR ''x'')) =
    (Inr \<lparr> cfr_DeviceID = d_ID ex_device, cfr_ConnectorID = c_ID ex_connector,
       cfr_DeviceCredential = ex_deviceCredential, cfr_DeviceCredentialExpiresAt = 5 + 365 * 24 * hour \<rparr>,
     ex_world ex_db6 [])"
  by (simp add: ConfirmPairing_def confirm_transaction_def confirm_connector_def complete_pairing_def
    seq_attempt_query ex_run_defs create_row_def ex_db_defs ex_db5_def ex_db6_def ex_row_defs ex_active_def ex_connector_def ex_trust_def
    ex_completed_def ex_seed_def ex_deviceCredential_def deviceCredentialSeedLength_def)

definition ex_ticket :: string where "ex_ticket = ''ort_'' @ EncodeToString (replicate 32 CHR ''t'')"

lemma ex_ticket_valid: "validToken ex_ticket ''ort_''"
  unfolding ex_ticket_def by (rule validToken_encoded) simp

lemma ex_deviceCredential_valid: "validToken ex_deviceCredential ''ord_''"
  unfolding ex_deviceCredential_def by (simp add: derived_device_valid ex_crypto_digests)

definition ex_ticket_row :: relay_ticket where
  "ex_ticket_row = \<lparr> rt_TokenHash = hashSecret ex_service ex_ticket, rt_UserID = ''user'', rt_Role = RelayRoleClient,
     rt_SubjectID = d_ID ex_device, rt_SubjectKeyID = i_KeyID (ex_identity CHR ''d''), rt_CredentialID = ''session'',
     rt_AuthorizationExpiresAt = Some (10 * hour), rt_CreatedAt = 6, rt_ExpiresAt = 6 + 30 * 1000000000,
     rt_ConsumedAt = None \<rparr>"

definition ex_db7 :: conn_db where "ex_db7 = ex_db6\<lparr>relay_tickets := [ex_ticket_row]\<rparr>"

lemma ex_run7: "IssueBrowserTicket ex_service 6 ''user'' ''session'' (d_ID ex_device) ex_deviceCredential (10 * hour)
    (ex_world ex_db6 (replicate 32 CHR ''t'')) =
    (Inr \<lparr> tk_Ticket = ex_ticket, tk_ExpiresAt = 6 + 30 * 1000000000 \<rparr>, ex_world ex_db7 [])"
  unfolding IssueBrowserTicket_def
  by (simp add: issueTicket_def issue_ticket_transaction_def client_subject_def cancelPendingDeviceRotation_def
    ex_deviceCredential_valid ex_run_defs ex_db_defs ex_db5_def ex_db6_def ex_db7_def ex_row_defs ex_active_def
    ex_ticket_def ex_ticket_row_def relay_ticket_valid_def hour_def minute_def second_def Let_def)

definition ex_admission :: admission where
  "ex_admission = \<lparr> ad_UserID = ''user'', ad_Role = RelayRoleClient, ad_SubjectID = d_ID ex_device,
     ad_SessionID = ''session'', ad_Identity = ex_identity CHR ''d'',
     ad_TrustedIdentities = [ex_identity CHR ''c''], ad_AuthorizationExpiresAt = 7 + 300 * 1000000000 \<rparr>"

definition ex_db8 :: conn_db where
  "ex_db8 = ex_db7\<lparr>relay_tickets := [ex_ticket_row\<lparr>rt_ConsumedAt := Some 7\<rparr>]\<rparr>"

lemma ex_run8: "ConsumeRelayTicket ex_service 7 ex_ticket (ex_world ex_db7 []) = (Inr ex_admission, ex_world ex_db8 [])"
  by (simp add: ConsumeRelayTicket_def consume_ticket_transaction_def ticket_identity_def ex_ticket_valid ex_run_defs ex_db_defs
    ex_db5_def ex_db6_def ex_db7_def ex_db8_def ex_row_defs ex_active_def ex_connector_def ex_trust_def ex_ticket_row_def
    relay_ticket_valid_def ex_admission_def default_defs duration_defs Let_def)

section \<open>The run is reachable\<close>

lemma same_authorizers: "with_authorizers svc (authorizeAccount svc) (authorizeSession svc) = svc"
  by (simp add: with_authorizers_def)

lemma reachable_later:
  assumes "reachable svc t w" and "t \<le> t'" shows "reachable svc t' (w\<lparr>w_random := bytes\<rparr>)"
  using conn_step.arrival[OF assms(2), of svc w, where users = "[]" and bytes = bytes] assms(1)
  unfolding reachable_def conn_runs_def by (auto intro: rtranclp.rtrancl_into_rtrancl)

lemma reachable_next:
  assumes "reachable svc t w" and "t \<le> t'" and "serve svc t' req (w\<lparr>w_random := bytes\<rparr>) = w'"
  shows "reachable svc t' w'"
proof -
  have "conn_step svc (t', w\<lparr>w_random := bytes\<rparr>) (t', w')"
    using conn_step.request[of t' t' svc "w\<lparr>w_random := bytes\<rparr>" "authorizeAccount svc" "authorizeSession svc" req]
      assms(3) by (simp add: same_authorizers)
  then show ?thesis
    using reachable_later[OF assms(1,2), where bytes = bytes] unfolding reachable_def conn_runs_def
    by (auto intro: rtranclp.rtrancl_into_rtrancl)
qed

lemma ex_reachable:
  "reachable ex_service 1 (ex_world ex_db0 [])" "reachable ex_service 1 (ex_world ex_db1 [])"
  "reachable ex_service 1 (ex_world ex_db2 [])" "reachable ex_service 2 (ex_world ex_db3 [])"
  "reachable ex_service 3 (ex_world ex_db4 [])" "reachable ex_service 4 (ex_world ex_db5 [])"
  "reachable ex_service 5 (ex_world ex_db6 [])" "reachable ex_service 6 (ex_world ex_db7 [])"
  "reachable ex_service 7 (ex_world ex_db8 [])"
proof -
  show 0: "reachable ex_service 1 (ex_world ex_db0 [])"
    unfolding reachable_def conn_runs_def
    by (intro exI[of _ 1] exI[of _ "ex_world ex_db0 []"]) (auto simp: initial_world_def ex_db0_def)
  show 1: "reachable ex_service 1 (ex_world ex_db1 [])"
    by (rule reachable_next[OF 0, where req = "Req_IssueChallenge ChallengePurposeConnector None"
          and bytes = "replicate 32 CHR ''a''"]) (simp_all only: serve_def handle.simps snd_outcome ex_world_simps ex_run1 snd_conv order.refl)
  show 2: "reachable ex_service 1 (ex_world ex_db2 [])"
    by (rule reachable_next[OF 1, where req = "Req_IssueChallenge ChallengePurposeDevice (Some ''user'')"
          and bytes = "replicate 32 CHR ''b''"]) (simp_all only: serve_def handle.simps snd_outcome ex_world_simps ex_run2 snd_conv order.refl)
  show 3: "reachable ex_service 2 (ex_world ex_db3 [])"
    by (rule reachable_next[OF 2, where req = "Req_BeginPairing ex_begin"
          and bytes = "replicate 18 CHR ''p'' @ replicate 32 CHR ''s'' @ replicate 5 CHR ''u''"])
      (simp, simp only: serve_def handle.simps snd_outcome ex_world_simps ex_run3 snd_conv)
  show 4: "reachable ex_service 3 (ex_world ex_db4 [])"
    by (rule reachable_next[OF 3, where req = "Req_ClaimPairing ex_claim" and bytes = "replicate 18 CHR ''v''"])
      (simp, simp only: serve_def handle.simps snd_outcome ex_world_simps ex_run4 snd_conv)
  show 5: "reachable ex_service 4 (ex_world ex_db5 [])"
    by (rule reachable_next[OF 4, where bytes = "[]" and
        req = "Req_ApprovePairing (p_ID ex_pairing) ex_secret (i_KeyID (ex_identity CHR ''d''))"])
      (simp, simp only: serve_def handle.simps snd_outcome ex_world_simps ex_run5 snd_conv)
  show 6: "reachable ex_service 5 (ex_world ex_db6 [])"
    by (rule reachable_next[OF 5, where req = "Req_ConfirmPairing ''user'' (p_ID ex_pairing) (d_ID ex_device)"
          and bytes = "replicate 18 CHR ''n'' @ replicate 32 CHR ''x''"])
      (simp, simp only: serve_def handle.simps snd_outcome ex_world_simps ex_run6 snd_conv)
  show 7: "reachable ex_service 6 (ex_world ex_db7 [])"
    by (rule reachable_next[OF 6, where bytes = "replicate 32 CHR ''t''" and
        req = "Req_IssueBrowserTicket ''user'' ''session'' (d_ID ex_device) ex_deviceCredential (10 * hour)"])
      (simp, simp only: serve_def handle.simps snd_outcome ex_world_simps ex_run7 snd_conv)
  show "reachable ex_service 7 (ex_world ex_db8 [])"
    by (rule reachable_next[OF 7, where req = "Req_ConsumeRelayTicket ex_ticket" and bytes = "[]"])
      (simp, simp only: serve_def handle.simps snd_outcome ex_world_simps ex_run8 snd_conv)
qed

text \<open>Worlds are reachable at later instants too, with any random bytes to come.\<close>

lemma ex_later: "reachable ex_service t (ex_world db []) \<Longrightarrow> t \<le> t' \<Longrightarrow> reachable ex_service t' (ex_world db bytes)"
  using reachable_later[of ex_service t "ex_world db []" t' bytes] by simp

lemma runs_later: "t \<le> t' \<Longrightarrow> conn_runs svc (t, w) (t', w)"
  using conn_step.arrival[of t t' svc w "[]" "w_random w"] unfolding conn_runs_def by auto

end
