(* ===== verification/Conn_Atomic.thy ===== *)
theory Conn_Atomic
  imports Conn_Example
begin

text \<open>
  Errors leave no trace: a request that answers an error has changed nothing in the database, with the
  exceptions the code makes on purpose.  A claim that guesses a wrong code or finds its pairing expired
  commits what it recorded, and so does an approval that finds its pairing expired.
\<close>

abbreviation atomic :: "(conn_world, 'e, 'a) op \<Rightarrow> bool" where
  "atomic \<equiv> atomic_in w_db"

lemma atomic_query [atomics]: "atomic (query f)"
  by (auto simp: atomic_in_def query_def split: sum.splits)

lemma atomic_transaction [atomics]: "atomic (WithinTransaction m)"
  by (auto simp: atomic_in_def dest: WithinTransaction_rollback)

text \<open>Steps that draw random bytes, and the announcement after the transaction, which cannot fail.\<close>

lemma atomic_draws [atomics]:
  "(\<And>x. atomic (f x)) \<Longrightarrow> atomic (seq (randomBase64 n) f)"
  "(\<And>x. atomic (f x)) \<Longrightarrow> atomic (seq (issueIdentifier prefix) f)"
  "(\<And>x. atomic (f x)) \<Longrightarrow> atomic (seq (issueToken prefix) f)"
  "(\<And>x. atomic (f x)) \<Longrightarrow> atomic (seq issueUserCode f)"
  by (simp_all add: atomic_untouched untouched_def)

lemma atomic_announced [atomics]: "atomic m \<Longrightarrow> atomic (seq m (\<lambda>x. onRevoked (h x)))"
  by (auto intro!: atomic_then simp: infallible_def onRevoked_def)

lemma atomic_operations:
  "atomic (IssueChallenge svc now purpose userID)" "atomic (BeginPairing svc now input)"
  "atomic (ConfirmPairing svc now u p d)" "atomic (PollPairing svc now secret)"
  "atomic (CancelPairing svc now p secret)"
  "atomic (RotateDeviceCredential svc now u s d c)" "atomic (ActivateDeviceCredential svc now u s d c)"
  "atomic (OwnConnector svc now c)" "atomic (RotateConnectorCredential svc now c)"
  "atomic (ActivateConnectorCredential svc now c)" "atomic (RevokeConnector svc now c)"
  "atomic (RevokeAccountConnector svc now u i)" "atomic (RevokeAccountDevice svc now u i)"
  "atomic (RenameAccountConnector svc now u i name)" "atomic (ListDevices u)" "atomic (ListConnectors u)"
  "atomic (IssueBrowserTicket svc now u s d c ex)" "atomic (IssueConnectorTicket svc now c)"
  "atomic (ConsumeRelayTicket svc now t)" "atomic (ValidateAdmission svc now a)"
  unfolding IssueChallenge_def BeginPairing_def ConfirmPairing_def PollPairing_def CancelPairing_def
    RotateDeviceCredential_def ActivateDeviceCredential_def OwnConnector_def
    RotateConnectorCredential_def ActivateConnectorCredential_def RevokeConnector_def
    RevokeAccountConnector_def RevokeAccountDevice_def RenameAccountConnector_def ListDevices_def ListConnectors_def
    IssueBrowserTicket_def IssueConnectorTicket_def issueTicket_def ConsumeRelayTicket_def
    ValidateAdmission_def Let_def
  by (intro atomics)+

lemma claim_error:
  assumes "ClaimPairing svc now input w = (Inl e, w')" and "e \<noteq> ErrInvalidCode" and "e \<noteq> ErrExpired"
  shows "w_db w' = w_db w"
  using assms
  by (auto simp: ClaimPairing_def fail_def seq_def ret_def on_error_def Let_def
    dest: WithinTransaction_rollback split: option.splits if_splits prod.splits sum.splits claim_outcome.splits)

lemma approve_error:
  assumes "ApprovePairing svc now p secret k w = (Inl e, w')" and "e \<noteq> ErrExpired"
  shows "w_db w' = w_db w"
  using assms
  by (auto simp: ApprovePairing_def fail_def seq_def ret_def on_error_def
    dest: WithinTransaction_rollback split: if_splits prod.splits sum.splits)

lemma outcome_error: "outcome r = (Some e, w') \<longleftrightarrow> r = (Inl e, w')"
  by (cases r) (auto simp: outcome_def split: sum.splits)

lemmas operation_error = atomic_operations[unfolded atomic_in_def, rule_format]

text \<open>The errors that are answered after a commit.\<close>

definition commits_error :: "conn_request \<Rightarrow> conn_error \<Rightarrow> bool" where
  "commits_error req e \<longleftrightarrow> (case req of
     Req_ClaimPairing _ \<Rightarrow> e = ErrInvalidCode \<or> e = ErrExpired
   | Req_ApprovePairing _ _ _ \<Rightarrow> e = ErrExpired
   | _ \<Rightarrow> False)"

text \<open>
  C13: a request that answers an error leaves the database exactly as it was, but for the three answers that are
  reported after a commit: a claim with a wrong code or of an expired pairing, and the approval of an expired
  one.  This includes a claim answered with a conflict (the code of a pairing already claimed, or a device that
  cannot take it), whose challenge is rolled back with the rest and so not spent.
\<close>

theorem failed_request_keeps_database:
  assumes "handle svc now req w = (Some e, w')" and "\<not> commits_error req e"
  shows "w_db w' = w_db w"
  using assms
  by (cases req)
    (simp_all add: commits_error_def outcome_error claim_error approve_error, (erule operation_error)+)

theorem failed_request_keeps_database_witness:
  "fst (handle ex_service 4 (Req_ConfirmPairing ''user'' (p_ID ex_pairing) (d_ID ex_device)) (ex_world ex_db4 [])) =
     Some ErrConflict \<and>
   w_db (snd (handle ex_service 4 (Req_ConfirmPairing ''user'' (p_ID ex_pairing) (d_ID ex_device)) (ex_world ex_db4 []))) =
     ex_db4"
proof -
  have "ConfirmPairing ex_service 4 ''user'' (p_ID ex_pairing) (d_ID ex_device) (ex_world ex_db4 []) =
      (Inl ErrConflict, ex_world ex_db4 [])"
    by (simp add: ConfirmPairing_def confirm_transaction_def evals refused_transaction find_defs first_row_def
      ex_db_defs ex_row_defs expired_at_def)
  then have "handle ex_service 4 (Req_ConfirmPairing ''user'' (p_ID ex_pairing) (d_ID ex_device)) (ex_world ex_db4 []) =
      (Some ErrConflict, ex_world ex_db4 [])"
    by (simp add: outcome_def)
  then show ?thesis
    using failed_request_keeps_database[of ex_service 4 "Req_ConfirmPairing ''user'' (p_ID ex_pairing) (d_ID ex_device)"
      "ex_world ex_db4 []" ErrConflict "ex_world ex_db4 []"] by (simp add: commits_error_def)
qed

end
