(* ===== verification/Conn_Once.thy ===== *)
theory Conn_Once
  imports Conn_Atomic
begin

text \<open>
  What may happen only once, and what is final: a challenge is spent by one pairing operation, a relay
  ticket admits one socket, a revoked device or connector never comes back, and a completed pairing
  keeps its parties.
\<close>

section \<open>Rows that no longer change\<close>

lemma final_row:
  assumes "conn_runs svc (now, w) (now', w')" and "db_inv (w_db w)" and "r \<in> set (rows (w_db w))"
    and "\<And>t db db'. db_step t db db' \<Longrightarrow> evolves R N (rows db) (rows db')" and "\<And>r'. R r r' \<Longrightarrow> r' = r"
  shows "r \<in> set (rows (w_db w'))"
proof (rule runs_preserve[OF assms(1,2), where P = "\<lambda>db. r \<in> set (rows db)"])
  show "r \<in> set (rows (w_db w))" by (rule assms(3))
  fix t db db' assume "r \<in> set (rows db)" and "db_step t db db'"
  then show "r \<in> set (rows db')" using evolves_old[OF assms(4)] assms(5) by blast
qed

lemma consumed_ticket_final:
  assumes "conn_runs svc (now, w) (now', w')" and "db_inv (w_db w)"
    and "t \<in> set (relay_tickets (w_db w))" "rt_ConsumedAt t \<noteq> None"
  shows "t \<in> set (relay_tickets (w_db w'))"
  by (rule final_row[where rows = relay_tickets and R = ticket_le and N = ticket_fresh, OF assms(1-3)]) (use assms(4) in \<open>auto simp: db_step_def ticket_le_def\<close>)

lemma used_challenge_final:
  assumes "conn_runs svc (now, w) (now', w')" and "db_inv (w_db w)"
    and "c \<in> set (challenges (w_db w))" "ch_UsedAt c \<noteq> None"
  shows "c \<in> set (challenges (w_db w'))"
  by (rule final_row[where rows = challenges and R = challenge_le and N = challenge_fresh, OF assms(1-3)])
    (use assms(4) in \<open>auto simp: db_step_def challenge_le_def\<close>)

lemma revoked_device_final:
  assumes "conn_runs svc (now, w) (now', w')" and "db_inv (w_db w)"
    and "d \<in> set (devices (w_db w))" "d_RevokedAt d \<noteq> None"
  shows "d \<in> set (devices (w_db w'))"
  by (rule final_row[where rows = devices and R = device_le and N = device_fresh, OF assms(1-3)])
    (use assms(4) in \<open>auto simp: db_step_def device_le_def\<close>)

lemma revoked_connector_final:
  assumes "conn_runs svc (now, w) (now', w')" and "db_inv (w_db w)"
    and "c \<in> set (connectors (w_db w))" "c_RevokedAt c \<noteq> None"
  shows "c \<in> set (connectors (w_db w'))"
  by (rule final_row[where rows = connectors and R = connector_le and N = connector_fresh, OF assms(1-3)])
    (use assms(4) in \<open>auto simp: db_step_def connector_le_def\<close>)

section \<open>Lookups by a unique value\<close>

lemma find_ticket:
  assumes "db_inv db" and "t \<in> set (relay_tickets db)"
  shows "first_row rt_TokenHash (\<lambda>q. rt_TokenHash q = rt_TokenHash t) (relay_tickets db) = Inr t"
  by (rule relay_ticket_table.first_row_unique[OF db_invD(6)[OF assms(1)] assms(2)])
    (simp_all add: relay_ticket_clash_def)

lemma find_challenge:
  assumes "db_inv db" and "c \<in> set (challenges db)"
  shows "first_row ch_Hash (\<lambda>q. ch_Hash q = ch_Hash c) (challenges db) = Inr c"
  by (rule challenge_table.first_row_unique[OF db_invD(1)[OF assms(1)] assms(2)])
    (simp_all add: challenge_clash_def)

lemma find_device:
  assumes "db_inv db" and "d \<in> set (devices db)"
  shows "first_row d_ID (\<lambda>q. d_ID q = d_ID d) (devices db) = Inr d"
  by (rule device_table.first_row_unique[OF db_invD(3)[OF assms(1)] assms(2)]) (simp_all add: device_clash_def)

lemma find_connector:
  assumes "db_inv db" and "c \<in> set (connectors db)"
  shows "first_row c_ID (\<lambda>q. c_ID q = c_ID c) (connectors db) = Inr c"
  by (rule connector_table.first_row_unique[OF db_invD(4)[OF assms(1)] assms(2)])
    (simp_all add: connector_clash_def)

section \<open>Relay tickets\<close>

lemma consumed_ticket_refused:
  assumes "reachable svc now w" and run: "ConsumeRelayTicket svc now ticket w = (Inr admission, w1)"
    and later: "conn_runs svc (now, w1) (now', w')"
  shows "ConsumeRelayTicket (with_authorizers svc account session) now' ticket w' = (Inl ErrUnauthorized, w')"
proof -
  let ?svc = "with_authorizers svc account session"
  have inv: "db_inv (w_db w)" by (rule reachable_inv[OF assms(1)])
  have inv1: "db_inv (w_db w1)"
    using ConsumeRelayTicket_leaves[OF inv, of now svc ticket] run by (simp add: leaves_def good_step_def)
  obtain t where t: "t \<in> set (relay_tickets (w_db w))" "rt_TokenHash t = hashSecret svc ticket"
    and save: "SaveRelayTicket (t\<lparr>rt_ConsumedAt := Some now\<rparr>) w = (Inr (), w1)"
    using run by (auto simp: ConsumeRelayTicket_def consume_ticket_transaction_def runs RelayTicketForUpdate_def
      TrustedIdentities_def dest!: first_rowD ticket_identity_state split: if_splits)
  let ?t = "t\<lparr>rt_ConsumedAt := Some now\<rparr>"
  have "?t \<in> set (relay_tickets (w_db w1))"
    using save by (auto simp: SaveRelayTicket_def runs save_row_Inr replace_row_in)
  then have "?t \<in> set (relay_tickets (w_db w'))"
    using consumed_ticket_final[OF later inv1] by simp
  moreover have inv': "db_inv (w_db w')"
    using conn_runs_inv(1)[OF later] inv1 by simp
  ultimately have look: "first_row rt_TokenHash (\<lambda>q. rt_TokenHash q = hashSecret ?svc ticket) (relay_tickets (w_db w')) = Inr ?t"
    using find_ticket[of "w_db w'" ?t] t(2) by (simp add: hashSecret_def with_authorizers_def)
  have "consume_ticket_transaction ?svc now' ticket w' = (Inl ErrUnauthorized, w')"
    unfolding consume_ticket_transaction_def RelayTicketForUpdate_def
    by (simp add: evals look)
  then show ?thesis
    by (simp add: ConsumeRelayTicket_def refused_transaction fail_def)
qed

text \<open>C1: a relay ticket is consumed at most once.\<close>

theorem ticket_single_use:
  assumes "reachable svc now w" and "ConsumeRelayTicket svc now ticket w = (Inr admission, w1)"
    and "conn_runs svc (now, w1) (now', w')"
  shows "ConsumeRelayTicket (with_authorizers svc account session) now' ticket w' = (Inl ErrUnauthorized, w')"
  by (rule consumed_ticket_refused[OF assms])

theorem ticket_single_use_witness:
  "ConsumeRelayTicket (with_authorizers ex_service (\<lambda>_. None) (\<lambda>_ _. None)) 8 ex_ticket (ex_world ex_db8 []) =
     (Inl ErrUnauthorized, ex_world ex_db8 [])"
  by (rule ticket_single_use[OF ex_later[OF ex_reachable(8)] ex_run8 runs_later]) simp_all

section \<open>Challenges\<close>

lemma challenge_spent_kept:
  assumes later: "conn_runs svc (now, w) (now', w')" and inv: "db_inv (w_db w)"
    and c: "c \<in> set (challenges (w_db w))" "ch_UsedAt c \<noteq> None"
    and found: "c' \<in> set (challenges (w_db w'))" "ch_Hash c' = ch_Hash c"
  shows "ch_UsedAt c' \<noteq> None"
proof -
  have "db_inv (w_db w')" using conn_runs_inv(1)[OF later] inv by simp
  then have "c' = c"
    using challenge_table.wf_key[OF db_invD(1) found(1) used_challenge_final[OF later inv c]] found(2) by simp
  then show ?thesis using c by simp
qed

lemma BeginPairing_challenge:
  assumes "BeginPairing svc now input w = (Inr r, w1)"
  obtains c where "c \<in> set (challenges (w_db w))" "ch_Hash c = hashSecret svc (pr_Challenge (bi_Proof input))"
    "ch_UsedAt c = None" "c\<lparr>ch_UsedAt := Some now\<rparr> \<in> set (challenges (w_db w1))"
  using assms
  by (clarsimp simp: BeginPairing_def begin_pairing_transaction_def runs ChallengeForUpdate_def
      SaveChallenge_def ExpirePairingsForKey_def CreatePairing_def save_row_Inr set_replace_row Let_def
      dest!: first_rowD split: if_splits)

lemma claim_guess_challenges:
  assumes "claim_guess svc now input name code w = (Inr out, w')"
  shows "challenges (w_db w') = challenges (w_db w)"
proof -
  have device: "challenges (w_db w2) = challenges (w_db w1)" if "claim_device now input name w1 = (Inr d, w2)" for d w1 w2
    using that by (cases rule: claim_device_cases) (auto simp: CreateDevice_def runs)
  have found: "challenges (w_db w') = challenges (w_db w)" if "claim_found svc now input name p w = (Inr out, w')" for p
    using that by (auto simp: claim_found_def SavePairing_def AppendAuditEvent_def runs dest!: device)
  show ?thesis
    using assms
    by (simp add: claim_guess_def runs, elim exE conjE disjE;
        clarsimp simp: PairingByCodeForUpdate_def RecordClaimFailure_def runs dest!: found)
qed

text \<open>The transaction of a claim has no error of its own called \<open>ErrInvalidCode\<close>.\<close>

definition never :: "'e \<Rightarrow> ('s, 'e, 'a) op \<Rightarrow> bool" where
  "never e m \<longleftrightarrow> (\<forall>w. fst (m w) \<noteq> Inl e)"

named_theorems nevers

lemma never_rules [nevers]:
  "e' \<noteq> e \<Longrightarrow> never e (fail e')" "never e (ret x)"
  "never e m \<Longrightarrow> (\<And>x. never e (f x)) \<Longrightarrow> never e (seq m f)"
  "never e k \<Longrightarrow> never e l \<Longrightarrow> never e (if b then k else l)"
  unfolding never_def
  by (auto simp: fail_def ret_def seq_def split: prod.splits sum.splits) (metis fst_conv)+

lemma never_attempt:
  assumes "never e m" and "\<And>e'. e' \<noteq> e \<Longrightarrow> never e (f e')" and "\<And>x. never e (g x)"
  shows "never e (seq (attempt m) (\<lambda>found. case found of Inl e' \<Rightarrow> f e' | Inr x \<Rightarrow> g x))"
  using assms unfolding never_def seq_def attempt_def
  by (auto split: prod.splits sum.splits) (metis fst_conv)

lemma translateError_codes: "translateError g \<noteq> ErrInvalidCode"
  by (cases g) simp_all

lemma never_statements [nevers]:
  "never ErrInvalidCode (query q)" "never ErrInvalidCode (store put f)"
  using translateError_codes by (auto simp: never_def query_def store_def split: sum.splits)

lemma never_draw [nevers]: "never ErrInvalidCode (issueIdentifier prefix)"
  unfolding issueIdentifier_def randomBase64_def
  by (intro nevers) (auto simp: never_def draw_def split: prod.splits option.splits)

lemma claim_never: "never ErrInvalidCode (claim_transaction svc now input name code)"
proof -
  have device: "never ErrInvalidCode (claim_device now input name)"
    unfolding claim_device_def Let_def find_defs write_defs by (intro never_attempt nevers) simp_all
  have found: "never ErrInvalidCode (claim_found svc now input name p)" for p
    unfolding claim_found_def Let_def write_defs by (intro nevers device) simp_all
  have guess: "never ErrInvalidCode (claim_guess svc now input name code)"
    unfolding claim_guess_def find_defs write_defs by (intro never_attempt nevers found) simp_all
  show ?thesis
    unfolding claim_transaction_def checkClaimFailures_def find_defs write_defs
    by (intro nevers guess) simp_all
qed

text \<open>What a claim answers: its transaction committed with an outcome, or nothing changed.\<close>

lemma ClaimPairing_cases:
  assumes "ClaimPairing svc now input w = (r, w1)"
  obtains (committed) name out where
      "claim_transaction svc now input name (normalizeUserCode (crypto_of svc) (ci_UserCode input)) w = (Inr out, w1)"
      "r = (case out of ClaimWrongCode \<Rightarrow> Inl ErrInvalidCode | ClaimExpired \<Rightarrow> Inl ErrExpired | Claimed res \<Rightarrow> Inr res)"
    | (refused) e where "r = Inl e" "e \<noteq> ErrInvalidCode" "w_db w1 = w_db w"
proof (cases "normalizeName (ci_DeviceName input)")
  case None
  then show ?thesis using assms refused[of ErrInvalidInput] by (auto simp: ClaimPairing_def fail_def)
next
  case (Some name)
  let ?code = "normalizeUserCode (crypto_of svc) (ci_UserCode input)"
  show ?thesis
  proof (cases "claim_transaction svc now input name ?code w")
    case (Pair t w2)
    have "t \<noteq> Inl ErrInvalidCode" using claim_never Pair unfolding never_def by (metis fst_conv)
    then have never: "t = Inl e \<Longrightarrow> normalizeAuthorizationError e \<noteq> ErrInvalidCode" for e
      by (auto simp: normalizeAuthorizationError_def)
    show ?thesis
      using assms Some Pair never committed[of name] refused
      by (cases t) (auto simp: ClaimPairing_def Let_def evals seq_def on_error_def WithinTransaction_def
        split: if_splits claim_outcome.splits)
  qed
qed


lemma ClaimPairing_challenge:
  assumes "ClaimPairing svc now input w = (r, w1)" and "w_db w1 \<noteq> w_db w"
  obtains c where "c \<in> set (challenges (w_db w))" "ch_Hash c = hashSecret svc (pr_Challenge (ci_Proof input))"
    "ch_UsedAt c = None" "c\<lparr>ch_UsedAt := Some now\<rparr> \<in> set (challenges (w_db w1))"
proof -
  obtain name out where
    "claim_transaction svc now input name (normalizeUserCode (crypto_of svc) (ci_UserCode input)) w = (Inr out, w1)"
    using assms(1) by (cases rule: ClaimPairing_cases) (use assms(2) in auto)
  then show thesis
    by (auto simp: claim_transaction_def runs ChallengeForUpdate_def SaveChallenge_def save_row_Inr set_replace_row
      dest!: first_rowD checkClaimFailures_state claim_guess_challenges intro: that)
qed

text \<open>C2: A challenge begins at most one pairing.\<close>

theorem begin_challenge_single_use:
  assumes "reachable svc now w" and run: "BeginPairing svc now input w = (Inr r, w1)"
    and later: "conn_runs svc (now, w1) (now', w')"
    and same: "pr_Challenge (bi_Proof input') = pr_Challenge (bi_Proof input)"
  shows "\<exists>e w2. BeginPairing (with_authorizers svc account session) now' input' w' = (Inl e, w2) \<and> w_db w2 = w_db w'"
proof -
  let ?svc = "with_authorizers svc account session"
  have inv: "db_inv (w_db w)" by (rule reachable_inv[OF assms(1)])
  have inv1: "db_inv (w_db w1)"
    using BeginPairing_leaves[OF inv, of now svc input] run by (simp add: leaves_def good_step_def)
  obtain c where c: "ch_Hash c = hashSecret svc (pr_Challenge (bi_Proof input))"
      "c\<lparr>ch_UsedAt := Some now\<rparr> \<in> set (challenges (w_db w1))"
    using BeginPairing_challenge[OF run] by metis
  have "\<not> (\<exists>r' w2. BeginPairing ?svc now' input' w' = (Inr r', w2))"
    using challenge_spent_kept[OF later inv1 c(2)] c(1) same
    by (fastforce elim!: BeginPairing_challenge simp: hashSecret_def with_authorizers_def)
  then obtain e w2 where "BeginPairing ?svc now' input' w' = (Inl e, w2)"
    by (cases "BeginPairing ?svc now' input' w'"; cases "fst (BeginPairing ?svc now' input' w')") auto
  then show ?thesis using operation_error(2) by blast
qed

theorem begin_challenge_single_use_witness:
  "\<exists>e w2. BeginPairing (with_authorizers ex_service (\<lambda>_. None) (\<lambda>_ _. None)) 3 ex_begin (ex_world ex_db3 []) = (Inl e, w2) \<and>
     w_db w2 = ex_db3"
  using begin_challenge_single_use[OF ex_later[OF ex_reachable(3)] ex_run3 runs_later, of 3 ex_begin] by simp

text \<open>C3: A challenge pays for at most one claim.\<close>

theorem claim_challenge_single_use:
  assumes "reachable svc now w" and run: "ClaimPairing svc now input w = (r, w1)" "w_db w1 \<noteq> w_db w"
    and later: "conn_runs svc (now, w1) (now', w')"
    and same: "pr_Challenge (ci_Proof input') = pr_Challenge (ci_Proof input)"
  shows "\<exists>e w2. ClaimPairing (with_authorizers svc account session) now' input' w' = (Inl e, w2) \<and>
     w_db w2 = w_db w' \<and> e \<noteq> ErrInvalidCode"
proof -
  let ?svc = "with_authorizers svc account session"
  have inv: "db_inv (w_db w)" by (rule reachable_inv[OF assms(1)])
  have inv1: "db_inv (w_db w1)"
    using ClaimPairing_leaves[OF inv, of now svc input] run by (simp add: leaves_def good_step_def)
  obtain c where c: "ch_Hash c = hashSecret svc (pr_Challenge (ci_Proof input))"
      "c\<lparr>ch_UsedAt := Some now\<rparr> \<in> set (challenges (w_db w1))"
    using ClaimPairing_challenge[OF run] by metis
  have none: "\<not> claim_transaction ?svc now' input' name code w' = (Inr out, w2)" for name code out w2
    using challenge_spent_kept[OF later inv1 c(2)] c(1) same
    by (auto simp: claim_transaction_def runs ChallengeForUpdate_def hashSecret_def with_authorizers_def dest!: first_rowD)
  show ?thesis
    using none by (cases "ClaimPairing ?svc now' input' w'" rule: prod.exhaust)
      (auto elim!: ClaimPairing_cases)
qed
theorem claim_challenge_single_use_witness:
  "\<exists>e w2. ClaimPairing (with_authorizers ex_service (\<lambda>_. None) (\<lambda>_ _. None)) 4 ex_claim (ex_world ex_db4 []) = (Inl e, w2) \<and>
     w_db w2 = ex_db4 \<and> e \<noteq> ErrInvalidCode"
proof -
  have "w_db (ex_world ex_db4 []) \<noteq> w_db (ex_world ex_db3 (replicate 18 CHR ''v''))"
    by (simp add: ex_db4_def) (simp add: ex_db_defs)
  then show ?thesis
    using claim_challenge_single_use[OF ex_later[OF ex_reachable(4)] ex_run4 _ runs_later, of 4 ex_claim] by simp
qed

end
