(* ===== verification/Conn_Final.thy ===== *)
theory Conn_Final
  imports Conn_Once
begin

text \<open>
  What is final: a device an account revokes is locked out of everything, for good.
\<close>

section \<open>Revocation\<close>

text \<open>What each operation requires of the row it acts for.\<close>

definition active_device :: "conn_db \<Rightarrow> string \<Rightarrow> bool" where
  "active_device db i \<longleftrightarrow> (\<exists>d \<in> set (devices db). d_ID d = i \<and> d_RevokedAt d = None)"

definition active_connector :: "conn_db \<Rightarrow> string \<Rightarrow> bool" where
  "active_connector db i \<longleftrightarrow> (\<exists>c \<in> set (connectors db). c_ID c = i \<and> c_RevokedAt c = None)"

lemma IssueBrowserTicket_active:
  "IssueBrowserTicket svc now u s i cred e w = (Inr r, w') \<Longrightarrow> active_device (w_db w) i"
  by (auto simp: IssueBrowserTicket_def issueTicket_def issue_ticket_transaction_def client_subject_def runs
    DeviceByCredentialForUpdate_def active_device_def dest!: first_rowD)

lemma RotateDeviceCredential_active:
  "RotateDeviceCredential svc now u s i cred w = (Inr r, w') \<Longrightarrow> active_device (w_db w) i"
  by (auto simp: RotateDeviceCredential_def rotate_device_transaction_def runs
    DeviceByCredentialForUpdate_def active_device_def dest!: first_rowD)

lemma ActivateDeviceCredential_active:
  "ActivateDeviceCredential svc now u s i cred w = (Inr r, w') \<Longrightarrow> active_device (w_db w) i"
  by (auto simp: ActivateDeviceCredential_def activate_device_transaction_def runs
    DeviceByAnyCredentialForUpdate_def active_device_def dest!: first_rowD)

lemma ConsumeRelayTicket_active:
  assumes "ConsumeRelayTicket svc now ticket w = (Inr a, w')"
  shows "ad_Role a = RelayRoleClient \<Longrightarrow> active_device (w_db w) (ad_SubjectID a)"
    and "ad_Role a = RelayRoleConnector \<Longrightarrow> active_connector (w_db w) (ad_SubjectID a)"
    and "ad_Role a = RelayRoleClient \<or> ad_Role a = RelayRoleConnector"
  using assms
  by (auto simp: ConsumeRelayTicket_def consume_ticket_transaction_def ticket_identity_def runs RelayTicketForUpdate_def
    DeviceByIDForUpdate_def ConnectorByIDForUpdate_def active_device_def active_connector_def Let_def
    TrustedIdentities_def dest!: first_rowD)

lemma ValidateAdmission_active:
  assumes "ValidateAdmission svc now a w = (Inr u, w')"
  shows "ad_Role a = RelayRoleClient \<Longrightarrow> active_device (w_db w) (ad_SubjectID a)"
    and "ad_Role a = RelayRoleConnector \<Longrightarrow> active_connector (w_db w) (ad_SubjectID a)"
  using assms
  by (auto simp: ValidateAdmission_def validate_transaction_def runs
    DeviceByIDForUpdate_def ConnectorByIDForUpdate_def active_device_def active_connector_def dest!: first_rowD)

lemma OwnConnector_active:
  "OwnConnector svc now cred w = (Inr c, w') \<Longrightarrow> active_connector (w_db w) (c_ID c)"
  by (auto simp: OwnConnector_def own_connector_transaction_def runs ConnectorByCredentialForUpdate_def
    active_connector_def dest!: first_rowD)

lemma ConfirmPairing_active:
  "ConfirmPairing svc now u p i w = (Inr r, w') \<Longrightarrow> active_device (w_db w) i"
  by (auto simp: ConfirmPairing_def confirm_transaction_def if_runs on_error_runs seq_runs check_runs fail_runs
    WithinTransaction_runs PairingByIDForUpdate_def DeviceByIDForUpdate_def query_runs active_device_def dest!: first_rowD)

text \<open>A claim names a device that is active, or one it has just made.\<close>

lemma claim_device_active:
  assumes "claim_device now input name w = (Inr d, w')"
  shows "active_device (w_db w) (d_ID d) \<or> d_ID d \<notin> d_ID ` set (devices (w_db w))"
proof -
  have active: "active_device (w_db w) (d_ID d)"
    if "DeviceByKeyIDForUpdate key w = (Inr d, w1)" "d_RevokedAt d = None" for key w1
    using that by (auto simp: DeviceByKeyIDForUpdate_def query_runs active_device_def dest!: first_rowD)
  have fresh: "d_ID q \<noteq> d_ID d"
    if "CreateDevice d w1 = (Inr (), w2)" "w_db w1 = w_db w" "q \<in> set (devices (w_db w))" for q w1 w2
    using that by (auto simp: CreateDevice_def store_runs create_row_def device_clash_def split: if_splits)
  have same: "w_db w1 = w_db w"
    if "DeviceByKeyIDForUpdate key w = (r, w1)" for key r w1
    using that by (auto simp: DeviceByKeyIDForUpdate_def query_def split: sum.splits)
  from assms obtain found w1 where found: "DeviceByKeyIDForUpdate (i_KeyID (ci_Identity input)) w = (found, w1)"
    and rest: "(case found of
       Inl e \<Rightarrow>
         (if e = ErrNotFound then
            seq (issueIdentifier ''dev_'') (\<lambda>deviceID.
            let device = \<lparr> d_ID = deviceID, d_UserID = ci_UserID input, d_Name = name,
              d_Identity = ci_Identity input, d_CredentialHash = None, d_CredentialExpiresAt = None,
              d_PendingCredentialHash = None, d_PendingCredentialExpiresAt = None,
              d_CreatedAt = now, d_ActivatedAt = None, d_RevokedAt = None \<rparr> in
            seq (CreateDevice device) (\<lambda>_. ret device))
          else fail e)
     | Inr device \<Rightarrow>
         (if d_UserID device \<noteq> ci_UserID input \<or> d_RevokedAt device \<noteq> None \<or>
             i_PublicKey (d_Identity device) \<noteq> i_PublicKey (ci_Identity input)
          then fail ErrConflict else ret device)) w1 = (Inr d, w')"
    unfolding claim_device_def seq_runs attempt_runs by auto
  show ?thesis
  proof (cases found)
    case (Inl e)
    with rest obtain w2 w3 where "CreateDevice d w2 = (Inr (), w3)" "w_db w2 = w_db w1"
      by (auto simp: if_runs seq_runs ret_runs fail_runs let_runs issue_runs)
    with fresh same[OF found] show ?thesis by fastforce
  next
    case (Inr q)
    with rest have "q = d" "d_RevokedAt d = None" by (auto simp: if_runs ret_runs fail_runs)
    with active Inr found show ?thesis by blast
  qed
qed

lemma claim_outcome_runs:
  "(case v of ClaimWrongCode \<Rightarrow> m | ClaimExpired \<Rightarrow> n | Claimed x \<Rightarrow> f x) w = r \<longleftrightarrow>
     (v = ClaimWrongCode \<and> m w = r \<or> v = ClaimExpired \<and> n w = r \<or> (\<exists>x. v = Claimed x \<and> f x w = r))"
  by (cases v) auto

lemma ClaimPairing_active:
  assumes "ClaimPairing svc now input w = (Inr r, w')"
  shows "active_device (w_db w) (clr_DeviceID r) \<or> clr_DeviceID r \<notin> d_ID ` set (devices (w_db w))"
proof -
  from assms obtain name code outcome w2 where "claim_transaction svc now input name code w = (Inr outcome, w2)"
    and "outcome = Claimed r"
    by (auto simp: ClaimPairing_def option_runs if_runs seq_runs ret_runs fail_runs let_runs on_error_runs
      WithinTransaction_runs claim_outcome_runs)
  then have "claim_transaction svc now input name code w = (Inr (Claimed r), w2)" by simp
  then obtain challenge w3 where saved: "SaveChallenge challenge w = (Inr (), w3)"
    and guess: "claim_guess svc now input name code w3 = (Inr (Claimed r), w2)"
    by (auto simp: claim_transaction_def if_runs seq_runs ret_runs fail_runs let_runs checkClaimFailures_def
      ChallengeForUpdate_def ClaimFailuresForUpdate_def query_runs)
  have devices: "devices (w_db w3) = devices (w_db w)" using saved by (auto simp: SaveChallenge_def store_runs)
  from guess obtain pairing w4 where "claim_found svc now input name pairing w4 = (Inr (Claimed r), w2)" "w_db w4 = w_db w3"
    by (auto simp: claim_guess_def PairingByCodeForUpdate_def attempt_runs seq_runs sum_runs if_runs ret_runs fail_runs query_def
      split: sum.splits)
  then obtain d w5 where "claim_device now input name w4 = (Inr d, w5)" "d_ID d = clr_DeviceID r"
    by (auto simp: claim_found_def seq_runs if_runs ret_runs fail_runs let_runs)
  then show ?thesis
    using claim_device_active \<open>w_db w4 = w_db w3\<close> devices by (fastforce simp: active_device_def)
qed

text \<open>A revoked device stays revoked, and there is no other of its name.\<close>

lemma revoked_device_inactive:
  assumes runs: "conn_runs svc (now, w) (now', w')" and inv: "db_inv (w_db w)"
    and d: "d \<in> set (devices (w_db w))" "d_RevokedAt d \<noteq> None"
  shows "\<not> active_device (w_db w') (d_ID d)"
proof
  assume "active_device (w_db w') (d_ID d)"
  then obtain q where q: "q \<in> set (devices (w_db w'))" "d_ID q = d_ID d" "d_RevokedAt q = None"
    by (auto simp: active_device_def)
  have inv': "db_inv (w_db w')" using conn_runs_inv(1)[OF runs] inv by simp
  have "q = d"
    by (rule device_table.wf_key[OF db_invD(3)[OF inv'] q(1) revoked_device_final[OF runs inv d] q(2)])
  then show False using q(3) d(2) by simp
qed

lemma AppendAuditEvent_devices: "AppendAuditEvent e w = (r, w') \<Longrightarrow> devices (w_db w') = devices (w_db w) \<and> w_revoked w' = w_revoked w"
  by (auto simp: AppendAuditEvent_def store_def split: sum.splits)

lemma RevokeDeviceTrust_devices: "RevokeDeviceTrust u i now w = (r, w') \<Longrightarrow> devices (w_db w') = devices (w_db w) \<and> w_revoked w' = w_revoked w"
  by (auto simp: RevokeDeviceTrust_def store_def split: sum.splits)

lemma SaveDevice_devices:
  "SaveDevice d w = (Inr u, w') \<Longrightarrow> devices (w_db w') = replace_row d_ID d (devices (w_db w)) \<and> w_revoked w' = w_revoked w"
  by (auto simp: SaveDevice_def store_def save_row_Inr split: sum.splits)

lemma revoke_account_device_saves:
  assumes run: "revoke_account_device_transaction now u i w = (Inr (), w')"
  shows "(\<exists>d \<in> set (devices (w_db w')). d_ID d = i \<and> d_RevokedAt d \<noteq> None) \<and> w_revoked w' = w_revoked w"
proof -
  from run obtain d where find: "DeviceByIDForUpdate i w = (Inr d, w)"
    and rest: "d_RevokedAt d \<noteq> None \<and> w' = w \<or>
      (\<exists>w1 w2. SaveDevice (d\<lparr>d_RevokedAt := Some now, d_PendingCredentialHash := None,
           d_PendingCredentialExpiresAt := None\<rparr>) w = (Inr (), w1)
        \<and> RevokeDeviceTrust u (d_ID d) now w1 = (Inr (), w2)
        \<and> AppendAuditEvent \<lparr> a_UserID = Some (d_UserID d), a_DeviceID = Some (d_ID d),
       a_ConnectorID = None, a_PairingID = None, a_EventType = ''device.revoked'',
       a_OccurredAt = now \<rparr> w2 = (Inr (), w'))"
    by (auto simp: revoke_account_device_transaction_def seq_runs if_runs fail_runs ret_runs DeviceByIDForUpdate_def query_runs)
  have d: "d \<in> set (devices (w_db w))" "d_ID d = i"
    using find by (auto simp: DeviceByIDForUpdate_def query_runs dest!: first_rowD)
  from rest show ?thesis
  proof
    assume "d_RevokedAt d \<noteq> None \<and> w' = w"
    then show ?thesis using d by auto
  next
    assume "\<exists>w1 w2. SaveDevice (d\<lparr>d_RevokedAt := Some now, d_PendingCredentialHash := None,
           d_PendingCredentialExpiresAt := None\<rparr>) w = (Inr (), w1)
        \<and> RevokeDeviceTrust u (d_ID d) now w1 = (Inr (), w2)
        \<and> AppendAuditEvent \<lparr> a_UserID = Some (d_UserID d), a_DeviceID = Some (d_ID d),
       a_ConnectorID = None, a_PairingID = None, a_EventType = ''device.revoked'',
       a_OccurredAt = now \<rparr> w2 = (Inr (), w')"
    then have "devices (w_db w') = replace_row d_ID (d\<lparr>d_RevokedAt := Some now, d_PendingCredentialHash := None,
           d_PendingCredentialExpiresAt := None\<rparr>) (devices (w_db w)) \<and> w_revoked w' = w_revoked w"
      by (metis SaveDevice_devices RevokeDeviceTrust_devices AppendAuditEvent_devices)
    then show ?thesis using d(2) by (auto intro!: bexI[OF _ replace_row_in])
  qed
qed

lemma RevokeAccountDevice_revokes:
  assumes run: "RevokeAccountDevice svc now u i w = (Inr (), w')"
  shows "\<exists>d \<in> set (devices (w_db w')). d_ID d = i \<and> d_RevokedAt d \<noteq> None"
    and "w_revoked w' = w_revoked w @ [\<lparr> rv_UserID = u, rv_ConnectorID = [], rv_DeviceID = i, rv_SessionID = [] \<rparr>]"
    and "u \<noteq> [] \<and> i \<noteq> []"
  using run
  by (auto simp: RevokeAccountDevice_def seq_runs if_runs fail_runs WithinTransaction_runs onRevoked_def
    dest!: revoke_account_device_saves)

section \<open>The lock-out\<close>

text \<open>Every request a revoked device could make, and every socket it could hold.\<close>

definition acts_as_device :: "conn_service \<Rightarrow> instant \<Rightarrow> conn_world \<Rightarrow> string \<Rightarrow> bool" where
  "acts_as_device svc now w i \<longleftrightarrow>
     (\<exists>u s cred e r w'. IssueBrowserTicket svc now u s i cred e w = (Inr r, w'))
   \<or> (\<exists>u s cred r w'. RotateDeviceCredential svc now u s i cred w = (Inr r, w'))
   \<or> (\<exists>u s cred r w'. ActivateDeviceCredential svc now u s i cred w = (Inr r, w'))
   \<or> (\<exists>ticket a w'. ConsumeRelayTicket svc now ticket w = (Inr a, w')
        \<and> ad_Role a = RelayRoleClient \<and> ad_SubjectID a = i)
   \<or> (\<exists>a r w'. ValidateAdmission svc now a w = (Inr r, w')
        \<and> ad_Role a = RelayRoleClient \<and> ad_SubjectID a = i)
   \<or> (\<exists>u p r w'. ConfirmPairing svc now u p i w = (Inr r, w'))
   \<or> (\<exists>input r w'. ClaimPairing svc now input w = (Inr r, w') \<and> clr_DeviceID r = i)"

lemma acting_device_active:
  assumes "acts_as_device svc now w i"
  shows "active_device (w_db w) i \<or> i \<notin> d_ID ` set (devices (w_db w))"
  using assms unfolding acts_as_device_def
  using IssueBrowserTicket_active RotateDeviceCredential_active ActivateDeviceCredential_active
    ConsumeRelayTicket_active(1) ValidateAdmission_active(1) ConfirmPairing_active ClaimPairing_active by metis

text \<open>
  C8: a device an account has revoked is locked out for good: whatever the server does afterwards,
  no request for a relay ticket, for a new credential or for the activation of one succeeds for
  it, no pairing is claimed for it or confirmed for it (which would hand it a credential), none of
  the tickets it still holds admits a socket, and no socket it still has passes its
  revalidation; and the revocation the service announces covers every socket the account's device
  was admitted with.
\<close>

theorem revoked_device_locked_out:
  assumes "reachable svc now w"
    and run: "RevokeAccountDevice svc now u i w = (Inr (), w1)"
    and runs: "conn_runs svc (now, w1) (now', w')"
  shows "\<not> acts_as_device svc now' w' i
    \<and> (\<nexists>a. ad_Role a = RelayRoleClient \<and> ad_UserID a = u \<and> ad_SubjectID a = i
         \<and> \<not> Covers (last (w_revoked w1)) a)"
proof
  have inv: "db_inv (w_db w)" using assms(1) by (rule reachable_inv)
  have "db_inv (w_db w1)"
    using RevokeAccountDevice_leaves[OF inv, of now svc u i] inv run by (auto simp: leaves_def good_step_def)
  moreover obtain d where "d \<in> set (devices (w_db w1))" "d_ID d = i" "d_RevokedAt d \<noteq> None"
    using RevokeAccountDevice_revokes(1)[OF run] by blast
  ultimately have "\<not> active_device (w_db w') i" "i \<in> d_ID ` set (devices (w_db w'))"
    using revoked_device_inactive[OF runs] revoked_device_final[OF runs] by blast+
  then show "\<not> acts_as_device svc now' w' i" using acting_device_active by blast
  show "\<nexists>a. ad_Role a = RelayRoleClient \<and> ad_UserID a = u \<and> ad_SubjectID a = i
      \<and> \<not> Covers (last (w_revoked w1)) a"
    using RevokeAccountDevice_revokes(3)[OF run] by (simp add: RevokeAccountDevice_revokes(2)[OF run] Covers_def)
qed

lemma ex_revoke_run:
  "\<exists>w1. RevokeAccountDevice ex_service 7 ''user'' (d_ID ex_device) (ex_world ex_db7 []) = (Inr (), w1)"
  by (simp add: RevokeAccountDevice_def revoke_account_device_transaction_def ex_run_defs ex_db_defs ex_db5_def
    ex_db6_def ex_db7_def ex_row_defs ex_active_def RevokeDeviceTrust_def SaveDevice_def save_row_def
    AppendAuditEvent_def onRevoked_def device_valid_def)

lemma revoked_device_locked_out_witness:
  "\<exists>w1. RevokeAccountDevice ex_service 7 ''user'' (d_ID ex_device) (ex_world ex_db7 []) = (Inr (), w1)
    \<and> \<not> acts_as_device ex_service 9 w1 (d_ID ex_device)"
proof -
  obtain w1 where run: "RevokeAccountDevice ex_service 7 ''user'' (d_ID ex_device) (ex_world ex_db7 []) = (Inr (), w1)"
    using ex_revoke_run by blast
  have "reachable ex_service 7 (ex_world ex_db7 [])" using ex_reachable(8) by (rule ex_later) simp
  from revoked_device_locked_out[OF this run runs_later[of 7 9]] run show ?thesis by auto
qed

section \<open>What a stored record may say\<close>

text \<open>
  C12: in every reachable state the connectors' records fit together.  What a pairing names goes with the
  state it is in, and none is ever left in the confirmed one; a trust joins a device and a connector of
  its own account, and while it is live the device is not revoked.
\<close>

theorem connectors_well_typed:
  assumes "reachable svc now w"
  shows "(\<forall>p \<in> set (pairings (w_db w)). case p_State p of
      PairingStatePending \<Rightarrow> p_UserID p = None \<and> p_DeviceID p = None \<and> p_ConnectorID p = None \<and> p_ConnectorReviewedAt p = None
    | PairingStateVerification \<Rightarrow> p_UserID p \<noteq> None \<and> p_DeviceID p \<noteq> None \<and> p_ConnectorID p = None
    | PairingStateConfirmed \<Rightarrow> False
    | PairingStateCompleted \<Rightarrow> p_UserID p \<noteq> None \<and> p_DeviceID p \<noteq> None \<and> p_ConnectorID p \<noteq> None
        \<and> p_ConnectorReviewedAt p \<noteq> None \<and> length (slice (p_DeviceCredentialSeed p)) = deviceCredentialSeedLength
    | PairingStateExpired \<Rightarrow> p_UserID p = None \<longleftrightarrow> p_DeviceID p = None)
  \<and> (\<forall>t \<in> set (trusts (w_db w)). \<exists>d \<in> set (devices (w_db w)). \<exists>c \<in> set (connectors (w_db w)).
      d_ID d = t_DeviceID t \<and> c_ID c = t_ConnectorID t \<and> d_UserID d = t_UserID t \<and> c_UserID c = t_UserID t
      \<and> (\<not> trust_live t \<or> d_RevokedAt d = None))"
proof
  have inv: "db_inv (w_db w)" using assms by (rule reachable_inv)
  then have bound: "pairing_bound p" if "p \<in> set (pairings (w_db w))" for p using that by (simp add: db_inv_def)
  show "\<forall>p \<in> set (pairings (w_db w)). case p_State p of
      PairingStatePending \<Rightarrow> p_UserID p = None \<and> p_DeviceID p = None \<and> p_ConnectorID p = None \<and> p_ConnectorReviewedAt p = None
    | PairingStateVerification \<Rightarrow> p_UserID p \<noteq> None \<and> p_DeviceID p \<noteq> None \<and> p_ConnectorID p = None
    | PairingStateConfirmed \<Rightarrow> False
    | PairingStateCompleted \<Rightarrow> p_UserID p \<noteq> None \<and> p_DeviceID p \<noteq> None \<and> p_ConnectorID p \<noteq> None
        \<and> p_ConnectorReviewedAt p \<noteq> None \<and> length (slice (p_DeviceCredentialSeed p)) = deviceCredentialSeedLength
    | PairingStateExpired \<Rightarrow> p_UserID p = None \<longleftrightarrow> p_DeviceID p = None"
    by (intro ballI, drule bound, rename_tac p, case_tac "p_UserID p") (auto simp: pairing_bound_def split: pairing_state.split)
  show "\<forall>t \<in> set (trusts (w_db w)). \<exists>d \<in> set (devices (w_db w)). \<exists>c \<in> set (connectors (w_db w)).
      d_ID d = t_DeviceID t \<and> c_ID c = t_ConnectorID t \<and> d_UserID d = t_UserID t \<and> c_UserID c = t_UserID t
      \<and> (\<not> trust_live t \<or> d_RevokedAt d = None)"
    using inv unfolding db_inv_def trust_grounded_def by blast
qed

lemma connectors_well_typed_witness:
  "\<exists>d \<in> set (devices ex_db7). \<exists>c \<in> set (connectors ex_db7). d_ID d = t_DeviceID ex_trust \<and> c_ID c = t_ConnectorID ex_trust
     \<and> d_UserID d = c_UserID c"
proof -
  have "ex_trust \<in> set (trusts (w_db (ex_world ex_db7 [])))" by (simp add: ex_db7_def ex_db6_def ex_world_def)
  moreover have "devices (w_db (ex_world ex_db7 [])) = devices ex_db7" "connectors (w_db (ex_world ex_db7 [])) = connectors ex_db7"
    by (simp_all add: ex_world_def)
  ultimately show ?thesis using connectors_well_typed[OF ex_reachable(8)] by metis
qed

end
