(* ===== verification/Go_Net.thy ===== *)
theory Go_Net
  imports Go_Lib
begin

text \<open>
  The parts of Go's \<open>net\<close> and \<open>strings\<close> that name a client's network: \<open>net.ParseIP\<close>, \<open>net.IPNet\<close>,
  \<open>IP.String\<close>, \<open>net.SplitHostPort\<close> and \<open>strings.Split\<close>.  An address is its 16 bytes.
\<close>

type_synonym ip = "nat list"

section \<open>Splitting\<close>

fun Split :: "char \<Rightarrow> string \<Rightarrow> string list" where
  "Split c [] = [[]]"
| "Split c (x # s) = (if x = c then [] # Split c s
     else (case Split c s of [] \<Rightarrow> [[x]] | part # parts \<Rightarrow> (x # part) # parts))"

lemma Split_nonempty [simp]: "Split c s \<noteq> []"
  by (cases s) (auto split: list.splits)

lemma Split_append: "Split c (s @ c # t) = Split c s @ Split c t"
  by (induction s) (auto split: list.splits)

lemma Split_plain: "c \<notin> set s \<Longrightarrow> Split c s = [s]"
  by (induction s) auto

text \<open>\<open>net.SplitHostPort\<close>, with the address before the last colon; \<open>None\<close> is its error.\<close>

definition last_colon :: "string \<Rightarrow> nat option" where
  "last_colon s = (case filter (\<lambda>i. s ! i = CHR '':'') (rev [0..<length s]) of [] \<Rightarrow> None | i # _ \<Rightarrow> Some i)"

definition SplitHostPort :: "string \<Rightarrow> (string \<times> string) option" where
  "SplitHostPort s = (case last_colon s of None \<Rightarrow> None | Some i \<Rightarrow>
     if take 1 s = ''['' then
       let inner = takeWhile (\<lambda>c. c \<noteq> CHR '']'') s in
       if length inner = length s then None
       else if Suc (length inner) \<noteq> i then None
       else if CHR ''['' \<in> set (drop 1 s) \<or> CHR '']'' \<in> set (drop (Suc (length inner)) s) then None
       else Some (drop 1 inner, drop (Suc i) s)
     else
       let host = take i s in
       if CHR '':'' \<in> set host then None
       else if CHR ''['' \<in> set s \<or> CHR '']'' \<in> set s then None
       else Some (host, drop (Suc i) s))"

section \<open>Addresses\<close>

definition decimal_digit :: "char \<Rightarrow> bool" where
  "decimal_digit c \<longleftrightarrow> 48 \<le> byte_nat c \<and> byte_nat c \<le> 57"

definition decimal_value :: "string \<Rightarrow> nat" where
  "decimal_value s = foldl (\<lambda>n c. n * 10 + (byte_nat c - 48)) 0 s"

definition parse_octet :: "string \<Rightarrow> nat option" where
  "parse_octet s =
     (if s = [] \<or> \<not> list_all decimal_digit s \<or> (1 < length s \<and> hd s = CHR ''0'') \<or> 255 < decimal_value s
      then None else Some (decimal_value s))"

definition parseIPv4 :: "string \<Rightarrow> nat list option" where
  "parseIPv4 s = (case map parse_octet (Split (CHR ''.'') s) of
     [Some a, Some b, Some c, Some d] \<Rightarrow> Some [a, b, c, d] | _ \<Rightarrow> None)"

definition hex_value :: "char \<Rightarrow> nat option" where
  "hex_value c = (let n = byte_nat c in
     if 48 \<le> n \<and> n \<le> 57 then Some (n - 48)
     else if 97 \<le> n \<and> n \<le> 102 then Some (n - 87)
     else if 65 \<le> n \<and> n \<le> 70 then Some (n - 55)
     else None)"

definition hex_number :: "string \<Rightarrow> nat" where
  "hex_number s = foldl (\<lambda>n c. n * 16 + the (hex_value c)) 0 s"

text \<open>
  The groups of an IPv6 address, at most \<open>n\<close> of them: the bytes so far, where the ellipsis stands, and
  the rest of the text.
\<close>

fun parse_groups :: "nat \<Rightarrow> nat list \<Rightarrow> nat option \<Rightarrow> string \<Rightarrow> (nat list \<times> nat option) option" where
  "parse_groups 0 bs ellipsis s = (if s = [] then Some (bs, ellipsis) else None)"
| "parse_groups (Suc n) bs ellipsis s =
     (let digits = takeWhile (\<lambda>c. hex_value c \<noteq> None) s; rest = drop (length digits) s in
      if digits = [] \<or> 4 < length digits then None
      else if take 1 rest = ''.'' then
        (if ellipsis = None \<and> length bs \<noteq> 12 then None
         else if 16 < length bs + 4 then None
         else map_option (\<lambda>q. (bs @ q, ellipsis)) (parseIPv4 s))
      else
        let bs = bs @ [hex_number digits div 256, hex_number digits mod 256] in
        if rest = [] then Some (bs, ellipsis)
        else if hd rest \<noteq> CHR '':'' \<or> length rest = 1 then None
        else if hd (tl rest) = CHR '':'' then
          (if ellipsis \<noteq> None then None
           else if tl (tl rest) = [] then Some (bs, Some (length bs))
           else parse_groups n bs (Some (length bs)) (tl (tl rest)))
        else parse_groups n bs ellipsis (tl rest))"

definition parseIPv6 :: "string \<Rightarrow> ip option" where
  "parseIPv6 s =
     (if CHR ''%'' \<in> set s then None
      else
        let front = (take 2 s = ''::'') in
        if front \<and> length s = 2 then Some (replicate 16 0)
        else case parse_groups 8 [] (if front then Some 0 else None) (if front then drop 2 s else s) of
          None \<Rightarrow> None
        | Some (bs, ellipsis) \<Rightarrow>
            (if length bs < 16 then
               (case ellipsis of None \<Rightarrow> None
                | Some i \<Rightarrow> Some (take i bs @ replicate (16 - length bs) 0 @ drop i bs))
             else if ellipsis \<noteq> None then None
             else Some bs))"

definition v4InV6Prefix :: "nat list" where
  "v4InV6Prefix = replicate 10 0 @ [255, 255]"

text \<open>An address with a zone is refused, as \<open>net.ParseIP\<close> does.\<close>

definition ParseIP :: "string \<Rightarrow> ip option" where
  "ParseIP s = (case filter (\<lambda>c. c = CHR ''.'' \<or> c = CHR '':'' \<or> c = CHR ''%'') s of
     [] \<Rightarrow> None
   | c # _ \<Rightarrow>
       if c = CHR ''.'' then map_option (\<lambda>q. v4InV6Prefix @ q) (parseIPv4 s)
       else if c = CHR '':'' then parseIPv6 s
       else None)"

definition To4 :: "ip \<Rightarrow> nat list option" where
  "To4 a = (if length a = 4 then Some a
     else if length a = 16 \<and> take 12 a = v4InV6Prefix then Some (drop 12 a) else None)"

record ip_net =
  net_IP :: "nat list"
  net_Mask :: "nat list"

definition networkNumberAndMask :: "ip_net \<Rightarrow> (nat list \<times> nat list) option" where
  "networkNumberAndMask n =
     (case (case To4 (net_IP n) of Some q \<Rightarrow> Some q
            | None \<Rightarrow> if length (net_IP n) = 16 then Some (net_IP n) else None) of
        None \<Rightarrow> None
      | Some a \<Rightarrow>
          if length (net_Mask n) = 4 then (if length a = 4 then Some (a, net_Mask n) else None)
          else if length (net_Mask n) = 16 then
            Some (a, if length a = 4 then drop 12 (net_Mask n) else net_Mask n)
          else None)"

definition Contains :: "ip_net \<Rightarrow> ip \<Rightarrow> bool" where
  "Contains n a = (case networkNumberAndMask n of
     None \<Rightarrow> False
   | Some (nn, m) \<Rightarrow>
       (let b = (case To4 a of Some q \<Rightarrow> q | None \<Rightarrow> a) in
        length b = length nn \<and> list_all (\<lambda>i. (nn ! i) AND (m ! i) = (b ! i) AND (m ! i)) [0..<length b]))"

section \<open>The text of an IPv6 network\<close>

fun hex_digits :: "nat \<Rightarrow> string" where
  "hex_digits n = (if n < 16 then [''0123456789abcdef'' ! n] else hex_digits (n div 16) @ [''0123456789abcdef'' ! (n mod 16)])"

declare hex_digits.simps [simp del]

fun groups16 :: "nat list \<Rightarrow> nat list" where
  "groups16 (a # b # r) = (a * 256 + b) # groups16 r"
| "groups16 _ = []"

fun join_groups :: "nat list \<Rightarrow> string" where
  "join_groups [] = []"
| "join_groups [g] = hex_digits g"
| "join_groups (g # gs) = hex_digits g @ '':'' @ join_groups gs"

definition zero_run :: "nat list \<Rightarrow> nat \<Rightarrow> nat" where
  "zero_run gs i = length (takeWhile (\<lambda>g. g = 0) (drop i gs))"

text \<open>The longest run of at least two zero groups, the first of equals, as its start and end.\<close>

definition longest_run :: "nat list \<Rightarrow> (nat \<times> nat) option" where
  "longest_run gs = foldl (\<lambda>best i.
     let l = zero_run gs i in
     if 2 \<le> l \<and> (case best of None \<Rightarrow> True | Some (s, e) \<Rightarrow> e - s < l) then Some (i, i + l) else best)
     None [0..<length gs]"

definition ip6_string :: "ip \<Rightarrow> string" where
  "ip6_string a = (let gs = groups16 a in case longest_run gs of
     None \<Rightarrow> join_groups gs
   | Some (s, e) \<Rightarrow> join_groups (take s gs) @ ''::'' @ join_groups (drop e gs))"

end
