(* ===== verification/Client_Address.thy ===== *)
theory Client_Address
  imports Go_Net
begin

text \<open>
  Whom a request is counted against (\<open>internal/platform/httpserver/rate_limit.go\<close>): the client address
  behind trusted proxies, and the network it is reduced to.  A request is its remote address and the
  values of its \<open>X-Forwarded-For\<close> header.
\<close>

record http_request =
  RemoteAddr :: string
  forwarded_for :: "string list"

definition ipInNetworks :: "ip \<Rightarrow> ip_net list \<Rightarrow> bool" where
  "ipInNetworks a networks = list_ex (\<lambda>n. Contains n a) networks"

definition remoteHost :: "string \<Rightarrow> string" where
  "remoteHost address = (case SplitHostPort address of Some (host, _) \<Rightarrow> host | None \<Rightarrow> address)"

text \<open>The loop over the forwarded addresses, from the last to the first.\<close>

fun forwarded_client :: "string \<Rightarrow> ip_net list \<Rightarrow> string list \<Rightarrow> string" where
  "forwarded_client peer trusted [] = peer"
| "forwarded_client peer trusted (part # parts) =
     (let address = TrimSpace part in
      case ParseIP address of
        None \<Rightarrow> peer
      | Some a \<Rightarrow> if \<not> ipInNetworks a trusted then address else forwarded_client peer trusted parts)"

definition ClientAddress :: "http_request \<Rightarrow> ip_net list \<Rightarrow> string" where
  "ClientAddress request trustedProxies =
     (let peer = remoteHost (RemoteAddr request) in
      case ParseIP peer of
        None \<Rightarrow> peer
      | Some a \<Rightarrow>
          if \<not> ipInNetworks a trustedProxies then peer
          else (case forwarded_for request of
              [header] \<Rightarrow> forwarded_client peer trustedProxies (rev (Split (CHR '','') header))
            | _ \<Rightarrow> peer))"

definition RateLimitKey :: "http_request \<Rightarrow> ip_net list \<Rightarrow> string" where
  "RateLimitKey request trustedProxies =
     (let address = ClientAddress request trustedProxies in
      case ParseIP address of
        None \<Rightarrow> address
      | Some a \<Rightarrow> if To4 a \<noteq> None then address else ip6_string (take 8 a @ replicate 8 0) @ ''/64'')"

definition ex_proxies :: "ip_net list" where
  "ex_proxies = [\<lparr> net_IP = [10, 0, 0, 0], net_Mask = [255, 0, 0, 0] \<rparr>]"

text \<open>What trusted proxies appended to a forwarded header is passed over from the back.\<close>

definition trusted_address :: "ip_net list \<Rightarrow> string \<Rightarrow> bool" where
  "trusted_address trusted part = (case ParseIP (TrimSpace part) of None \<Rightarrow> False | Some a \<Rightarrow> ipInNetworks a trusted)"

lemma trusted_hops_passed:
  "\<forall>h \<in> set hops. trusted_address trusted h \<Longrightarrow>
   forwarded_client peer trusted (hops @ parts) = forwarded_client peer trusted parts"
  by (induction hops) (auto simp: Let_def trusted_address_def split: option.splits)

lemma Split_hops:
  assumes "\<forall>h \<in> set hops. CHR '','' \<notin> set h" and "CHR '','' \<notin> set address"
  shows "Split (CHR '','') (address @ concat (map (\<lambda>h. CHR '','' # h) hops)) = address # hops"
  using assms
proof (induction hops rule: rev_induct)
  case (snoc h hops)
  have "Split (CHR '','') ((address @ concat (map (\<lambda>h. CHR '','' # h) hops)) @ CHR '','' # h) =
    Split (CHR '','') (address @ concat (map (\<lambda>h. CHR '','' # h) hops)) @ Split (CHR '','') h"
    by (rule Split_append)
  with snoc show ?case by (simp add: Split_plain)
qed (simp add: Split_plain)

text \<open>
  C22: a client cannot choose whom its requests count against.  When the peer is no trusted proxy, or the
  header \<open>X-Forwarded-For\<close> does not come as exactly one line, its requests count against the peer,
  whatever they forward.  When the peer is a trusted proxy and the header is one line, the last part of it
  that is no trusted proxy decides, whatever the client wrote before it: they count against that address, or
  against the peer if it is no address.
\<close>

theorem forwarded_prefix_ignored:
  "((\<forall>a. ParseIP (remoteHost peer) = Some a \<longrightarrow> \<not> ipInNetworks a trusted) \<or> length headers \<noteq> 1 \<longrightarrow>
      ClientAddress \<lparr> RemoteAddr = peer, forwarded_for = headers \<rparr> trusted = remoteHost peer)
   \<and> ((\<exists>p. ParseIP (remoteHost peer) = Some p \<and> ipInNetworks p trusted)
      \<and> CHR '','' \<notin> set address \<and> (\<forall>c. ParseIP (TrimSpace address) = Some c \<longrightarrow> \<not> ipInNetworks c trusted)
      \<and> (\<forall>h \<in> set hops. CHR '','' \<notin> set h \<and> (\<exists>a. ParseIP (TrimSpace h) = Some a \<and> ipInNetworks a trusted))
      \<and> (before = [] \<or> (\<exists>forged. before = forged @ '','')) \<longrightarrow>
      ClientAddress \<lparr> RemoteAddr = peer, forwarded_for = [before @ address @ concat (map (\<lambda>h. CHR '','' # h) hops)] \<rparr> trusted =
        (if ParseIP (TrimSpace address) = None then remoteHost peer else TrimSpace address))"
proof (intro conjI impI)
  assume "(\<forall>a. ParseIP (remoteHost peer) = Some a \<longrightarrow> \<not> ipInNetworks a trusted) \<or> length headers \<noteq> 1"
  then show "ClientAddress \<lparr> RemoteAddr = peer, forwarded_for = headers \<rparr> trusted = remoteHost peer"
    by (auto simp: ClientAddress_def Let_def split: option.splits list.splits)
next
  let ?header = "before @ address @ concat (map (\<lambda>h. CHR '','' # h) hops)"
  assume given: "(\<exists>p. ParseIP (remoteHost peer) = Some p \<and> ipInNetworks p trusted)
      \<and> CHR '','' \<notin> set address \<and> (\<forall>c. ParseIP (TrimSpace address) = Some c \<longrightarrow> \<not> ipInNetworks c trusted)
      \<and> (\<forall>h \<in> set hops. CHR '','' \<notin> set h \<and> (\<exists>a. ParseIP (TrimSpace h) = Some a \<and> ipInNetworks a trusted))
      \<and> (before = [] \<or> (\<exists>forged. before = forged @ '',''))"
  then obtain others where split: "Split (CHR '','') ?header = others @ address # hops"
    by (auto simp: Split_append Split_hops)
  have "forwarded_client (remoteHost peer) trusted (rev hops @ parts) = forwarded_client (remoteHost peer) trusted parts" for parts
    using given by (intro trusted_hops_passed) (auto simp: trusted_address_def)
  then show "ClientAddress \<lparr> RemoteAddr = peer, forwarded_for = [?header] \<rparr> trusted =
        (if ParseIP (TrimSpace address) = None then remoteHost peer else TrimSpace address)"
    using given by (auto simp: ClientAddress_def Let_def split split: option.split)
qed

theorem forwarded_prefix_ignored_witness:
  "ClientAddress \<lparr> RemoteAddr = ''203.0.113.7:4000'', forwarded_for = [''198.51.100.1''] \<rparr> ex_proxies = ''203.0.113.7''
   \<and> ClientAddress \<lparr> RemoteAddr = ''10.0.0.1:80'', forwarded_for = [''1.1.1.1'', ''2.2.2.2''] \<rparr> ex_proxies = ''10.0.0.1''
   \<and> ClientAddress \<lparr> RemoteAddr = ''10.0.0.1:80'', forwarded_for = [''1.1.1.1, 203.0.113.7, 10.0.0.2''] \<rparr> ex_proxies = ''203.0.113.7''"
proof (intro conjI)
  have "remoteHost ''203.0.113.7:4000'' = ''203.0.113.7''" "ParseIP ''203.0.113.7'' = Some (v4InV6Prefix @ [203, 0, 113, 7])"
    "\<not> ipInNetworks (v4InV6Prefix @ [203, 0, 113, 7]) ex_proxies"
    by code_simp+
  then show "ClientAddress \<lparr> RemoteAddr = ''203.0.113.7:4000'', forwarded_for = [''198.51.100.1''] \<rparr> ex_proxies = ''203.0.113.7''"
    using forwarded_prefix_ignored[of "''203.0.113.7:4000''" ex_proxies "[''198.51.100.1'']"] by simp
next
  have "remoteHost ''10.0.0.1:80'' = ''10.0.0.1''" by code_simp
  then show "ClientAddress \<lparr> RemoteAddr = ''10.0.0.1:80'', forwarded_for = [''1.1.1.1'', ''2.2.2.2''] \<rparr> ex_proxies = ''10.0.0.1''"
    using forwarded_prefix_ignored[of "''10.0.0.1:80''" ex_proxies "[''1.1.1.1'', ''2.2.2.2'']"] by simp
next
  have *: "ParseIP (remoteHost ''10.0.0.1:80'') = Some (v4InV6Prefix @ [10, 0, 0, 1])" "ipInNetworks (v4InV6Prefix @ [10, 0, 0, 1]) ex_proxies"
    "ParseIP (TrimSpace '' 203.0.113.7'') = Some (v4InV6Prefix @ [203, 0, 113, 7])" "TrimSpace '' 203.0.113.7'' = ''203.0.113.7''"
    "\<not> ipInNetworks (v4InV6Prefix @ [203, 0, 113, 7]) ex_proxies"
    "ParseIP (TrimSpace '' 10.0.0.2'') = Some (v4InV6Prefix @ [10, 0, 0, 2])" "ipInNetworks (v4InV6Prefix @ [10, 0, 0, 2]) ex_proxies"
    by code_simp+
  then show "ClientAddress \<lparr> RemoteAddr = ''10.0.0.1:80'', forwarded_for = [''1.1.1.1, 203.0.113.7, 10.0.0.2''] \<rparr> ex_proxies = ''203.0.113.7''"
    using forwarded_prefix_ignored[where peer = "''10.0.0.1:80''" and trusted = ex_proxies and address = "'' 203.0.113.7''"
      and hops = "['' 10.0.0.2'']" and before = "''1.1.1.1,''"] by simp
qed

text \<open>Two IPv6 clients of one /64 network share a budget.\<close>

theorem same_network_same_key:
  assumes "ParseIP (ClientAddress r1 trustedProxies) = Some a" and "ParseIP (ClientAddress r2 trustedProxies) = Some b"
    and "To4 a = None" and "To4 b = None" and "take 8 a = take 8 b"
  shows "RateLimitKey r1 trustedProxies = RateLimitKey r2 trustedProxies"
  using assms by (simp add: RateLimitKey_def)

theorem same_network_same_key_witness:
  "RateLimitKey \<lparr> RemoteAddr = ''[1:2:3:4::1]:80'', forwarded_for = [] \<rparr> ex_proxies =
   RateLimitKey \<lparr> RemoteAddr = ''[1:2:3:4:5::]:443'', forwarded_for = [] \<rparr> ex_proxies"
proof -
  let ?a = "[0, 1, 0, 2, 0, 3, 0, 4, 0, 0, 0, 0, 0, 0, 0, 1] :: nat list"
  let ?b = "[0, 1, 0, 2, 0, 3, 0, 4, 0, 5, 0, 0, 0, 0, 0, 0] :: nat list"
  have "ParseIP (ClientAddress \<lparr> RemoteAddr = ''[1:2:3:4::1]:80'', forwarded_for = [] \<rparr> ex_proxies) = Some ?a"
    by code_simp
  moreover have "ParseIP (ClientAddress \<lparr> RemoteAddr = ''[1:2:3:4:5::]:443'', forwarded_for = [] \<rparr> ex_proxies) = Some ?b"
    by code_simp
  ultimately show ?thesis
    by (rule same_network_same_key) (simp_all add: To4_def v4InV6Prefix_def)
qed

end
