(* ===== verification/Rate_Limit.thy ===== *)
theory Rate_Limit
  imports Go_Lib "HOL-Library.AList"
begin

text \<open>
  The fixed-window rate limiter of \<open>internal/platform/httpserver/rate_limit.go\<close>.  The code keeps a map
  from keys to elements of a doubly linked list, in the order their windows started; elements are
  shared between the two, so the model names them: \<open>entries\<close> maps a key to an element, \<open>order\<close> is the
  list of elements, and \<open>elements\<close> holds what each points to.  The limiter is shown to refine a plain
  table of windows, \<open>table_allow\<close>, through the interface \<open>rate_limit\<close>; what callers rely on is proved
  against the interface.
\<close>

section \<open>The limiter\<close>

record rate_entry =
  e_key :: string
  e_startedAt :: instant
  e_count :: int

record rate_limiter =
  rl_maximum :: int
  rl_window :: duration
  rl_capacity :: int
  rl_entries :: "(string \<times> nat) list"
  rl_order :: "nat list"
  rl_elements :: "nat \<Rightarrow> rate_entry"
  rl_fresh :: nat

definition defaultRateLimitCapacity :: int where "defaultRateLimitCapacity = 10000"

definition newRateLimiter :: "int \<Rightarrow> duration \<Rightarrow> int \<Rightarrow> rate_limiter" where
  "newRateLimiter maximum window capacity = \<lparr> rl_maximum = maximum, rl_window = window, rl_capacity = capacity,
     rl_entries = [], rl_order = [], rl_elements = (\<lambda>_. \<lparr> e_key = [], e_startedAt = 0, e_count = 0 \<rparr>), rl_fresh = 0 \<rparr>"

definition NewRateLimiter :: "int \<Rightarrow> duration \<Rightarrow> rate_limiter" where
  "NewRateLimiter maximum window = newRateLimiter maximum window defaultRateLimitCapacity"

definition remove_element :: "nat \<Rightarrow> rate_limiter \<Rightarrow> rate_limiter" where
  "remove_element e lim = lim\<lparr>rl_entries := AList.delete (e_key (rl_elements lim e)) (rl_entries lim),
     rl_order := remove1 e (rl_order lim)\<rparr>"

function removeExpired :: "instant \<Rightarrow> rate_limiter \<Rightarrow> rate_limiter" where
  "removeExpired now lim = (case rl_order lim of
     [] \<Rightarrow> lim
   | e # _ \<Rightarrow> if now - e_startedAt (rl_elements lim e) < rl_window lim then lim
             else removeExpired now (remove_element e lim))"
  by pat_completeness auto
termination
  by (relation "measure (\<lambda>(now, lim). length (rl_order lim))") (auto simp: remove_element_def)

declare removeExpired.simps [simp del]

text \<open>The loop that makes room; taking the front of an empty list is a nil dereference.\<close>

function make_room :: "rate_limiter \<Rightarrow> rate_limiter option" where
  "make_room lim =
     (if rl_capacity lim \<le> int (length (rl_entries lim)) then
        (case rl_order lim of [] \<Rightarrow> None | e # _ \<Rightarrow> make_room (remove_element e lim))
      else Some lim)"
  by pat_completeness auto
termination
  by (relation "measure (\<lambda>lim. length (rl_order lim))") (auto simp: remove_element_def)

declare make_room.simps [simp del]

definition update_element :: "nat \<Rightarrow> rate_entry \<Rightarrow> rate_limiter \<Rightarrow> rate_limiter" where
  "update_element e v lim = lim\<lparr>rl_elements := (rl_elements lim)(e := v)\<rparr>"

definition push_entry :: "string \<Rightarrow> instant \<Rightarrow> rate_limiter \<Rightarrow> rate_limiter" where
  "push_entry key now lim = (let e = rl_fresh lim in
     lim\<lparr>rl_elements := (rl_elements lim)(e := \<lparr> e_key = key, e_startedAt = now, e_count = 1 \<rparr>),
       rl_fresh := e + 1, rl_order := rl_order lim @ [e],
       rl_entries := AList.update key e (rl_entries lim)\<rparr>)"

definition Allow :: "string \<Rightarrow> instant \<Rightarrow> rate_limiter \<Rightarrow> ((bool \<times> duration) \<times> rate_limiter) option" where
  "Allow key now lim0 = (let lim = removeExpired now lim0 in
     case map_of (rl_entries lim) key of
       Some e \<Rightarrow>
         (let entry = rl_elements lim e in
          if rl_window lim \<le> now - e_startedAt entry then
            Some ((True, 0), (update_element e (entry\<lparr>e_startedAt := now, e_count := 1\<rparr>) lim)
              \<lparr>rl_order := remove1 e (rl_order lim) @ [e]\<rparr>)
          else if rl_maximum lim \<le> e_count entry then
            Some ((False, rl_window lim - (now - e_startedAt entry)), lim)
          else Some ((True, 0), update_element e (entry\<lparr>e_count := e_count entry + 1\<rparr>) lim))
     | None \<Rightarrow>
         (case make_room lim of None \<Rightarrow> None
          | Some lim \<Rightarrow> Some ((True, 0), push_entry key now lim)))"

section \<open>The table it stands for\<close>

definition expired_entry :: "duration \<Rightarrow> instant \<Rightarrow> rate_entry \<Rightarrow> bool" where
  "expired_entry window now e \<longleftrightarrow> window \<le> now - e_startedAt e"

definition table_allow ::
  "int \<times> duration \<times> int \<Rightarrow> string \<Rightarrow> instant \<Rightarrow> rate_entry list \<Rightarrow> (bool \<times> duration) \<times> rate_entry list" where
  "table_allow limits key now rows = (case limits of (maximum, window, capacity) \<Rightarrow>
     let rows = dropWhile (expired_entry window now) rows in
     (case find (\<lambda>e. e_key e = key) rows of
       Some e \<Rightarrow>
         if expired_entry window now e then
           ((True, 0), filter (\<lambda>r. e_key r \<noteq> key) rows @ [e\<lparr>e_startedAt := now, e_count := 1\<rparr>])
         else if maximum \<le> e_count e then ((False, window - (now - e_startedAt e)), rows)
         else ((True, 0), map (\<lambda>r. if e_key r = key then r\<lparr>e_count := e_count r + 1\<rparr> else r) rows)
     | None \<Rightarrow> ((True, 0), drop (Suc (length rows) - nat capacity) rows @
                 [\<lparr> e_key = key, e_startedAt = now, e_count = 1 \<rparr>])))"

definition rl_table :: "rate_limiter \<Rightarrow> rate_entry list" where
  "rl_table lim = map (rl_elements lim) (rl_order lim)"

definition rl_limits :: "rate_limiter \<Rightarrow> int \<times> duration \<times> int" where
  "rl_limits lim = (rl_maximum lim, rl_window lim, rl_capacity lim)"

text \<open>The map and the list hold the same elements, each under its own key.\<close>

definition rl_inv :: "rate_limiter \<Rightarrow> bool" where
  "rl_inv lim \<longleftrightarrow> distinct (rl_order lim) \<and> (\<forall>e \<in> set (rl_order lim). e < rl_fresh lim) \<and>
     distinct (map fst (rl_entries lim)) \<and>
     set (rl_entries lim) = (\<lambda>e. (e_key (rl_elements lim e), e)) ` set (rl_order lim) \<and>
     (\<forall>e \<in> set (rl_order lim). 1 \<le> e_count (rl_elements lim e)) \<and>
     1 \<le> rl_capacity lim \<and> int (length (rl_order lim)) \<le> rl_capacity lim"

section \<open>Refinement\<close>

lemma rl_keys: "rl_inv lim \<Longrightarrow> inj_on (\<lambda>e. e_key (rl_elements lim e)) (set (rl_order lim))"
  unfolding rl_inv_def
  by (intro inj_onI) (metis (no_types, lifting) eq_key_imp_eq_value image_eqI)

lemma rl_length: "rl_inv lim \<Longrightarrow> length (rl_entries lim) = length (rl_order lim)"
proof -
  assume inv: "rl_inv lim"
  have "distinct (rl_entries lim)" using inv by (simp add: rl_inv_def distinct_map)
  then have "length (rl_entries lim) = card ((\<lambda>e. (e_key (rl_elements lim e), e)) ` set (rl_order lim))"
    using inv by (simp add: rl_inv_def distinct_card[symmetric])
  also have "\<dots> = length (rl_order lim)"
    using inv by (subst card_image) (auto simp: rl_inv_def inj_on_def distinct_card)
  finally show ?thesis .
qed

lemma rl_map_of:
  "rl_inv lim \<Longrightarrow> map_of (rl_entries lim) key = Some e \<longleftrightarrow> e \<in> set (rl_order lim) \<and> e_key (rl_elements lim e) = key"
  unfolding rl_inv_def by (subst map_of_eq_Some_iff) auto

lemma rl_map_of_None:
  "rl_inv lim \<Longrightarrow> map_of (rl_entries lim) key = None \<longleftrightarrow> (\<forall>r \<in> set (rl_table lim). e_key r \<noteq> key)"
  using rl_map_of[of lim key] by (auto simp: rl_table_def not_Some_eq[symmetric] simp del: not_Some_eq)

lemma rl_distinct: "rl_inv lim \<Longrightarrow> distinct (map e_key (rl_table lim))"
  using rl_keys[of lim] unfolding rl_table_def map_map comp_def distinct_map[of _ "rl_order lim"]
  by (simp add: rl_inv_def)

lemma remove_front:
  assumes inv: "rl_inv lim" and "rl_order lim = e # es"
  shows "rl_inv (remove_element e lim)" and "rl_table (remove_element e lim) = tl (rl_table lim)"
    and "rl_limits (remove_element e lim) = rl_limits lim" and "rl_order (remove_element e lim) = es"
proof -
  have keys: "e_key (rl_elements lim e') \<noteq> e_key (rl_elements lim e)" if "e' \<in> set es" for e'
    using rl_keys[OF inv] assms that by (auto simp: rl_inv_def inj_on_def)
  have "set (AList.delete (e_key (rl_elements lim e)) (rl_entries lim)) =
      (\<lambda>e. (e_key (rl_elements lim e), e)) ` set es"
    using inv assms(2) keys by (fastforce simp: rl_inv_def AList.delete_eq)
  then show "rl_inv (remove_element e lim)"
    using inv assms(2) by (auto simp: rl_inv_def remove_element_def AList.distinct_delete)
  show "rl_table (remove_element e lim) = tl (rl_table lim)" "rl_limits (remove_element e lim) = rl_limits lim"
    "rl_order (remove_element e lim) = es"
    using assms(2) by (auto simp: rl_table_def rl_limits_def remove_element_def)
qed

lemma removeExpired_refines:
  assumes "rl_inv lim"
  shows "rl_inv (removeExpired now lim)" and "rl_limits (removeExpired now lim) = rl_limits lim"
    and "rl_table (removeExpired now lim) = dropWhile (expired_entry (rl_window lim) now) (rl_table lim)"
proof -
  have "rl_inv (removeExpired now lim) \<and> rl_limits (removeExpired now lim) = rl_limits lim \<and>
    rl_table (removeExpired now lim) = dropWhile (expired_entry (rl_window lim) now) (rl_table lim)"
    using assms
  proof (induction now lim rule: removeExpired.induct)
    case (1 now lim)
    show ?case
    proof (cases "rl_order lim")
      case Nil
      then show ?thesis using 1 by (simp add: removeExpired.simps[of now lim] rl_table_def)
    next
      case (Cons e es)
      note front = remove_front[OF "1.prems" Cons]
      show ?thesis
      proof (cases "now - e_startedAt (rl_elements lim e) < rl_window lim")
        case True
        then show ?thesis using 1 Cons
          by (simp add: removeExpired.simps[of now lim] rl_table_def expired_entry_def)
      next
        case False
        have "rl_window (remove_element e lim) = rl_window lim" using front(3) by (simp add: rl_limits_def)
        then show ?thesis using "1.IH"[OF Cons False front(1)] False Cons front
          by (simp add: removeExpired.simps[of now lim] expired_entry_def rl_table_def[of lim])
      qed
    qed
  qed
  then show "rl_inv (removeExpired now lim)" "rl_limits (removeExpired now lim) = rl_limits lim"
    "rl_table (removeExpired now lim) = dropWhile (expired_entry (rl_window lim) now) (rl_table lim)" by simp_all
qed

lemma make_room_refines:
  assumes "rl_inv lim"
  shows "\<exists>lim'. make_room lim = Some lim' \<and> rl_inv lim' \<and> rl_limits lim' = rl_limits lim \<and>
    int (length (rl_table lim')) < rl_capacity lim' \<and>
    rl_table lim' = drop (Suc (length (rl_table lim)) - nat (rl_capacity lim)) (rl_table lim)"
  using assms
proof (induction lim rule: make_room.induct)
  case (1 lim)
  have len: "length (rl_entries lim) = length (rl_order lim)" "length (rl_table lim) = length (rl_order lim)"
    using rl_length[OF "1.prems"] by (simp_all add: rl_table_def)
  show ?case
  proof (cases "rl_capacity lim \<le> int (length (rl_entries lim))")
    case False
    then show ?thesis using "1.prems" len by (simp add: make_room.simps[of lim])
  next
    case True
    then have cap: "rl_capacity lim = int (length (rl_order lim))" "1 \<le> rl_capacity lim"
      using "1.prems" len by (auto simp: rl_inv_def)
    then obtain e es where Cons: "rl_order lim = e # es" by (cases "rl_order lim") auto
    note front = remove_front[OF "1.prems" Cons]
    have "int (length (rl_entries (remove_element e lim))) < rl_capacity (remove_element e lim)"
      using rl_length[OF front(1)] front(3,4) cap Cons by (simp add: rl_limits_def)
    then have "make_room lim = Some (remove_element e lim)"
      using True Cons by (simp add: make_room.simps[of lim] make_room.simps[of "remove_element e lim"])
    moreover have "Suc (length (rl_table lim)) - nat (rl_capacity lim) = 1"
      using cap len by simp
    moreover have "int (length (rl_table (remove_element e lim))) < rl_capacity (remove_element e lim)"
      using front cap len Cons by (simp add: rl_limits_def)
    ultimately show ?thesis using front by (simp add: drop_Suc)
  qed
qed


lemma update_refines:
  assumes inv: "rl_inv lim" and e: "e \<in> set (rl_order lim)" "e_key v = e_key (rl_elements lim e)"
    and "1 \<le> e_count v"
  shows "rl_inv (update_element e v lim)" and "rl_limits (update_element e v lim) = rl_limits lim"
    and "rl_table (update_element e v lim) = map (\<lambda>r. if e_key r = e_key v then v else r) (rl_table lim)"
proof -
  have "(\<lambda>e'. (e_key (rl_elements (update_element e v lim) e'), e')) ` set (rl_order lim) =
    (\<lambda>e'. (e_key (rl_elements lim e'), e')) ` set (rl_order lim)"
    using e by (intro image_cong) (auto simp: update_element_def)
  then show "rl_inv (update_element e v lim)" using inv assms(4) by (auto simp: rl_inv_def update_element_def)
  show "rl_limits (update_element e v lim) = rl_limits lim" by (simp add: rl_limits_def update_element_def)
  have "e_key (rl_elements lim e') = e_key v \<longleftrightarrow> e' = e" if "e' \<in> set (rl_order lim)" for e'
    using rl_keys[OF inv] e that by (auto simp: inj_on_def)
  then show "rl_table (update_element e v lim) = map (\<lambda>r. if e_key r = e_key v then v else r) (rl_table lim)"
    using e by (auto simp: rl_table_def update_element_def)
qed

lemma move_back_refines:
  assumes inv: "rl_inv lim" and e: "e \<in> set (rl_order lim)"
  shows "rl_inv (lim\<lparr>rl_order := remove1 e (rl_order lim) @ [e]\<rparr>)"
    and "rl_table (lim\<lparr>rl_order := remove1 e (rl_order lim) @ [e]\<rparr>) =
      filter (\<lambda>r. e_key r \<noteq> e_key (rl_elements lim e)) (rl_table lim) @ [rl_elements lim e]"
proof -
  have d: "distinct (rl_order lim)" using inv by (simp add: rl_inv_def)
  have "length (remove1 e (rl_order lim) @ [e]) = length (rl_order lim)"
    using e length_pos_if_in_set[OF e] by (simp add: length_remove1)
  moreover have "insert e (set (rl_order lim) - {e}) = set (rl_order lim)" using e by auto
  ultimately show "rl_inv (lim\<lparr>rl_order := remove1 e (rl_order lim) @ [e]\<rparr>)"
    using inv d by (simp add: rl_inv_def)
  have "e_key (rl_elements lim e') = e_key (rl_elements lim e) \<longleftrightarrow> e' = e" if "e' \<in> set (rl_order lim)" for e'
    using rl_keys[OF inv] e that by (auto simp: inj_on_def)
  then have "remove1 e (rl_order lim) = filter (\<lambda>e'. e_key (rl_elements lim e') \<noteq> e_key (rl_elements lim e)) (rl_order lim)"
    using d by (auto simp: distinct_remove1_removeAll removeAll_filter_not_eq intro: filter_cong)
  then show "rl_table (lim\<lparr>rl_order := remove1 e (rl_order lim) @ [e]\<rparr>) =
      filter (\<lambda>r. e_key r \<noteq> e_key (rl_elements lim e)) (rl_table lim) @ [rl_elements lim e]"
    by (simp add: rl_table_def filter_map comp_def)
qed

lemma update_fresh: "k \<notin> fst ` set al \<Longrightarrow> AList.update k v al = al @ [(k, v)]"
  by (induction al) auto

lemma push_refines:
  assumes inv: "rl_inv lim" and "int (length (rl_table lim)) < rl_capacity lim"
    and "\<forall>r \<in> set (rl_table lim). e_key r \<noteq> key"
  shows "rl_inv (push_entry key now lim)" and "rl_limits (push_entry key now lim) = rl_limits lim"
    and "rl_table (push_entry key now lim) = rl_table lim @ [\<lparr> e_key = key, e_startedAt = now, e_count = 1 \<rparr>]"
proof -
  have new: "rl_fresh lim \<notin> set (rl_order lim)" using inv by (auto simp: rl_inv_def)
  have "key \<notin> fst ` set (rl_entries lim)"
    using rl_map_of_None[OF inv, of key] assms(3) by (metis map_of_eq_None_iff)
  then have upd: "AList.update key (rl_fresh lim) (rl_entries lim) = rl_entries lim @ [(key, rl_fresh lim)]"
    by (rule update_fresh)
  have "(\<lambda>e'. (e_key (rl_elements (push_entry key now lim) e'), e')) ` set (rl_order lim) =
    (\<lambda>e'. (e_key (rl_elements lim e'), e')) ` set (rl_order lim)"
    using new by (intro image_cong) (auto simp: push_entry_def Let_def)
  then show "rl_inv (push_entry key now lim)"
    using inv new assms(2) \<open>key \<notin> _\<close> upd
    by (auto simp: rl_inv_def push_entry_def rl_table_def Let_def less_Suc_eq)
  show "rl_limits (push_entry key now lim) = rl_limits lim" by (simp add: rl_limits_def push_entry_def Let_def)
  show "rl_table (push_entry key now lim) = rl_table lim @ [\<lparr> e_key = key, e_startedAt = now, e_count = 1 \<rparr>]"
    using new by (auto simp: rl_table_def push_entry_def Let_def)
qed

lemma find_key:
  assumes "distinct (map e_key rows)"
  shows "find (\<lambda>e. e_key e = key) rows = Some e \<longleftrightarrow> e \<in> set rows \<and> e_key e = key"
  using assms by (induction rows) auto

lemma filter_map_other:
  "e_key v = k \<Longrightarrow> filter (\<lambda>r. e_key r \<noteq> k) (map (\<lambda>r. if e_key r = k then v else r) rows) = filter (\<lambda>r. e_key r \<noteq> k) rows"
  by (induction rows) auto

lemma Allow_refines:
  assumes "rl_inv lim"
  shows "\<exists>r lim'. Allow key now lim = Some (r, lim') \<and> rl_inv lim' \<and> rl_limits lim' = rl_limits lim \<and>
    table_allow (rl_limits lim) key now (rl_table lim) = (r, rl_table lim')"
proof -
  let ?lim = "removeExpired now lim"
  note swept = removeExpired_refines[OF assms, of now]
  have limits: "rl_maximum ?lim = rl_maximum lim" "rl_window ?lim = rl_window lim" "rl_capacity ?lim = rl_capacity lim"
    using swept(2) by (simp_all add: rl_limits_def)
  note d = rl_distinct[OF swept(1)]
  show ?thesis
  proof (cases "map_of (rl_entries ?lim) key")
    case None
    then have absent: "\<forall>r \<in> set (rl_table ?lim). e_key r \<noteq> key" using rl_map_of_None[OF swept(1)] by simp
    obtain lim1 where room: "make_room ?lim = Some lim1" "rl_inv lim1" "rl_limits lim1 = rl_limits ?lim"
        "int (length (rl_table lim1)) < rl_capacity lim1"
        "rl_table lim1 = drop (Suc (length (rl_table ?lim)) - nat (rl_capacity ?lim)) (rl_table ?lim)"
      using make_room_refines[OF swept(1)] by blast
    have absent1: "\<forall>r \<in> set (rl_table lim1). e_key r \<noteq> key"
      using absent room(5) by (auto dest: in_set_dropD)
    have "find (\<lambda>e. e_key e = key) (rl_table ?lim) = None" using absent by (simp add: find_None_iff)
    moreover have "Allow key now lim = Some ((True, 0), push_entry key now lim1)"
      using None room(1) by (simp add: Allow_def Let_def)
    moreover have "table_allow (rl_limits lim) key now (rl_table lim) = ((True, 0), rl_table (push_entry key now lim1))"
      using calculation push_refines(3)[OF room(2,4) absent1, of now] room(5) limits swept(3)
      by (simp add: table_allow_def rl_limits_def Let_def)
    ultimately show ?thesis
      using push_refines(1,2)[OF room(2,4) absent1, of now] room(3) swept(2) by auto
  next
    case (Some e)
    then have e: "e \<in> set (rl_order ?lim)" "e_key (rl_elements ?lim e) = key"
      using rl_map_of[OF swept(1)] by auto
    then have found: "find (\<lambda>e. e_key e = key) (rl_table ?lim) = Some (rl_elements ?lim e)"
      using find_key[OF d] by (auto simp: rl_table_def)
    have other: "r \<in> set (rl_table ?lim) \<Longrightarrow> e_key r = key \<Longrightarrow> r = rl_elements ?lim e" for r
      using find_key[OF d, of key r] found by auto
    let ?entry = "rl_elements ?lim e"
    have counted: "1 \<le> e_count ?entry" using swept(1) e(1) by (simp add: rl_inv_def)
    note up = update_refines[OF swept(1) e(1)]
    show ?thesis
    proof (cases "rl_window lim \<le> now - e_startedAt ?entry")
      case True
      let ?lim1 = "update_element e (?entry\<lparr>e_startedAt := now, e_count := 1\<rparr>) ?lim"
      have "e \<in> set (rl_order ?lim1)" using e by (simp add: update_element_def)
      note moved = move_back_refines[OF up(1)[of "?entry\<lparr>e_startedAt := now, e_count := 1\<rparr>", simplified] this]
      have "rl_table (?lim1\<lparr>rl_order := remove1 e (rl_order ?lim) @ [e]\<rparr>) =
          filter (\<lambda>r. e_key r \<noteq> key) (rl_table ?lim) @ [?entry\<lparr>e_startedAt := now, e_count := 1\<rparr>]"
        using moved(2) up(3)[of "?entry\<lparr>e_startedAt := now, e_count := 1\<rparr>"] e(2)
        by (simp add: update_element_def filter_map_other)
      then show ?thesis
        using True moved(1) Some found swept limits
        by (auto simp: Allow_def table_allow_def rl_limits_def Let_def expired_entry_def update_element_def)
    next
      case False
      show ?thesis
      proof (cases "rl_maximum lim \<le> e_count ?entry")
        case True
        then show ?thesis
          using False Some found swept limits
          by (auto simp: Allow_def table_allow_def rl_limits_def Let_def expired_entry_def)
      next
        case full: False
        have "map (\<lambda>r. if e_key r = key then ?entry\<lparr>e_count := e_count ?entry + 1\<rparr> else r) (rl_table ?lim) =
            map (\<lambda>r. if e_key r = key then r\<lparr>e_count := e_count r + 1\<rparr> else r) (rl_table ?lim)"
          using other by (auto intro!: map_cong)
        then show ?thesis
          using full False Some found swept limits up[of "?entry\<lparr>e_count := e_count ?entry + 1\<rparr>"] e counted
          by (auto simp: Allow_def table_allow_def rl_limits_def Let_def expired_entry_def)
      qed
    qed
  qed
qed


section \<open>What callers rely on\<close>

text \<open>
  The interface of a limiter: it always answers, and it answers as the table it stands for.  The lemmas
  of the locale are about any such limiter, over a sequence of requests.
\<close>

fun answers :: "(string \<Rightarrow> instant \<Rightarrow> 's \<Rightarrow> ((bool \<times> duration) \<times> 's) option) \<Rightarrow> (string \<times> instant) list \<Rightarrow>
    's \<Rightarrow> (bool list \<times> 's) option" where
  "answers allow [] s = Some ([], s)"
| "answers allow ((key, now) # requests) s = (case allow key now s of
     None \<Rightarrow> None
   | Some ((granted, _), s) \<Rightarrow> map_option (apfst ((#) granted)) (answers allow requests s))"

definition granted_to :: "string \<Rightarrow> (string \<times> instant) list \<Rightarrow> bool list \<Rightarrow> int" where
  "granted_to key requests grants =
     int (length (filter (\<lambda>(request, granted). fst request = key \<and> granted) (zip requests grants)))"

lemma granted_to_Cons:
  "granted_to key ((k, t) # requests) (granted # grants) = of_bool (k = key \<and> granted) + granted_to key requests grants"
  by (simp add: granted_to_def)

text \<open>The life of one key in the table: its window, when no eviction interferes.\<close>

definition key_allow :: "int \<Rightarrow> duration \<Rightarrow> instant \<Rightarrow> (instant \<times> int) option \<Rightarrow> bool \<times> (instant \<times> int) option" where
  "key_allow maximum window now st = (case st of
     None \<Rightarrow> (True, Some (now, 1))
   | Some (started, count) \<Rightarrow>
       if window \<le> now - started then (True, Some (now, 1))
       else if maximum \<le> count then (False, st) else (True, Some (started, count + 1)))"

definition key_window :: "string \<Rightarrow> rate_entry list \<Rightarrow> (instant \<times> int) option" where
  "key_window key rows = map_option (\<lambda>e. (e_startedAt e, e_count e)) (find (\<lambda>e. e_key e = key) rows)"

lemma find_Some_key: "find (\<lambda>e. e_key e = key) rows = Some e \<Longrightarrow> e_key e = key"
  by (metis (mono_tags, lifting) find_Some_iff)

lemma find_append:
  "find P (xs @ ys) = (case find P xs of None \<Rightarrow> find P ys | Some x \<Rightarrow> Some x)"
  by (induction xs) auto

lemma find_filter_other: "key \<noteq> k \<Longrightarrow> find (\<lambda>e. e_key e = k) (filter (\<lambda>r. e_key r \<noteq> key) rows) = find (\<lambda>e. e_key e = k) rows"
  by (induction rows) auto

lemma find_filter_same: "find (\<lambda>e. e_key e = key) (filter (\<lambda>r. e_key r \<noteq> key) rows) = None"
  by (induction rows) auto

lemma find_map_count:
  "find (\<lambda>e. e_key e = k) (map (\<lambda>r. if e_key r = key then r\<lparr>e_count := e_count r + 1\<rparr> else r) rows) =
     map_option (\<lambda>e. if k = key then e\<lparr>e_count := e_count e + 1\<rparr> else e) (find (\<lambda>e. e_key e = k) rows)"
  by (induction rows) auto

text \<open>
  One request on a table with room to spare, seen from a key: the key that asks moves as
  \<open>key_allow\<close> says, and any other key keeps its window until that has expired.
\<close>

definition alike :: "duration \<Rightarrow> instant \<Rightarrow> (instant \<times> int) option \<Rightarrow> (instant \<times> int) option \<Rightarrow> bool" where
  "alike window now st st' \<longleftrightarrow> st' = st \<or> (st' = None \<and> (\<exists>s c. st = Some (s, c) \<and> window \<le> now - s))"

lemma dropWhile_window:
  assumes "distinct (map e_key rows)"
  shows "alike window now (key_window key rows) (key_window key (dropWhile (expired_entry window now) rows))"
  using assms
proof (induction rows)
  case (Cons r rows)
  show ?case
  proof (cases "expired_entry window now r \<and> e_key r = key")
    case True
    then have "key \<notin> e_key ` set rows" using Cons.prems by auto
    then have "find (\<lambda>e. e_key e = key) (dropWhile (expired_entry window now) rows) = None"
      unfolding find_None_iff by (meson imageI set_dropWhileD)
    moreover have "window \<le> now - e_startedAt r" using True by (simp add: expired_entry_def)
    ultimately show ?thesis using True by (auto simp: alike_def key_window_def)
  next
    case False
    then show ?thesis using Cons by (auto simp: alike_def key_window_def)
  qed
qed (simp add: alike_def)

lemma key_allow_alike:
  "alike window now st st' \<Longrightarrow> key_allow maximum window now st' = key_allow maximum window now st"
  by (auto simp: alike_def key_allow_def)

lemma table_allow_key:
  assumes d: "distinct (map e_key rows)" and room: "int (length (filter (\<lambda>r. e_key r \<noteq> key) rows)) < capacity"
    and run: "table_allow (maximum, window, capacity) key now rows = ((granted, wait), rows')"
  shows "key_allow maximum window now (key_window key rows) = (granted, key_window key rows')"
    and "k \<noteq> key \<Longrightarrow> alike window now (key_window k rows) (key_window k rows')"
proof -
  let ?live = "dropWhile (expired_entry window now) rows"
  note live = dropWhile_window[OF d, of window now]
  have "key_allow maximum window now (key_window key ?live) = (granted, key_window key rows') \<and>
    (k \<noteq> key \<longrightarrow> key_window k rows' = key_window k ?live)" for k
  proof (cases "find (\<lambda>e. e_key e = key) ?live")
    case None
    then have "filter (\<lambda>r. e_key r \<noteq> key) ?live = ?live"
      by (auto simp: find_None_iff filter_id_conv)
    moreover have "length (filter (\<lambda>r. e_key r \<noteq> key) ?live) \<le> length (filter (\<lambda>r. e_key r \<noteq> key) rows)"
      by (metis (no_types, lifting) filter_append le_add2 length_append takeWhile_dropWhile_id)
    ultimately have "int (length ?live) < capacity" using room by simp
    then have "Suc (length ?live) - nat capacity = 0" by simp
    then show ?thesis using None run
      by (auto simp: table_allow_def Let_def key_window_def find_append key_allow_def split: option.splits)
  next
    case (Some e)
    then show ?thesis using run find_Some_key[OF Some]
      by (auto simp: table_allow_def Let_def key_window_def find_append key_allow_def expired_entry_def
          find_filter_same find_filter_other find_map_count option.map_comp comp_def split: option.splits if_splits)
  qed
  note moved = this
  show "key_allow maximum window now (key_window key rows) = (granted, key_window key rows')"
    using moved[of key] key_allow_alike[OF live] by simp
  show "k \<noteq> key \<Longrightarrow> alike window now (key_window k rows) (key_window k rows')"
    using moved[of k] live[of k] by simp
qed

lemma table_allow_keys:
  "table_allow limits key now rows = (r, rows') \<Longrightarrow> e_key ` set rows' \<subseteq> insert key (e_key ` set rows)"
  by (auto simp: table_allow_def Let_def dest: set_dropWhileD in_set_dropD split: option.splits if_splits prod.splits
      dest!: find_Some_key) (force dest!: set_dropWhileD in_set_dropD)+

text \<open>The grants a key has left among the requests of \<open>[start, start + window)\<close>.\<close>

definition budget :: "int \<Rightarrow> instant \<Rightarrow> (instant \<times> int) option \<Rightarrow> int" where
  "budget maximum start st = (case st of None \<Rightarrow> max 1 maximum
   | Some (s, c) \<Rightarrow> max 0 (max 1 maximum - c) + (if s < start then max 1 maximum else 0))"

lemma budget_key_allow:
  assumes "key_allow maximum window now st = (granted, st')" and "start \<le> now" "now < start + window"
  shows "budget maximum start st' + of_bool granted \<le> budget maximum start st"
  using assms by (auto simp: key_allow_def budget_def split: option.splits if_splits)

lemma budget_alike:
  "alike window now st st' \<Longrightarrow> now < start + window \<Longrightarrow> budget maximum start st' \<le> budget maximum start st"
  by (auto simp: alike_def budget_def)

lemma budget_bounds: "0 \<le> budget maximum start st"
  by (auto simp: budget_def split: option.splits)

locale rate_limit =
  fixes allow :: "string \<Rightarrow> instant \<Rightarrow> 's \<Rightarrow> ((bool \<times> duration) \<times> 's) option"
    and invar :: "'s \<Rightarrow> bool"
    and limits :: "'s \<Rightarrow> int \<times> duration \<times> int"
    and windows :: "'s \<Rightarrow> rate_entry list"
  assumes allow_table: "invar s \<Longrightarrow> \<exists>r s'. allow key now s = Some (r, s') \<and> invar s' \<and> limits s' = limits s \<and>
      table_allow (limits s) key now (windows s) = (r, windows s')"
    and windows_distinct: "invar s \<Longrightarrow> distinct (map e_key (windows s))"
    and windows_counted: "invar s \<Longrightarrow> r \<in> set (windows s) \<Longrightarrow> 1 \<le> e_count r"
begin

lemma always_answers:
  assumes "invar s"
  shows "\<exists>grants s'. answers allow requests s = Some (grants, s') \<and> length grants = length requests \<and>
    invar s' \<and> limits s' = limits s \<and> e_key ` set (windows s') \<subseteq> fst ` set requests \<union> e_key ` set (windows s)"
  using assms
proof (induction requests arbitrary: s)
  case (Cons request requests)
  obtain key now where request: "request = (key, now)" by (cases request)
  obtain r s1 where s1: "allow key now s = Some (r, s1)" "invar s1" "limits s1 = limits s"
      "table_allow (limits s) key now (windows s) = (r, windows s1)"
    using allow_table[OF Cons.prems] by blast
  obtain grants s' where s': "answers allow requests s1 = Some (grants, s')" "length grants = length requests"
      "invar s'" "limits s' = limits s1" "e_key ` set (windows s') \<subseteq> fst ` set requests \<union> e_key ` set (windows s1)"
    using Cons.IH[OF s1(2)] by blast
  have "e_key ` set (windows s') \<subseteq> fst ` set (request # requests) \<union> e_key ` set (windows s)"
    using s'(5) table_allow_keys[OF s1(4)] request by auto
  moreover have "answers allow (request # requests) s = Some (fst r # grants, s')"
    using s1 s' request by (cases r) simp
  ultimately show ?case using s' s1(3) by (intro exI[of _ "fst r # grants"] exI[of _ s']) simp
qed simp

lemma grants_bounded:
  assumes "invar s" and "limits s = (maximum, window, capacity)"
    and "int (card (e_key ` set (windows s) \<union> fst ` set requests)) \<le> capacity"
    and "\<forall>(k, t) \<in> set requests. start \<le> t \<and> t < start + window"
    and "answers allow requests s = Some (grants, s')"
  shows "granted_to key requests grants \<le> budget maximum start (key_window key (windows s))"
  using assms
proof (induction requests arbitrary: s grants)
  case Nil
  then show ?case by (simp add: granted_to_def budget_bounds)
next
  case (Cons request requests)
  obtain k now where request: "request = (k, now)" by (cases request)
  obtain granted wait s1 where s1: "allow k now s = Some ((granted, wait), s1)" "invar s1" "limits s1 = limits s"
      "table_allow (limits s) k now (windows s) = ((granted, wait), windows s1)"
    using allow_table[OF Cons.prems(1)] by (metis prod.collapse)
  obtain grants1 where grants1: "answers allow requests s1 = Some (grants1, s')" "grants = granted # grants1"
    using Cons.prems(5) s1(1) request by auto
  let ?keys = "e_key ` set (windows s) \<union> fst ` set (request # requests)"
  have "e_key ` set (windows s1) \<union> fst ` set requests \<subseteq> ?keys"
    using table_allow_keys[OF s1(4)] request by auto
  then have "card (e_key ` set (windows s1) \<union> fst ` set requests) \<le> card ?keys"
    by (intro card_mono) auto
  then have "int (card (e_key ` set (windows s1) \<union> fst ` set requests)) \<le> capacity"
    using Cons.prems(3) by linarith
  then have rest: "granted_to key requests grants1 \<le> budget maximum start (key_window key (windows s1))"
    using Cons.IH[OF s1(2) _ _ _ grants1(1)] Cons.prems(2,4) s1(3) by simp
  let ?others = "filter (\<lambda>r. e_key r \<noteq> k) (windows s)"
  have "distinct (map e_key ?others)"
    using windows_distinct[OF Cons.prems(1)] by (rule distinct_map_filter)
  then have "length ?others = card (set (map e_key ?others))"
    using distinct_card by fastforce
  also have "\<dots> < card ?keys"
  proof (rule psubset_card_mono)
    have "k \<notin> set (map e_key ?others)" "k \<in> ?keys" "set (map e_key ?others) \<subseteq> ?keys"
      using request by auto
    then show "set (map e_key ?others) \<subset> ?keys" by blast
  qed simp
  finally have room: "int (length ?others) < capacity"
    using Cons.prems(3) by simp
  note moved = table_allow_key[OF windows_distinct[OF Cons.prems(1)] room s1(4)[unfolded Cons.prems(2)]]
  have now: "start \<le> now" "now < start + window" using Cons.prems(4) request by auto
  have "budget maximum start (key_window key (windows s1)) + of_bool (k = key \<and> granted) \<le>
      budget maximum start (key_window key (windows s))"
    using budget_key_allow[OF moved(1) now] budget_alike[OF moved(2)[of key] now(2), of maximum]
    by (cases "k = key") auto
  then show ?case
    using rest request grants1(2) by (simp add: granted_to_Cons)
qed

lemma grants_twice:
  assumes "invar s" and "limits s = (maximum, window, capacity)"
    and "int (card (e_key ` set (windows s) \<union> fst ` set requests)) \<le> capacity"
    and "\<forall>(k, t) \<in> set requests. start \<le> t \<and> t < start + window"
    and "answers allow requests s = Some (grants, s')"
  shows "granted_to key requests grants \<le> 2 * max 1 maximum"
proof -
  have "1 \<le> c" if "key_window key (windows s) = Some (b, c)" for b c
    using that windows_counted[OF assms(1)] by (auto simp: key_window_def find_Some_iff)
  then have "budget maximum start (key_window key (windows s)) \<le> 2 * max 1 maximum"
    by (fastforce simp: budget_def split: option.splits)
  then show ?thesis using grants_bounded[OF assms, of key] by linarith
qed

lemma refusal:
  assumes "invar s" and "allow key now s = Some ((False, wait), s')"
  shows "0 < wait" and "\<exists>s''. allow key (now + wait) s' = Some ((True, 0), s'')"
proof -
  obtain maximum window capacity where limits: "limits s = (maximum, window, capacity)" by (cases "limits s")
  let ?live = "dropWhile (expired_entry window now) (windows s)"
  have s': "invar s'" "limits s' = limits s" "table_allow (limits s) key now (windows s) = ((False, wait), windows s')"
    using allow_table[OF assms(1), of key now] assms(2) by auto
  then obtain e where e: "find (\<lambda>e. e_key e = key) ?live = Some e" "\<not> expired_entry window now e"
      "wait = window - (now - e_startedAt e)" "windows s' = ?live"
    by (auto simp: table_allow_def limits Let_def split: option.splits if_splits)
  show "0 < wait" using e by (simp add: expired_entry_def)
  obtain r s'' where s'': "allow key (now + wait) s' = Some (r, s'')"
      "table_allow (limits s') key (now + wait) (windows s') = (r, windows s'')"
    using allow_table[OF s'(1), of key "now + wait"] by blast
  have "alike window (now + wait) (key_window key (windows s'))
      (key_window key (dropWhile (expired_entry window (now + wait)) (windows s')))"
    by (rule dropWhile_window[OF windows_distinct[OF s'(1)]])
  moreover have "key_window key (windows s') = Some (e_startedAt e, e_count e)"
    using e by (simp add: key_window_def)
  ultimately have "r = (True, 0)"
    using s''(2) e(3) by (auto simp: table_allow_def s'(2) limits Let_def alike_def key_window_def expired_entry_def
        split: option.splits if_splits)
  then show "\<exists>s''. allow key (now + wait) s' = Some ((True, 0), s'')" using s''(1) by simp
qed

end

lemma newRateLimiter_inv:
  "1 \<le> capacity \<Longrightarrow> rl_inv (newRateLimiter maximum window capacity)"
  "rl_limits (newRateLimiter maximum window capacity) = (maximum, window, capacity)"
  "rl_table (newRateLimiter maximum window capacity) = []"
  by (simp_all add: rl_inv_def newRateLimiter_def rl_limits_def rl_table_def)

interpretation limiter: rate_limit Allow rl_inv rl_limits rl_table
  by unfold_locales (rule Allow_refines, assumption, erule rl_distinct, auto simp: rl_table_def rl_inv_def)

lemma limiter_run:
  assumes "1 \<le> capacity" and "answers Allow past (newRateLimiter maximum window capacity) = Some (g, lim)"
  shows "rl_inv lim" and "rl_limits lim = (maximum, window, capacity)" and "e_key ` set (rl_table lim) \<subseteq> fst ` set past"
  using limiter.always_answers[OF newRateLimiter_inv(1)[OF assms(1)], of past maximum window] assms(2) newRateLimiter_inv(2,3)
  by auto

section \<open>Properties\<close>

text \<open>C18: The limiter always answers, and as the plain table of windows does: sharing the elements between
  the map and the list is not observable.\<close>

theorem limiter_refines_table:
  assumes "1 \<le> capacity"
  shows "map_option fst (answers Allow requests (newRateLimiter maximum window capacity)) =
      map_option fst (answers (\<lambda>key now rows. Some (table_allow (maximum, window, capacity) key now rows)) requests []) \<and>
    answers Allow requests (newRateLimiter maximum window capacity) \<noteq> None"
proof -
  have "map_option fst (answers Allow requests lim) =
      map_option fst (answers (\<lambda>key now rows. Some (table_allow (maximum, window, capacity) key now rows)) requests (rl_table lim))"
    if "rl_inv lim" "rl_limits lim = (maximum, window, capacity)" for lim
    using that
  proof (induction requests arbitrary: lim)
    case (Cons request requests)
    obtain key now where request: "request = (key, now)" by (cases request)
    obtain r lim1 where lim1: "Allow key now lim = Some (r, lim1)" "rl_inv lim1" "rl_limits lim1 = rl_limits lim"
        "table_allow (maximum, window, capacity) key now (rl_table lim) = (r, rl_table lim1)"
      using Allow_refines[OF Cons.prems(1)] Cons.prems(2) by metis
    have fst_cons: "map_option fst (map_option (apfst ((#) b)) x) = map_option ((#) b) (map_option fst x)"
      for b and x :: "(bool list \<times> 'b) option"
      by (cases x) auto
    show ?case
      using Cons.IH[OF lim1(2)] Cons.prems(2) lim1 request by (cases r) (simp add: fst_cons)
  qed simp
  moreover have "answers Allow requests (newRateLimiter maximum window capacity) \<noteq> None"
    using limiter.always_answers[OF newRateLimiter_inv(1)[OF assms]] by (metis option.distinct(1))
  ultimately show ?thesis
    using newRateLimiter_inv(1)[OF assms] by (simp add: newRateLimiter_inv(2,3))
qed

theorem limiter_refines_table_witness:
  "map_option fst (answers Allow [(''a'', 0), (''b'', 1), (''a'', 2), (''b'', 12)] (newRateLimiter 1 10 2)) =
     Some [True, True, False, True]"
proof -
  have "map_option fst (answers (\<lambda>key now rows. Some (table_allow (1, 10, 2) key now rows))
      [(''a'', 0), (''b'', 1), (''a'', 2), (''b'', 12)] []) = Some [True, True, False, True]"
    by (simp add: table_allow_def expired_entry_def)
  then show ?thesis
    using limiter_refines_table[of 2 "[(''a'', 0), (''b'', 1), (''a'', 2), (''b'', 12)]" 1 10] by simp
qed

text \<open>C19: While the table has room for every key that asked, no key is granted more than twice the maximum
  within any period as long as the window.\<close>

theorem rate_limit_bound:
  assumes "1 \<le> capacity" and "answers Allow past (newRateLimiter maximum window capacity) = Some (g, lim)"
    and "answers Allow requests lim = Some (grants, lim')"
    and "int (card (fst ` set (past @ requests))) \<le> capacity"
    and "\<forall>(k, t) \<in> set requests. start \<le> t \<and> t < start + window"
  shows "granted_to key requests grants \<le> 2 * max 1 maximum"
proof -
  note lim = limiter_run[OF assms(1,2)]
  have "card (e_key ` set (rl_table lim) \<union> fst ` set requests) \<le> card (fst ` set (past @ requests))"
    using lim(3) by (intro card_mono) auto
  then have "int (card (e_key ` set (rl_table lim) \<union> fst ` set requests)) \<le> capacity"
    using assms(4) by linarith
  then show ?thesis by (rule limiter.grants_twice[OF lim(1,2) _ assms(5,3)])
qed

definition ex_requests :: "(string \<times> instant) list" where
  "ex_requests = [(''a'', 8), (''a'', 9), (''b'', 9), (''a'', 10), (''a'', 11), (''a'', 12)]"

lemma ex_answers:
  "answers Allow [(''a'', 0)] (newRateLimiter 2 10 5) = Some ([True], the (map_option snd (answers Allow [(''a'', 0)] (newRateLimiter 2 10 5))))"
  "map_option fst (answers Allow ex_requests (the (map_option snd (answers Allow [(''a'', 0)] (newRateLimiter 2 10 5))))) =
     Some [True, False, True, True, True, False]"
  by (simp_all add: Allow_def newRateLimiter_def removeExpired.simps make_room.simps ex_requests_def push_entry_def
    update_element_def remove_element_def Let_def)

theorem rate_limit_bound_witness:
  "\<exists>lim grants lim'. answers Allow [(''a'', 0)] (newRateLimiter 2 10 5) = Some ([True], lim) \<and>
     answers Allow ex_requests lim = Some (grants, lim') \<and>
     granted_to ''a'' ex_requests grants = 3 \<and> granted_to ''a'' ex_requests grants \<le> 2 * max 1 2"
proof -
  obtain lim where lim: "answers Allow [(''a'', 0)] (newRateLimiter 2 10 5) = Some ([True], lim)"
      "map_option fst (answers Allow ex_requests lim) = Some [True, False, True, True, True, False]"
    using ex_answers by blast
  then obtain lim' where lim': "answers Allow ex_requests lim = Some ([True, False, True, True, True, False], lim')"
    by auto
  have "granted_to ''a'' ex_requests [True, False, True, True, True, False] \<le> 2 * max 1 2"
    by (rule rate_limit_bound[OF _ lim(1) lim', where start = 8]) (simp_all add: ex_requests_def card_insert_if)
  then show ?thesis using lim lim' by (auto simp: granted_to_def ex_requests_def)
qed

text \<open>C20: A refused key is told how long to wait, and asking again after just that wait is granted.\<close>

theorem refused_until_retry:
  assumes "1 \<le> capacity" and "answers Allow past (newRateLimiter maximum window capacity) = Some (g, lim)"
    and "Allow key now lim = Some ((False, wait), lim')"
  shows "0 < wait \<and> (\<exists>lim''. Allow key (now + wait) lim' = Some ((True, 0), lim''))"
  using limiter.refusal[OF limiter_run(1)[OF assms(1,2)] assms(3)] by blast

theorem refused_until_retry_witness:
  "\<exists>lim lim'. Allow ''a'' 3 lim = Some ((False, 7), lim') \<and> (\<exists>lim''. Allow ''a'' 10 lim' = Some ((True, 0), lim''))"
proof -
  obtain lim lim' where run: "answers Allow [(''a'', 0)] (newRateLimiter 1 10 5) = Some ([True], lim)"
      "Allow ''a'' 3 lim = Some ((False, 7), lim')"
    by (simp add: Allow_def newRateLimiter_def removeExpired.simps make_room.simps push_entry_def Let_def)
  then show ?thesis using refused_until_retry[OF _ run] by auto
qed

text \<open>C21: However many keys ask, the limiter keeps at most \<open>capacity\<close> of them, and a key it does not keep
  is never refused: the oldest window makes room.\<close>

theorem bounded_memory_no_lockout:
  assumes "1 \<le> capacity" and "answers Allow past (newRateLimiter maximum window capacity) = Some (g, lim)"
  shows "int (length (rl_entries lim)) \<le> capacity \<and> length (rl_order lim) = length (rl_entries lim) \<and>
    (map_of (rl_entries lim) key = None \<longrightarrow> (\<exists>lim'. Allow key now lim = Some ((True, 0), lim')))"
proof -
  note lim = limiter_run[OF assms]
  have cap: "rl_capacity lim = capacity" using lim(2) by (simp add: rl_limits_def)
  have "\<exists>lim'. Allow key now lim = Some ((True, 0), lim')" if "map_of (rl_entries lim) key = None"
  proof -
    have "\<forall>r \<in> set (rl_table lim). e_key r \<noteq> key" using that rl_map_of_None[OF lim(1)] by simp
    then have "find (\<lambda>e. e_key e = key) (dropWhile (expired_entry window now) (rl_table lim)) = None"
      by (auto simp: find_None_iff dest: set_dropWhileD)
    then show ?thesis
      using Allow_refines[OF lim(1), of key now] lim(2) by (auto simp: table_allow_def Let_def)
  qed
  then show ?thesis using lim(1) rl_length[OF lim(1)] cap by (simp add: rl_inv_def)
qed

theorem bounded_memory_no_lockout_witness:
  "\<exists>lim lim'. answers Allow [(''a'', 0), (''b'', 1)] (newRateLimiter 1 10 2) = Some ([True, True], lim) \<and>
     Allow ''c'' 2 lim = Some ((True, 0), lim')"
proof -
  obtain lim where run: "answers Allow [(''a'', 0), (''b'', 1)] (newRateLimiter 1 10 2) = Some ([True, True], lim)"
      "map_of (rl_entries lim) ''c'' = None"
    by (simp add: Allow_def newRateLimiter_def removeExpired.simps make_room.simps push_entry_def Let_def)
  then show ?thesis using bounded_memory_no_lockout[OF _ run(1), of "''c''" 2] by auto
qed

end
