(* ===== verification/Relay_Frames.thy ===== *)
theory Relay_Frames
  imports Conn_Types
begin

text \<open>
  The frames of the relay (\<open>internal/relay/development.go\<close>): the hello a socket opens with and the
  envelopes it sends, with every check made on them.  The text of a frame is decoded by \<open>encoding/json\<close>
  into a struct, with unknown fields and trailing data refused; that decoding is the parameter
  \<open>decode\<close> of the two parsers, \<open>None\<close> being its error.
\<close>

definition protocolVersion :: int where "protocolVersion = 2"
definition identityVersion :: int where "identityVersion = 1"
definition relay_hpkeSuiteID :: string where "relay_hpkeSuiteID = ''HPKE-Auth-P256-HKDF-SHA256-AES-256-GCM''"
definition maxHelloLength :: nat where "maxHelloLength = 16 * 1024"
definition maxRelayFrameLength :: nat where "maxRelayFrameLength = 2000000"
definition maxCiphertextLength :: nat where "maxCiphertextLength = 1500000"
definition maxEnvelopeTTL :: duration where "maxEnvelopeTTL = 5 * minute"
definition outboundQueueCapacity :: nat where "outboundQueueCapacity = 64"

record hello_message =
  h_ProtocolVersion :: int
  h_Type :: string
  h_PluginVersion :: string
  h_Identity :: public_identity
  h_Nonce :: string
  h_Capabilities :: "string list"

record relay_envelope =
  v_ProtocolVersion :: int
  v_Type :: string
  v_MessageID :: string
  v_SenderKeyID :: string
  v_RecipientKeyID :: string
  v_Epoch :: string
  v_Sequence :: "64 word"
  v_ExpiresAt :: int
  v_Suite :: string
  v_EncapsulatedKey :: string
  v_Ciphertext :: string

section \<open>Base64url and UUID text\<close>

text \<open>The lookup table of the code: the entries the loop over the alphabet sets.\<close>

definition base64URL_table :: "bool list" where
  "base64URL_table = foldl (\<lambda>marks character. marks[byte_nat character := True]) (replicate 256 False) base64URLAlphabet"

definition isBase64URL :: "string \<Rightarrow> bool" where
  "isBase64URL s = list_all (\<lambda>c. base64URL_table ! byte_nat c) s"

definition validBase64URL :: "string \<Rightarrow> nat \<Rightarrow> bool" where
  "validBase64URL s maximumLength \<longleftrightarrow> 0 < length s \<and> length s \<le> maximumLength \<and> isBase64URL s"

definition exactBase64URL :: "string \<Rightarrow> nat \<Rightarrow> bool" where
  "exactBase64URL s n \<longleftrightarrow> length s = n \<and> isBase64URL s"

definition hex_char :: "char \<Rightarrow> bool" where
  "hex_char c = (let n = byte_nat c in (48 \<le> n \<and> n \<le> 57) \<or> (97 \<le> n \<and> n \<le> 102) \<or> (65 \<le> n \<and> n \<le> 70))"

text \<open>The regular expression \<open>uuidPattern\<close>, as the classes its characters must be of, in order.\<close>

definition uuid_classes :: "(char \<Rightarrow> bool) list" where
  "uuid_classes =
     replicate 8 hex_char @ [\<lambda>c. c = CHR ''-''] @ replicate 4 hex_char @ [\<lambda>c. c = CHR ''-''] @
     [\<lambda>c. c \<in> set ''12345678''] @ replicate 3 hex_char @ [\<lambda>c. c = CHR ''-''] @
     [\<lambda>c. c \<in> set ''89abAB''] @ replicate 3 hex_char @ [\<lambda>c. c = CHR ''-''] @ replicate 12 hex_char"

definition uuidPattern :: "string \<Rightarrow> bool" where
  "uuidPattern s \<longleftrightarrow> list_all2 (\<lambda>p c. p c) uuid_classes s"

section \<open>Parsing\<close>

definition relay_validIdentity :: "public_identity \<Rightarrow> bool" where
  "relay_validIdentity identity \<longleftrightarrow>
     i_Version identity = identityVersion \<and> i_Suite identity = relay_hpkeSuiteID \<and>
     exactBase64URL (i_KeyID identity) 43 \<and> validBase64URL (i_PublicKey identity) 1024"

definition parseHello :: "(bytes \<Rightarrow> hello_message option) \<Rightarrow> bytes \<Rightarrow> hello_message option" where
  "parseHello decode message = (case decode message of None \<Rightarrow> None | Some hello \<Rightarrow>
     if h_ProtocolVersion hello \<noteq> protocolVersion \<or> \<not> relay_validIdentity (h_Identity hello) \<or>
        \<not> exactBase64URL (h_Nonce hello) 22
     then None
     else if h_Type hello = ''client.hello'' then
       (if h_PluginVersion hello \<noteq> [] \<or> length (h_Capabilities hello) \<noteq> 0 then None else Some hello)
     else if h_Type hello = ''connector.hello'' then
       (if h_PluginVersion hello = [] \<or> length (h_PluginVersion hello) > 32 \<or> length (h_Capabilities hello) > 64 then None
        else if list_ex (\<lambda>capability. capability = [] \<or> length capability > 64) (h_Capabilities hello) then None
        else Some hello)
     else None)"

text \<open>Go's zero time lies 62135596800 seconds before the Unix epoch.\<close>

definition unix_epoch :: instant where "unix_epoch = 62135596800 * second"

definition UnixMilli :: "instant \<Rightarrow> int" where "UnixMilli t = (t - unix_epoch) div 1000000"

definition parseEnvelope :: "(bytes \<Rightarrow> relay_envelope option) \<Rightarrow> bytes \<Rightarrow> instant \<Rightarrow> relay_envelope option" where
  "parseEnvelope decode message now = (case decode message of None \<Rightarrow> None | Some envelope \<Rightarrow>
     let nowMilliseconds = UnixMilli now in
     if v_ProtocolVersion envelope \<noteq> protocolVersion \<or>
        v_Type envelope \<noteq> ''relay.envelope'' \<or>
        v_Suite envelope \<noteq> relay_hpkeSuiteID \<or>
        \<not> uuidPattern (v_MessageID envelope) \<or>
        \<not> exactBase64URL (v_SenderKeyID envelope) 43 \<or>
        \<not> exactBase64URL (v_RecipientKeyID envelope) 43 \<or>
        \<not> exactBase64URL (v_Epoch envelope) 43 \<or>
        v_ExpiresAt envelope \<le> nowMilliseconds \<or>
        UnixMilli (now + maxEnvelopeTTL) < v_ExpiresAt envelope \<or>
        \<not> validBase64URL (v_EncapsulatedKey envelope) 256 \<or>
        \<not> validBase64URL (v_Ciphertext envelope) maxCiphertextLength
     then None else Some envelope)"

section \<open>Lemmas\<close>

lemma foldl_table:
  "length marks = n \<Longrightarrow> i < n \<Longrightarrow>
   foldl (\<lambda>marks c. marks[byte_nat c := True]) marks cs ! i = (marks ! i \<or> i \<in> byte_nat ` set cs)"
  by (induction cs arbitrary: marks) (auto, (metis nth_list_update_eq nth_list_update_neq)+)

lemma isBase64URL_alphabet: "isBase64URL s \<longleftrightarrow> set s \<subseteq> set base64URLAlphabet"
proof -
  have "base64URL_table ! byte_nat c \<longleftrightarrow> c \<in> set base64URLAlphabet" for c
    using foldl_table[of "replicate 256 False" 256 "byte_nat c" base64URLAlphabet]
    by (auto simp: base64URL_table_def)
  then show ?thesis by (auto simp: isBase64URL_def list_all_iff)
qed

lemma base64URL_no_colon: "CHR '':'' \<notin> set base64URLAlphabet"
  by (simp add: base64URLAlphabet_def)

lemma exact_no_colon: "exactBase64URL s n \<Longrightarrow> CHR '':'' \<notin> set s"
  using base64URL_no_colon by (auto simp: exactBase64URL_def isBase64URL_alphabet)

lemma parseHello_valid:
  assumes "parseHello decode message = Some hello"
  shows "decode message = Some hello" and "h_ProtocolVersion hello = protocolVersion"
    and "relay_validIdentity (h_Identity hello)" and "exactBase64URL (h_Nonce hello) 22"
    and "h_Type hello \<in> {''client.hello'', ''connector.hello''}"
  using assms by (auto simp: parseHello_def split: option.splits if_splits)

lemma parseEnvelope_valid:
  assumes "parseEnvelope decode message now = Some envelope"
  shows "decode message = Some envelope" and "exactBase64URL (v_SenderKeyID envelope) 43"
    and "exactBase64URL (v_RecipientKeyID envelope) 43"
    and "UnixMilli now < v_ExpiresAt envelope" and "v_ExpiresAt envelope \<le> UnixMilli (now + maxEnvelopeTTL)"
    and "uuidPattern (v_MessageID envelope)"
  using assms by (auto simp: parseEnvelope_def Let_def split: option.splits if_splits)

text \<open>An envelope the relay forwards names its parties by 43 base64url bytes each, carries text of that
  alphabet only, and expires after now and within five minutes.\<close>

theorem accepted_envelope_bounded:
  assumes "parseEnvelope decode message now = Some envelope"
  shows "length (v_SenderKeyID envelope) = 43 \<and> length (v_RecipientKeyID envelope) = 43 \<and>
    length (v_MessageID envelope) = 36 \<and>
    set (v_SenderKeyID envelope @ v_RecipientKeyID envelope @ v_Epoch envelope @ v_EncapsulatedKey envelope @ v_Ciphertext envelope)
      \<subseteq> set base64URLAlphabet \<and>
    length (v_Ciphertext envelope) \<in> {1..1500000} \<and>
    now < unix_epoch + v_ExpiresAt envelope * 1000000 \<and>
    unix_epoch + v_ExpiresAt envelope * 1000000 \<le> now + 5 * 60 * 1000000000"
proof -
  have "v_ExpiresAt envelope \<le> (now + 5 * 60 * 1000000000 - unix_epoch) div 1000000"
      "(now - unix_epoch) div 1000000 < v_ExpiresAt envelope"
    using parseEnvelope_valid(4,5)[OF assms] by (simp_all add: UnixMilli_def maxEnvelopeTTL_def duration_defs)
  then have "unix_epoch + v_ExpiresAt envelope * 1000000 \<le> now + 5 * 60 * 1000000000"
      "now < unix_epoch + v_ExpiresAt envelope * 1000000"
    by linarith+
  moreover have "length (v_MessageID envelope) = 36"
    using parseEnvelope_valid(6)[OF assms]
    by (auto simp: uuidPattern_def uuid_classes_def dest: list_all2_lengthD)
  ultimately show ?thesis
    using assms
    by (auto simp: parseEnvelope_def exactBase64URL_def validBase64URL_def isBase64URL_alphabet maxCiphertextLength_def
        Let_def Suc_le_eq split: option.splits if_splits)
qed

definition ex_envelope :: relay_envelope where
  "ex_envelope = \<lparr> v_ProtocolVersion = 2, v_Type = ''relay.envelope'', v_MessageID = ''01234567-89ab-4cde-8f01-23456789abcd'',
     v_SenderKeyID = replicate 43 CHR ''s'', v_RecipientKeyID = replicate 43 CHR ''r'', v_Epoch = replicate 43 CHR ''e'',
     v_Sequence = 0, v_ExpiresAt = 1000, v_Suite = relay_hpkeSuiteID, v_EncapsulatedKey = ''key'', v_Ciphertext = ''text'' \<rparr>"

lemma ex_envelope_accepted: "parseEnvelope (\<lambda>_. Some ex_envelope) message unix_epoch = Some ex_envelope"
proof -
  have "uuidPattern ''01234567-89ab-4cde-8f01-23456789abcd''" by code_simp
  then show ?thesis
    by (simp add: parseEnvelope_def ex_envelope_def protocolVersion_def exactBase64URL_def validBase64URL_def
      isBase64URL_alphabet base64URLAlphabet_def UnixMilli_def maxEnvelopeTTL_def maxCiphertextLength_def duration_defs)
qed

theorem accepted_envelope_bounded_witness:
  "unix_epoch < unix_epoch + v_ExpiresAt ex_envelope * 1000000 \<and> length (v_SenderKeyID ex_envelope) = 43"
  using accepted_envelope_bounded[OF ex_envelope_accepted] by blast

end
