(* ===== verification/Relay_Hub.thy ===== *)
theory Relay_Hub
  imports Relay_Frames "HOL-Library.AList" "HOL-Library.Multiset"
begin

text \<open>
  The relay's hub of live sockets (\<open>internal/relay/production.go\<close>): peers, their bounded queues, and the
  operations on the hub.  A peer is a pointer in the code; here it is its position in the list of all
  sockets ever opened.  Each operation of the hub is the critical section it runs under the mutex, and
  the list of effects on other peers it carries out after unlocking, in order: the effects of
  different goroutines interleave.  Ranging over a Go map visits the entries in no particular order;
  the visiting order is an argument.
\<close>

text \<open>
  What a queue holds.  The code queues JSON text; the model keeps the struct it is the text of, and the
  socket it came from, which the receiver does not see.
\<close>

datatype outbound =
    Ready string string instant
  | PeerHello nat hello_message
  | PeerOffline nat string string
  | Forwarded nat bytes

record secure_peer =
  sp_admission :: admission
  sp_userID :: string
  sp_role :: string
  sp_keyID :: string
  sp_hello :: hello_message
  sp_trusted :: "string list"
  sp_send :: "outbound list"
  sp_done :: bool

record relay_hub =
  sockets :: "secure_peer list"
  hub_peers :: "(string \<times> nat) list"

datatype relay_effect = Enqueue nat outbound | Stop nat

definition newSecureHub :: relay_hub where
  "newSecureHub = \<lparr> sockets = [], hub_peers = [] \<rparr>"

definition securePeerID :: "string \<Rightarrow> string \<Rightarrow> string" where
  "securePeerID userID keyID = userID @ '':'' @ keyID"

definition newSecurePeer :: "admission \<Rightarrow> hello_message \<Rightarrow> secure_peer" where
  "newSecurePeer admission hello = \<lparr> sp_admission = admission, sp_userID = ad_UserID admission,
     sp_role = ad_Role admission, sp_keyID = i_KeyID (ad_Identity admission), sp_hello = hello,
     sp_trusted = map i_KeyID (ad_TrustedIdentities admission), sp_send = [], sp_done = False \<rparr>"

definition relayReadyMessage :: "admission \<Rightarrow> outbound" where
  "relayReadyMessage admission = Ready (ad_Role admission) (i_KeyID (ad_Identity admission)) (ad_AuthorizationExpiresAt admission)"

section \<open>Peers\<close>

definition stop_peer :: "secure_peer \<Rightarrow> secure_peer" where
  "stop_peer p = p\<lparr>sp_done := True\<rparr>"

text \<open>
  The select of \<open>enqueue\<close>: of the ready cases Go picks any, so a stopped peer with room in its queue may
  still take the message (\<open>done_first\<close> says which is picked); a full queue stops the peer.
\<close>

definition enqueue :: "bool \<Rightarrow> outbound \<Rightarrow> secure_peer \<Rightarrow> bool \<times> secure_peer" where
  "enqueue done_first message p =
     (let room = length (sp_send p) < outboundQueueCapacity in
      if sp_done p \<and> (done_first \<or> \<not> room) then (False, p)
      else if room then (True, p\<lparr>sp_send := sp_send p @ [message]\<rparr>)
      else (False, stop_peer p))"

definition on_socket :: "nat \<Rightarrow> (secure_peer \<Rightarrow> secure_peer) \<Rightarrow> relay_hub \<Rightarrow> relay_hub" where
  "on_socket i f hub = hub\<lparr>sockets := (sockets hub)[i := f (sockets hub ! i)]\<rparr>"

fun perform :: "bool \<Rightarrow> relay_effect \<Rightarrow> relay_hub \<Rightarrow> relay_hub" where
  "perform done_first (Enqueue i message) hub = on_socket i (\<lambda>p. snd (enqueue done_first message p)) hub"
| "perform done_first (Stop i) hub = on_socket i stop_peer hub"

text \<open>The effects of one goroutine carried out without interruption.\<close>

definition perform_all :: "relay_effect list \<Rightarrow> relay_hub \<Rightarrow> relay_hub" where
  "perform_all effects hub = foldl (\<lambda>hub e. perform True e hub) hub effects"

section \<open>The hub\<close>

definition trusts :: "secure_peer \<Rightarrow> string \<Rightarrow> bool" where
  "trusts p keyID \<longleftrightarrow> keyID \<in> set (sp_trusted p)"

text \<open>The two messages that introduce a peer of the hub to the one that connected, unless the loop skips it.\<close>

definition introductions :: "relay_hub \<Rightarrow> nat \<Rightarrow> nat \<Rightarrow> relay_effect list" where
  "introductions hub connected i =
     (let peer = sockets hub ! i; new = sockets hub ! connected in
      if i = connected \<or> sp_userID peer \<noteq> sp_userID new \<or> sp_role peer = sp_role new then []
      else if \<not> trusts peer (sp_keyID new) then []
      else if \<not> trusts new (sp_keyID peer) then []
      else [Enqueue i (PeerHello connected (sp_hello new)), Enqueue connected (PeerHello i (sp_hello peer))])"

definition register_peer :: "(string \<times> nat) list \<Rightarrow> nat \<Rightarrow> relay_hub \<Rightarrow> relay_hub \<times> relay_effect list" where
  "register_peer order connected hub =
     (let new = sockets hub ! connected; peerID = securePeerID (sp_userID new) (sp_keyID new);
          existing = map_of (hub_peers hub) peerID;
          hub = hub\<lparr>hub_peers := AList.update peerID connected (hub_peers hub)\<rparr> in
      (hub, (case existing of Some e \<Rightarrow> [Stop e] | None \<Rightarrow> []) @
        concat (map (\<lambda>(_, i). introductions hub connected i) order)))"

definition unregister_peer :: "(string \<times> nat) list \<Rightarrow> nat \<Rightarrow> relay_hub \<Rightarrow> relay_hub \<times> relay_effect list" where
  "unregister_peer order connected hub =
     (let old = sockets hub ! connected; peerID = securePeerID (sp_userID old) (sp_keyID old) in
      if map_of (hub_peers hub) peerID \<noteq> Some connected then (hub, [])
      else
        let hub = hub\<lparr>hub_peers := AList.delete peerID (hub_peers hub)\<rparr>;
            isConnector = (sp_role old = RelayRoleConnector);
            peerRole = (if isConnector then RelayRoleClient else RelayRoleConnector);
            offlineType = (if isConnector then ''connector.offline'' else ''client.offline'');
            recipients = filter (\<lambda>i. sp_userID (sockets hub ! i) = sp_userID old \<and>
              sp_role (sockets hub ! i) = peerRole \<and> trusts (sockets hub ! i) (sp_keyID old)) (map snd order) in
        (hub, map (\<lambda>i. Enqueue i (PeerOffline connected offlineType (sp_keyID old))) recipients))"

definition route :: "nat \<Rightarrow> string \<Rightarrow> bytes \<Rightarrow> relay_hub \<Rightarrow> bool \<times> relay_effect list" where
  "route sender recipientKeyID message hub =
     (let from = sockets hub ! sender in
      if \<not> trusts from recipientKeyID then (False, [])
      else case map_of (hub_peers hub) (securePeerID (sp_userID from) recipientKeyID) of
        None \<Rightarrow> (True, [])
      | Some i \<Rightarrow>
          if sp_role (sockets hub ! i) = sp_role from \<or> \<not> trusts (sockets hub ! i) (sp_keyID from)
          then (False, [])
          else (True, [Enqueue i (Forwarded sender message)]))"

definition disconnect :: "(string \<times> nat) list \<Rightarrow> (admission \<Rightarrow> bool) \<Rightarrow> relay_hub \<Rightarrow> nat \<times> relay_effect list" where
  "disconnect order covers hub =
     (let matched = filter (\<lambda>i. covers (sp_admission (sockets hub ! i))) (map snd order) in
      (length matched, map Stop matched))"

definition close_hub :: "(string \<times> nat) list \<Rightarrow> relay_hub \<Rightarrow> relay_hub \<times> relay_effect list" where
  "close_hub order hub = (hub\<lparr>hub_peers := []\<rparr>, map (Stop \<circ> snd) order)"

section \<open>Admission of a socket\<close>

definition helloMatchesAdmission :: "hello_message \<Rightarrow> admission \<Rightarrow> bool" where
  "helloMatchesAdmission hello admission \<longleftrightarrow>
     h_Type hello = ad_Role admission @ ''.hello'' \<and>
     i_Version (h_Identity hello) = i_Version (ad_Identity admission) \<and>
     i_Suite (h_Identity hello) = i_Suite (ad_Identity admission) \<and>
     i_KeyID (h_Identity hello) = i_KeyID (ad_Identity admission) \<and>
     i_PublicKey (h_Identity hello) = i_PublicKey (ad_Identity admission)"

text \<open>The part of an HTTP request the handler reads: two headers and the offered subprotocols.\<close>

record upgrade_request =
  u_Origin :: string
  u_SecFetchSite :: string
  u_Subprotocols :: "string list"

definition relayWebSocketProtocol :: string where "relayWebSocketProtocol = ''opencode-remote.v1''"

definition allowOrigin :: "string list \<Rightarrow> upgrade_request \<Rightarrow> bool" where
  "allowOrigin allowed request =
     (if u_Origin request = [] then u_SecFetchSite request \<noteq> ''cross-site''
      else u_Origin request \<in> set allowed)"

definition relayTicket :: "upgrade_request \<Rightarrow> string option" where
  "relayTicket request =
     (case u_Subprotocols request of
        [protocol, offer] \<Rightarrow>
          (if protocol \<noteq> relayWebSocketProtocol \<or> \<not> HasPrefix offer ''ticket.'' then None
           else let ticket = TrimPrefix offer ''ticket.'' in if ticket = [] then None else Some ticket)
      | _ \<Rightarrow> None)"

text \<open>The origins a handler allows: the configured ones, trimmed, without the empty ones.\<close>

definition allowed_origins :: "string list \<Rightarrow> string list" where
  "allowed_origins configured = filter (\<lambda>origin. origin \<noteq> []) (map TrimSpace configured)"

text \<open>The first frame of a socket decides whether it is admitted.\<close>

definition admits :: "(bytes \<Rightarrow> hello_message option) \<Rightarrow> instant \<Rightarrow> admission \<Rightarrow> bytes \<Rightarrow> hello_message option" where
  "admits decode now admission message =
     (case parseHello decode message of None \<Rightarrow> None | Some hello \<Rightarrow>
        if \<not> helloMatchesAdmission hello admission \<or> \<not> now < ad_AuthorizationExpiresAt admission then None
        else Some hello)"

text \<open>One later frame: whether the socket stays open, and what is delivered.\<close>

definition relay_frame ::
  "(bytes \<Rightarrow> relay_envelope option) \<Rightarrow> instant \<Rightarrow> nat \<Rightarrow> bytes \<Rightarrow> relay_hub \<Rightarrow> bool \<times> relay_effect list" where
  "relay_frame decode now sender message hub =
     (case parseEnvelope decode message now of None \<Rightarrow> (False, [])
      | Some envelope \<Rightarrow>
          if v_SenderKeyID envelope \<noteq> sp_keyID (sockets hub ! sender) then (False, [])
          else route sender (v_RecipientKeyID envelope) message hub)"

section \<open>The periodic check\<close>

definition defaultRevalidationInterval :: duration where "defaultRevalidationInterval = 30 * second"
definition revalidationRetry :: duration where "revalidationRetry = 5 * second"

datatype monitor_action = CloseSocket | CheckAfter duration

text \<open>\<open>random\<close> is the draw of \<open>rand.N(interval)\<close>, at least 0 and less than the interval.\<close>

definition jittered :: "duration \<Rightarrow> duration \<Rightarrow> duration" where
  "jittered random interval = go_div interval 2 + random"

definition monitor_action :: "duration \<Rightarrow> duration \<Rightarrow> conn_error option \<Rightarrow> monitor_action" where
  "monitor_action random interval result = (case result of
     None \<Rightarrow> CheckAfter (jittered random interval)
   | Some e \<Rightarrow> if e = ErrUnauthorized then CloseSocket else CheckAfter (min revalidationRetry interval))"

definition revalidation_interval :: "duration \<Rightarrow> duration" where
  "revalidation_interval configured = (if configured \<le> 0 then defaultRevalidationInterval else configured)"

end
