(* ===== verification/Relay_Machine.thy ===== *)
theory Relay_Machine
  imports Relay_Hub
begin

text \<open>
  The relay as a step relation.  A step is one critical section of the hub, one effect a goroutine still
  has to carry out, or one action of a socket's own goroutines; they interleave freely.  The
  invariant says who may receive what, at every point of every run.
\<close>

record relay_world =
  rw_hub :: relay_hub
  rw_pending :: "relay_effect list list"
  rw_written :: "(nat \<times> outbound) list"
  rw_ended :: "nat list"

definition initial_relay :: relay_world where
  "initial_relay = \<lparr> rw_hub = newSecureHub, rw_pending = [], rw_written = [], rw_ended = [] \<rparr>"

text \<open>A goroutine leaves a critical section with effects to carry out.\<close>

definition launch :: "relay_hub \<times> relay_effect list \<Rightarrow> relay_world \<Rightarrow> relay_world" where
  "launch r w = w\<lparr>rw_hub := fst r, rw_pending := rw_pending w @ [snd r]\<rparr>"

text \<open>A new socket: its queue starts with the ready message, and it is entered in the hub.\<close>

definition open_socket :: "admission \<Rightarrow> hello_message \<Rightarrow> relay_hub \<Rightarrow> relay_hub" where
  "open_socket admission hello hub = hub\<lparr>sockets := sockets hub @
     [snd (enqueue True (relayReadyMessage admission) (newSecurePeer admission hello))]\<rparr>"

definition connect :: "(string \<times> nat) list \<Rightarrow> admission \<Rightarrow> hello_message \<Rightarrow> relay_world \<Rightarrow> relay_world" where
  "connect order admission hello w =
     launch (register_peer order (length (sockets (rw_hub w))) (open_socket admission hello (rw_hub w))) w"

definition deliver :: "nat \<Rightarrow> relay_world \<Rightarrow> relay_world" where
  "deliver i w = (case sp_send (sockets (rw_hub w) ! i) of [] \<Rightarrow> w
     | m # ms \<Rightarrow> w\<lparr>rw_hub := on_socket i (\<lambda>p. p\<lparr>sp_send := ms\<rparr>) (rw_hub w), rw_written := rw_written w @ [(i, m)]\<rparr>)"

definition stop_socket :: "nat \<Rightarrow> relay_world \<Rightarrow> relay_world" where
  "stop_socket i w = w\<lparr>rw_hub := on_socket i stop_peer (rw_hub w)\<rparr>"

inductive relay_step ::
  "(bytes \<Rightarrow> hello_message option) \<Rightarrow> (bytes \<Rightarrow> relay_envelope option) \<Rightarrow> relay_world \<Rightarrow> relay_world \<Rightarrow> bool"
  for dh de where
  connected: "admits dh now admission message = Some hello \<Longrightarrow>
    mset order = mset (hub_peers (rw_hub (connect order admission hello w))) \<Longrightarrow>
    relay_step dh de w (connect order admission hello w)"
| left: "i < length (sockets (rw_hub w)) \<Longrightarrow>
    mset order = mset (hub_peers (fst (unregister_peer order i (rw_hub w)))) \<Longrightarrow>
    relay_step dh de w (launch (unregister_peer order i (rw_hub w)) w)"
| frame: "i < length (sockets (rw_hub w)) \<Longrightarrow> relay_frame de now i message (rw_hub w) = (ok, effects) \<Longrightarrow>
    relay_step dh de w (launch (rw_hub w, effects) w)"
| revoked: "mset order = mset (hub_peers (rw_hub w)) \<Longrightarrow>
    relay_step dh de w (launch (rw_hub w, snd (disconnect order covers (rw_hub w))) w)"
| closed: "mset order = mset (hub_peers (rw_hub w)) \<Longrightarrow>
    relay_step dh de w (launch (close_hub order (rw_hub w)) w)"
| effect: "rw_pending w = before @ (e # es) # after \<Longrightarrow>
    relay_step dh de w (w\<lparr>rw_hub := perform done_first e (rw_hub w), rw_pending := before @ es # after\<rparr>)"
| wrote: "i < length (sockets (rw_hub w)) \<Longrightarrow> i \<notin> set (rw_ended w) \<Longrightarrow> relay_step dh de w (deliver i w)"
| stopped: "i < length (sockets (rw_hub w)) \<Longrightarrow> relay_step dh de w (stop_socket i w)"
| ended: "i < length (sockets (rw_hub w)) \<Longrightarrow> relay_step dh de w (w\<lparr>rw_ended := i # rw_ended w\<rparr>)"

definition relay_reachable where
  "relay_reachable dh de w \<longleftrightarrow> (relay_step dh de)\<^sup>*\<^sup>* initial_relay w"

section \<open>What never changes of a socket\<close>

definition same_peer :: "secure_peer \<Rightarrow> secure_peer \<Rightarrow> bool" where
  "same_peer p q \<longleftrightarrow> q = p\<lparr>sp_send := sp_send q, sp_done := sp_done q\<rparr>"

lemma same_peerD:
  "same_peer p q \<Longrightarrow> sp_userID q = sp_userID p \<and> sp_role q = sp_role p \<and> sp_keyID q = sp_keyID p \<and>
     sp_hello q = sp_hello p \<and> sp_trusted q = sp_trusted p \<and> sp_admission q = sp_admission p"
  unfolding same_peer_def by (metis secure_peer.select_convs(1-6) secure_peer.surjective secure_peer.update_convs(7,8))

lemma same_peer_refl [simp]: "same_peer p p"
  by (simp add: same_peer_def)

lemma same_peer_updates [simp]:
  "same_peer p (p\<lparr>sp_send := ms\<rparr>)" "same_peer p (stop_peer p)" "same_peer p (snd (enqueue d m p))"
  by (auto simp: same_peer_def stop_peer_def enqueue_def Let_def)

definition extends :: "secure_peer list \<Rightarrow> secure_peer list \<Rightarrow> bool" where
  "extends ss ss' \<longleftrightarrow> length ss \<le> length ss' \<and> (\<forall>i < length ss. same_peer (ss ! i) (ss' ! i))"

lemma extends_refl [simp]: "extends ss ss"
  by (simp add: extends_def)

lemma extends_append [simp]: "extends ss (ss @ ps)"
  by (simp add: extends_def nth_append)

lemma extends_on_socket [simp]:
  "(\<And>p. same_peer p (f p)) \<Longrightarrow> extends (sockets hub) (sockets (on_socket i f hub))"
  by (auto simp: extends_def on_socket_def) (metis same_peer_refl nth_list_update_eq nth_list_update_neq)

lemma extends_nth:
  assumes "extends ss ss'" and "i < length ss"
  shows "i < length ss'" and "sp_userID (ss' ! i) = sp_userID (ss ! i)" and "sp_role (ss' ! i) = sp_role (ss ! i)"
    and "sp_keyID (ss' ! i) = sp_keyID (ss ! i)" and "sp_hello (ss' ! i) = sp_hello (ss ! i)"
    and "sp_trusted (ss' ! i) = sp_trusted (ss ! i)" and "sp_admission (ss' ! i) = sp_admission (ss ! i)"
  using assms same_peerD[of "ss ! i" "ss' ! i"] by (auto simp: extends_def)

lemma hub_on_socket [simp]: "hub_peers (on_socket i f hub) = hub_peers hub" "length (sockets (on_socket i f hub)) = length (sockets hub)"
  by (simp_all add: on_socket_def)

lemma perform_static:
  "extends (sockets hub) (sockets (perform d e hub))" "hub_peers (perform d e hub) = hub_peers hub"
  by (cases e; simp)+

section \<open>Who may receive what\<close>

definition counterparts :: "secure_peer \<Rightarrow> secure_peer \<Rightarrow> bool" where
  "counterparts p q \<longleftrightarrow> sp_userID p = sp_userID q \<and> sp_role p \<noteq> sp_role q \<and> trusts p (sp_keyID q) \<and> trusts q (sp_keyID p)"

definition delivery_ok :: "secure_peer list \<Rightarrow> nat \<Rightarrow> outbound \<Rightarrow> bool" where
  "delivery_ok ss i m \<longleftrightarrow> i < length ss \<and> (case m of
     Ready _ _ _ \<Rightarrow> True
   | PeerHello j hello \<Rightarrow> j < length ss \<and> hello = sp_hello (ss ! j) \<and> counterparts (ss ! j) (ss ! i)
   | PeerOffline j kind keyID \<Rightarrow> j < length ss \<and> keyID = sp_keyID (ss ! j) \<and> sp_userID (ss ! i) = sp_userID (ss ! j) \<and>
       sp_role (ss ! i) \<noteq> sp_role (ss ! j) \<and> trusts (ss ! i) (sp_keyID (ss ! j))
   | Forwarded j _ \<Rightarrow> j < length ss \<and> counterparts (ss ! j) (ss ! i))"

lemma delivery_ok_extends:
  assumes "extends ss ss'" and "delivery_ok ss i m"
  shows "delivery_ok ss' i m"
  using assms(2) by (auto simp: delivery_ok_def counterparts_def trusts_def extends_nth[OF assms(1)] split: outbound.splits)

definition effect_ok :: "secure_peer list \<Rightarrow> relay_effect \<Rightarrow> bool" where
  "effect_ok ss e \<longleftrightarrow> (case e of Enqueue i m \<Rightarrow> delivery_ok ss i m | Stop i \<Rightarrow> i < length ss)"

lemma effect_ok_extends: "extends ss ss' \<Longrightarrow> effect_ok ss e \<Longrightarrow> effect_ok ss' e"
  by (auto simp: effect_ok_def delivery_ok_extends split: relay_effect.splits) (simp add: extends_def)

definition peer_ok :: "secure_peer \<Rightarrow> bool" where
  "peer_ok p \<longleftrightarrow> sp_userID p = ad_UserID (sp_admission p) \<and> sp_role p = ad_Role (sp_admission p) \<and>
     sp_keyID p = i_KeyID (ad_Identity (sp_admission p)) \<and> sp_trusted p = map i_KeyID (ad_TrustedIdentities (sp_admission p)) \<and>
     length (sp_keyID p) = 43 \<and> sp_role p \<in> {RelayRoleClient, RelayRoleConnector}"

lemma peer_ok_same: "same_peer p q \<Longrightarrow> peer_ok p \<Longrightarrow> peer_ok q"
  unfolding peer_ok_def by (drule same_peerD) metis

definition hub_ok :: "relay_hub \<Rightarrow> bool" where
  "hub_ok hub \<longleftrightarrow> distinct (map fst (hub_peers hub)) \<and>
     (\<forall>(k, i) \<in> set (hub_peers hub). i < length (sockets hub) \<and>
        k = securePeerID (sp_userID (sockets hub ! i)) (sp_keyID (sockets hub ! i))) \<and>
     (\<forall>p \<in> set (sockets hub). peer_ok p \<and> length (sp_send p) \<le> outboundQueueCapacity)"

definition relay_inv :: "relay_world \<Rightarrow> bool" where
  "relay_inv w \<longleftrightarrow> hub_ok (rw_hub w) \<and>
     (\<forall>es \<in> set (rw_pending w). \<forall>e \<in> set es. effect_ok (sockets (rw_hub w)) e) \<and>
     (\<forall>i < length (sockets (rw_hub w)). \<forall>m \<in> set (sp_send (sockets (rw_hub w) ! i)). delivery_ok (sockets (rw_hub w)) i m) \<and>
     (\<forall>(i, m) \<in> set (rw_written w). delivery_ok (sockets (rw_hub w)) i m)"

lemma securePeerID_inj:
  assumes "securePeerID u k = securePeerID u' k'" and "length k = 43" and "length k' = 43"
  shows "u = u'" and "k = k'"
  using assms by (auto simp: securePeerID_def)

lemma enqueue_room:
  "length (sp_send p) \<le> outboundQueueCapacity \<Longrightarrow> length (sp_send (snd (enqueue d m p))) \<le> outboundQueueCapacity"
  by (simp add: enqueue_def Let_def stop_peer_def)

lemma hub_ok_on_socket:
  assumes "hub_ok hub" and i: "i < length (sockets hub)" and f: "\<And>p. same_peer p (f p)"
    and "length (sp_send (f (sockets hub ! i))) \<le> outboundQueueCapacity"
  shows "hub_ok (on_socket i f hub)"
proof -
  have "extends (sockets hub) (sockets (on_socket i f hub))" using f by simp
  note ext = extends_nth[OF this]
  have "sockets hub ! i \<in> set (sockets hub)" using i by simp
  then have "peer_ok (f (sockets hub ! i))"
    using assms(1) peer_ok_same[OF f] unfolding hub_ok_def by blast
  moreover have "p = f (sockets hub ! i) \<or> p \<in> set (sockets hub)" if "p \<in> set (sockets (on_socket i f hub))" for p
    using that set_update_subset_insert[of "sockets hub" i] by (auto simp: on_socket_def)
  ultimately have "peer_ok p \<and> length (sp_send p) \<le> outboundQueueCapacity" if "p \<in> set (sockets (on_socket i f hub))" for p
    using that assms(1,4) by (auto simp: hub_ok_def)
  then show ?thesis using assms(1) ext by (auto simp: hub_ok_def)
qed

lemma hub_ok_room: "hub_ok hub \<Longrightarrow> i < length (sockets hub) \<Longrightarrow> length (sp_send (sockets hub ! i)) \<le> outboundQueueCapacity"
  by (simp add: hub_ok_def)

lemma hub_ok_effect:
  assumes "hub_ok hub" and "effect_ok (sockets hub) e"
  shows "hub_ok (perform d e hub)"
  using assms(2) hub_ok_room[OF assms(1)]
  by (cases e)
    (auto simp: effect_ok_def delivery_ok_def stop_peer_def intro!: hub_ok_on_socket[OF assms(1)] enqueue_room,
     metis same_peer_updates(2) stop_peer_def)

lemma enqueue_queue: "set (sp_send (snd (enqueue d m p))) \<subseteq> insert m (set (sp_send p))"
  by (auto simp: enqueue_def Let_def stop_peer_def)

definition queues_ok :: "secure_peer list \<Rightarrow> bool" where
  "queues_ok ss \<longleftrightarrow> (\<forall>i < length ss. \<forall>m \<in> set (sp_send (ss ! i)). delivery_ok ss i m)"

lemma relay_inv_alt:
  "relay_inv w \<longleftrightarrow> hub_ok (rw_hub w) \<and> (\<forall>es \<in> set (rw_pending w). \<forall>e \<in> set es. effect_ok (sockets (rw_hub w)) e) \<and>
     queues_ok (sockets (rw_hub w)) \<and> (\<forall>(i, m) \<in> set (rw_written w). delivery_ok (sockets (rw_hub w)) i m)"
  by (simp add: relay_inv_def queues_ok_def)

lemma relay_inv_extend:
  assumes "relay_inv w" and "extends (sockets (rw_hub w)) (sockets hub)" and "hub_ok hub" and "queues_ok (sockets hub)"
    and "\<And>es e. es \<in> set pending \<Longrightarrow> e \<in> set es \<Longrightarrow>
      (\<exists>es' \<in> set (rw_pending w). e \<in> set es') \<or> effect_ok (sockets hub) e"
    and "\<And>i m. (i, m) \<in> set written \<Longrightarrow> (i, m) \<in> set (rw_written w) \<or> delivery_ok (sockets hub) i m"
  shows "relay_inv (w\<lparr>rw_hub := hub, rw_pending := pending, rw_written := written, rw_ended := ended'\<rparr>)"
  using assms delivery_ok_extends[OF assms(2)] effect_ok_extends[OF assms(2)]
  unfolding relay_inv_alt by (auto; blast)

lemma queues_ok_effect:
  assumes "queues_ok (sockets hub)" and "effect_ok (sockets hub) e"
  shows "queues_ok (sockets (perform d e hub))"
proof -
  have ext: "extends (sockets hub) (sockets (perform d e hub))" by (rule perform_static)
  have old: "delivery_ok (sockets hub) i m" if "i < length (sockets hub)" "m \<in> set (sp_send (sockets hub ! i))" for i m
    using assms(1) that by (simp add: queues_ok_def)
  have "delivery_ok (sockets hub) i m"
    if i: "i < length (sockets (perform d e hub))" and m: "m \<in> set (sp_send (sockets (perform d e hub) ! i))" for i m
  proof (cases e)
    case (Enqueue j m')
    then have "m \<in> set (sp_send (sockets hub ! i)) \<or> (i = j \<and> m = m')"
      using i m enqueue_queue[of d m' "sockets hub ! j"] by (cases "i = j") (auto simp: on_socket_def)
    then show ?thesis using Enqueue assms(2) old i by (auto simp: effect_ok_def)
  next
    case (Stop j)
    then have "m \<in> set (sp_send (sockets hub ! i))"
      using i m by (cases "i = j") (auto simp: on_socket_def stop_peer_def)
    then show ?thesis using Stop old i by simp
  qed
  then show ?thesis using delivery_ok_extends[OF ext] by (simp add: queues_ok_def)
qed

section \<open>The invariant\<close>

lemma hub_entry:
  assumes "hub_ok hub" and "map_of (hub_peers hub) k = Some i"
  shows "i < length (sockets hub)" and "k = securePeerID (sp_userID (sockets hub ! i)) (sp_keyID (sockets hub ! i))"
  using map_of_SomeD[OF assms(2)] assms(1) by (auto simp: hub_ok_def)

lemma hub_member:
  assumes "hub_ok hub" and "(k, i) \<in> set (hub_peers hub)"
  shows "i < length (sockets hub)" and "k = securePeerID (sp_userID (sockets hub ! i)) (sp_keyID (sockets hub ! i))"
    and "peer_ok (sockets hub ! i)"
  using assms by (auto simp: hub_ok_def)

lemma hub_peer:
  assumes "hub_ok hub" and "i < length (sockets hub)"
  shows "peer_ok (sockets hub ! i)" and "length (sp_keyID (sockets hub ! i)) = 43"
  using assms nth_mem[OF assms(2)] unfolding hub_ok_def peer_ok_def by blast+

lemma alist_update_set: "set (AList.update k v al) \<subseteq> insert (k, v) (set al)"
  by (induction al) auto

lemma hub_ok_update:
  assumes "hub_ok hub" and "i < length (sockets hub)"
  shows "hub_ok (hub\<lparr>hub_peers := AList.update (securePeerID (sp_userID (sockets hub ! i)) (sp_keyID (sockets hub ! i))) i (hub_peers hub)\<rparr>)"
  using assms by (auto simp: hub_ok_def distinct_update dest!: alist_update_set[THEN subsetD])

lemma hub_ok_delete:
  assumes "hub_ok hub"
  shows "hub_ok (hub\<lparr>hub_peers := AList.delete k (hub_peers hub)\<rparr>)"
  using assms by (auto simp: hub_ok_def AList.delete_eq distinct_map_filter)

lemma register_effects:
  assumes "hub_ok hub" and "i < length (sockets hub)"
    and "mset order = mset (hub_peers (fst (register_peer order i hub)))"
    and "e \<in> set (snd (register_peer order i hub))"
  shows "effect_ok (sockets hub) e"
proof -
  let ?id = "securePeerID (sp_userID (sockets hub ! i)) (sp_keyID (sockets hub ! i))"
  let ?hub = "hub\<lparr>hub_peers := AList.update ?id i (hub_peers hub)\<rparr>"
  have "mset order = mset (hub_peers ?hub)" using assms(3) by (simp add: register_peer_def Let_def)
  then have order: "set order = set (hub_peers ?hub)" by (rule mset_eq_setD)
  note ok = hub_ok_update[OF assms(1,2)]
  have "effect_ok (sockets hub) e" if "(k, j) \<in> set order" "e \<in> set (introductions ?hub i j)" for k j
    using that hub_member[OF ok, of k j] assms(2) unfolding order
    by (auto simp: introductions_def Let_def effect_ok_def delivery_ok_def counterparts_def split: if_splits)
  moreover have "effect_ok (sockets hub) (Stop j)" if "map_of (hub_peers hub) ?id = Some j" for j
    using hub_entry[OF assms(1) that] by (simp add: effect_ok_def)
  ultimately show ?thesis using assms(4) by (auto simp: register_peer_def Let_def split: option.splits)
qed

lemma unregister_effects:
  assumes "hub_ok hub" and "i < length (sockets hub)"
    and "mset order = mset (hub_peers (fst (unregister_peer order i hub)))"
    and "e \<in> set (snd (unregister_peer order i hub))"
  shows "effect_ok (sockets hub) e"
proof -
  have "set (hub_peers (fst (unregister_peer order i hub))) \<subseteq> set (hub_peers hub)"
    by (auto simp: unregister_peer_def Let_def AList.delete_eq)
  then have "set order \<subseteq> set (hub_peers hub)" by (simp only: mset_eq_setD[OF assms(3)])
  moreover obtain k j kind where "(k, j) \<in> set order"
      "e = Enqueue j (PeerOffline i kind (sp_keyID (sockets hub ! i)))" "sp_userID (sockets hub ! j) = sp_userID (sockets hub ! i)"
      "sp_role (sockets hub ! j) = (if sp_role (sockets hub ! i) = RelayRoleConnector then RelayRoleClient else RelayRoleConnector)"
      "trusts (sockets hub ! j) (sp_keyID (sockets hub ! i))"
    using assms(4) by (auto simp: unregister_peer_def Let_def split: if_splits)
  ultimately show ?thesis
    using assms(2) hub_member(1)[OF assms(1)] by (fastforce simp: effect_ok_def delivery_ok_def split: if_splits)
qed

lemma route_effects:
  assumes ok: "hub_ok hub" and i: "i < length (sockets hub)" and "length k = 43"
    and "e \<in> set (snd (route i k message hub))"
  shows "effect_ok (sockets hub) e"
proof -
  obtain j where j: "map_of (hub_peers hub) (securePeerID (sp_userID (sockets hub ! i)) k) = Some j"
      "e = Enqueue j (Forwarded i message)" "trusts (sockets hub ! i) k"
      "sp_role (sockets hub ! j) \<noteq> sp_role (sockets hub ! i)" "trusts (sockets hub ! j) (sp_keyID (sockets hub ! i))"
    using assms(4) by (auto simp: route_def Let_def split: if_splits option.splits)
  note entry = hub_entry[OF ok j(1)]
  have "length (sp_keyID (sockets hub ! j)) = 43" by (rule hub_peer(2)[OF ok entry(1)])
  then have "sp_userID (sockets hub ! i) = sp_userID (sockets hub ! j)" "k = sp_keyID (sockets hub ! j)"
    using securePeerID_inj[OF entry(2) assms(3)] by auto
  then show ?thesis using entry(1) i j by (auto simp: effect_ok_def delivery_ok_def counterparts_def)
qed

lemma admits_peer_ok:
  assumes "admits dh now admission message = Some hello"
  shows "peer_ok (newSecurePeer admission hello)"
proof -
  have hello: "relay_validIdentity (h_Identity hello)" "h_Type hello \<in> {''client.hello'', ''connector.hello''}"
      "h_Type hello = ad_Role admission @ ''.hello''" "i_KeyID (h_Identity hello) = i_KeyID (ad_Identity admission)"
    using assms parseHello_valid(3,5)[of dh message hello]
    by (auto simp: admits_def helloMatchesAdmission_def split: option.splits if_splits)
  have "''client.hello'' = ''client'' @ ''.hello''" "''connector.hello'' = ''connector'' @ ''.hello''" by simp_all
  then have "ad_Role admission \<in> {RelayRoleClient, RelayRoleConnector}"
    using hello(2,3) unfolding RelayRoleClient_def RelayRoleConnector_def by (metis append_same_eq empty_iff insert_iff)
  then show ?thesis
    using hello(1,4) by (auto simp: peer_ok_def newSecurePeer_def relay_validIdentity_def exactBase64URL_def)
qed

lemma open_socket_ok:
  assumes "hub_ok hub" and "queues_ok (sockets hub)" and "peer_ok (newSecurePeer admission hello)"
  shows "hub_ok (open_socket admission hello hub)" and "queues_ok (sockets (open_socket admission hello hub))"
    and "extends (sockets hub) (sockets (open_socket admission hello hub))"
    and "hub_peers (open_socket admission hello hub) = hub_peers hub"
    and "length (sockets (open_socket admission hello hub)) = Suc (length (sockets hub))"
proof -
  let ?new = "snd (enqueue True (relayReadyMessage admission) (newSecurePeer admission hello))"
  have new: "sp_send ?new = [relayReadyMessage admission]"
    by (simp add: enqueue_def newSecurePeer_def outboundQueueCapacity_def Let_def)
  have "peer_ok ?new" by (rule peer_ok_same[OF _ assms(3)]) simp
  then show "hub_ok (open_socket admission hello hub)"
    using assms(1) new by (fastforce simp: hub_ok_def open_socket_def outboundQueueCapacity_def nth_append)
  show ext: "extends (sockets hub) (sockets (open_socket admission hello hub))" by (simp add: open_socket_def)
  show "queues_ok (sockets (open_socket admission hello hub))"
    unfolding queues_ok_def
  proof (intro allI impI ballI)
    fix i m assume i: "i < length (sockets (open_socket admission hello hub))"
      and m: "m \<in> set (sp_send (sockets (open_socket admission hello hub) ! i))"
    show "delivery_ok (sockets (open_socket admission hello hub)) i m"
    proof (cases "i < length (sockets hub)")
      case True
      then have "delivery_ok (sockets hub) i m"
        using m assms(2) by (simp add: queues_ok_def open_socket_def nth_append)
      then show ?thesis by (rule delivery_ok_extends[OF ext])
    next
      case False
      then have "m = relayReadyMessage admission" using i m new by (auto simp: open_socket_def nth_append)
      then show ?thesis using i by (simp add: delivery_ok_def relayReadyMessage_def)
    qed
  qed
  show "hub_peers (open_socket admission hello hub) = hub_peers hub"
    "length (sockets (open_socket admission hello hub)) = Suc (length (sockets hub))"
    by (simp_all add: open_socket_def)
qed

lemma register_hub_ok:
  assumes "hub_ok hub" and "i < length (sockets hub)"
  shows "hub_ok (fst (register_peer order i hub))" and "sockets (fst (register_peer order i hub)) = sockets hub"
  using hub_ok_update[OF assms] by (simp_all add: register_peer_def Let_def)

lemma unregister_hub_ok:
  assumes "hub_ok hub"
  shows "hub_ok (fst (unregister_peer order i hub))" and "sockets (fst (unregister_peer order i hub)) = sockets hub"
  using hub_ok_delete[OF assms] assms by (simp_all add: unregister_peer_def Let_def)

lemma launch_inv:
  assumes "relay_inv w" and "extends (sockets (rw_hub w)) (sockets hub)" and "hub_ok hub" and "queues_ok (sockets hub)"
    and "\<And>e. e \<in> set effects \<Longrightarrow> effect_ok (sockets hub) e"
  shows "relay_inv (launch (hub, effects) w)"
  using relay_inv_extend[OF assms(1-4), of "rw_pending w @ [effects]" "rw_written w" "rw_ended w"] assms(5)
  by (auto simp: launch_def)

lemma relay_inv_step:
  assumes "relay_step dh de w w'" and inv: "relay_inv w"
  shows "relay_inv w'"
proof -
  let ?hub = "rw_hub w"
  have ok: "hub_ok ?hub" "queues_ok (sockets ?hub)" using inv by (simp_all add: relay_inv_alt)
  have members: "i < length (sockets ?hub)" if "(k, i) \<in> set order" "mset order = mset (hub_peers ?hub)" for k i order
    using hub_member(1)[OF ok(1)] that mset_eq_setD[OF that(2)] by auto
  show ?thesis
    using assms(1)
  proof cases
    case (connected now admission message hello order)
    let ?n = "length (sockets ?hub)" and ?open = "open_socket admission hello ?hub"
    note op = open_socket_ok[OF ok admits_peer_ok[OF connected(2)]]
    have n: "?n < length (sockets ?open)" using op(5) by simp
    have visited: "mset order = mset (hub_peers (fst (register_peer order ?n ?open)))"
      using connected(3) by (simp add: connect_def launch_def)
    note reg = register_hub_ok[OF op(1) n, of order]
    have "relay_inv (launch (fst (register_peer order ?n ?open), snd (register_peer order ?n ?open)) w)"
      by (rule launch_inv[OF inv]) (use reg op register_effects[OF op(1) n visited] in auto)
    then show ?thesis by (simp add: connected(1) connect_def)
  next
    case (left i order)
    note un = unregister_hub_ok[OF ok(1), of order i]
    have "relay_inv (launch (fst (unregister_peer order i ?hub), snd (unregister_peer order i ?hub)) w)"
      by (rule launch_inv[OF inv]) (use un ok unregister_effects[OF ok(1) left(2,3)] in auto)
    then show ?thesis by (simp add: left(1))
  next
    case (frame i now message okay effects)
    have "effect_ok (sockets ?hub) e" if e: "e \<in> set effects" for e
    proof -
      obtain envelope where env: "parseEnvelope de message now = Some envelope"
          and e': "e \<in> set (snd (route i (v_RecipientKeyID envelope) message ?hub))"
        using frame(3) e by (auto simp: relay_frame_def split: option.splits if_splits)
      have "length (v_RecipientKeyID envelope) = 43"
        using parseEnvelope_valid(3)[OF env] by (simp add: exactBase64URL_def)
      then show ?thesis by (rule route_effects[OF ok(1) frame(2) _ e'])
    qed
    then show ?thesis unfolding frame(1) by (intro launch_inv[OF inv] ok) simp_all
  next
    case (revoked order covers)
    have "effect_ok (sockets ?hub) e" if "e \<in> set (snd (disconnect order covers ?hub))" for e
      using that members[OF _ revoked(2)] by (auto simp: disconnect_def Let_def effect_ok_def)
    then show ?thesis unfolding revoked(1) by (intro launch_inv[OF inv] ok) simp_all
  next
    case (closed order)
    have "effect_ok (sockets ?hub) e" if "e \<in> set (map (Stop \<circ> snd) order)" for e
      using that members[OF _ closed(2)] by (auto simp: effect_ok_def)
    then show ?thesis unfolding closed(1) close_hub_def
      using ok by (intro launch_inv[OF inv]) (auto simp: hub_ok_def)
  next
    case (effect before e es after d)
    have "effect_ok (sockets ?hub) e" using inv effect(2) by (auto simp: relay_inv_def)
    then have "relay_inv (w\<lparr>rw_hub := perform d e ?hub, rw_pending := before @ es # after,
        rw_written := rw_written w, rw_ended := rw_ended w\<rparr>)"
      using effect(2) ok perform_static by (intro relay_inv_extend[OF inv] hub_ok_effect queues_ok_effect) fastforce+
    then show ?thesis by (simp add: effect(1))
  next
    case (wrote i)
    show ?thesis
    proof (cases "sp_send (sockets ?hub ! i)")
      case Nil
      then show ?thesis using inv wrote(1) by (simp add: deliver_def)
    next
      case (Cons m ms)
      let ?next = "on_socket i (\<lambda>p. p\<lparr>sp_send := ms\<rparr>) ?hub"
      have ext: "extends (sockets ?hub) (sockets ?next)" by simp
      have m: "delivery_ok (sockets ?next) i m"
        using ok(2) wrote(2) Cons by (intro delivery_ok_extends[OF ext]) (simp add: queues_ok_def)
      have "delivery_ok (sockets ?hub) j m'"
        if "j < length (sockets ?next)" "m' \<in> set (sp_send (sockets ?next ! j))" for j m'
        using that ok(2) Cons by (cases "i = j") (auto simp: queues_ok_def on_socket_def)
      then have "queues_ok (sockets ?next)" using delivery_ok_extends[OF ext] by (simp add: queues_ok_def)
      moreover have "hub_ok ?next"
        using hub_ok_room[OF ok(1) wrote(2)] Cons by (intro hub_ok_on_socket[OF ok(1) wrote(2)]) auto
      ultimately have "relay_inv (w\<lparr>rw_hub := ?next, rw_pending := rw_pending w,
          rw_written := rw_written w @ [(i, m)], rw_ended := rw_ended w\<rparr>)"
        using m by (intro relay_inv_extend[OF inv ext]) auto
      then show ?thesis by (simp add: wrote(1) deliver_def Cons)
    qed
  next
    case (stopped i)
    have "effect_ok (sockets ?hub) (Stop i)" using stopped(2) by (simp add: effect_ok_def)
    note hub_ok_effect[OF ok(1) this, of True] queues_ok_effect[OF ok(2) this, of True]
    then have "relay_inv (w\<lparr>rw_hub := perform True (Stop i) ?hub, rw_pending := rw_pending w,
        rw_written := rw_written w, rw_ended := rw_ended w\<rparr>)"
      by (intro relay_inv_extend[OF inv] perform_static) auto
    then show ?thesis by (simp add: stopped(1) stop_socket_def)
  next
    case (ended i)
    then show ?thesis using inv by (simp add: relay_inv_def)
  qed
qed

lemma relay_reachable_inv: "relay_reachable dh de w \<Longrightarrow> relay_inv w"
  unfolding relay_reachable_def
proof (induction rule: rtranclp_induct)
  case base
  show ?case by (simp add: relay_inv_def initial_relay_def hub_ok_def newSecureHub_def)
next
  case (step w w')
  then show ?case by (blast intro: relay_inv_step)
qed

end
