(* ===== verification/Relay_Dev.thy ===== *)
theory Relay_Dev
  imports Relay_Machine
begin

text \<open>
  The development echo hub (\<open>internal/relay/development.go\<close>), mounted only when
  \<open>HandlerConfig.DevelopmentEcho\<close> is set: it knows no accounts and no trust, and introduces every
  client to every connector.  Its peers, queues and effects are modelled as those of the production hub.
\<close>

record dev_peer =
  dp_keyID :: string
  dp_role :: string
  dp_hello :: hello_message
  dp_send :: "outbound list"
  dp_done :: bool

record dev_hub =
  dh_sockets :: "dev_peer list"
  dh_peers :: "(string \<times> nat) list"
  dh_connectors :: "(string \<times> nat) list"
  dh_clients :: "(string \<times> nat) list"

definition newHub :: dev_hub where
  "newHub = \<lparr> dh_sockets = [], dh_peers = [], dh_connectors = [], dh_clients = [] \<rparr>"

definition newPeer :: "hello_message \<Rightarrow> dev_peer" where
  "newPeer hello = \<lparr> dp_keyID = i_KeyID (h_Identity hello), dp_role = h_Type hello, dp_hello = hello,
     dp_send = [], dp_done = False \<rparr>"

definition dev_stop :: "dev_peer \<Rightarrow> dev_peer" where
  "dev_stop p = p\<lparr>dp_done := True\<rparr>"

definition dev_enqueue :: "bool \<Rightarrow> outbound \<Rightarrow> dev_peer \<Rightarrow> bool \<times> dev_peer" where
  "dev_enqueue done_first message p =
     (let room = length (dp_send p) < outboundQueueCapacity in
      if dp_done p \<and> (done_first \<or> \<not> room) then (False, p)
      else if room then (True, p\<lparr>dp_send := dp_send p @ [message]\<rparr>)
      else (False, dev_stop p))"

text \<open>\<open>None\<close> is the error of an identity already connected; \<open>order\<close> is how the range visits the other side.\<close>

definition dev_register :: "(string \<times> nat) list \<Rightarrow> nat \<Rightarrow> dev_hub \<Rightarrow> (dev_hub \<times> relay_effect list) option" where
  "dev_register order connected hub =
     (let new = dh_sockets hub ! connected; k = dp_keyID new in
      if map_of (dh_peers hub) k \<noteq> None then None
      else
        let hub = hub\<lparr>dh_peers := AList.update k connected (dh_peers hub)\<rparr> in
        if dp_role new = ''connector.hello'' then
          Some (hub\<lparr>dh_connectors := AList.update k connected (dh_connectors hub)\<rparr>,
            concat (map (\<lambda>(_, i). [Enqueue i (PeerHello connected (dp_hello new)),
              Enqueue connected (PeerHello i (dp_hello (dh_sockets hub ! i)))]) order))
        else
          Some (hub\<lparr>dh_clients := AList.update k connected (dh_clients hub)\<rparr>,
            concat (map (\<lambda>(_, i). [Enqueue connected (PeerHello i (dp_hello (dh_sockets hub ! i))),
              Enqueue i (PeerHello connected (dp_hello new))]) order)))"

definition dev_unregister :: "(string \<times> nat) list \<Rightarrow> nat \<Rightarrow> dev_hub \<Rightarrow> dev_hub \<times> relay_effect list" where
  "dev_unregister order connected hub =
     (let old = dh_sockets hub ! connected; k = dp_keyID old in
      if map_of (dh_peers hub) k \<noteq> Some connected then (hub, [])
      else (hub\<lparr>dh_peers := AList.delete k (dh_peers hub), dh_connectors := AList.delete k (dh_connectors hub),
              dh_clients := AList.delete k (dh_clients hub)\<rparr>,
        map (\<lambda>(_, i). Enqueue i (PeerOffline connected
          (if dp_role old = ''connector.hello'' then ''connector.offline'' else ''client.offline'') k)) order))"

definition dev_route :: "bool \<Rightarrow> nat \<Rightarrow> string \<Rightarrow> bytes \<Rightarrow> dev_hub \<Rightarrow> bool \<times> dev_hub" where
  "dev_route done_first sender recipientKeyID message hub =
     (case map_of (dh_peers hub) recipientKeyID of
        None \<Rightarrow> (False, hub)
      | Some i \<Rightarrow> (case dev_enqueue done_first (Forwarded sender message) (dh_sockets hub ! i) of
          (okay, p) \<Rightarrow> (okay, hub\<lparr>dh_sockets := (dh_sockets hub)[i := p]\<rparr>)))"

text \<open>Every registered peer is either a connector or a client, under its own key.\<close>

definition dev_ok :: "dev_hub \<Rightarrow> bool" where
  "dev_ok hub \<longleftrightarrow>
     (\<forall>k i. map_of (dh_peers hub) k = Some i \<longrightarrow> i < length (dh_sockets hub) \<and> k = dp_keyID (dh_sockets hub ! i)) \<and>
     (\<forall>k i. map_of (dh_connectors hub) k = Some i \<longleftrightarrow>
        map_of (dh_peers hub) k = Some i \<and> dp_role (dh_sockets hub ! i) = ''connector.hello'') \<and>
     (\<forall>k i. map_of (dh_clients hub) k = Some i \<longleftrightarrow>
        map_of (dh_peers hub) k = Some i \<and> dp_role (dh_sockets hub ! i) \<noteq> ''connector.hello'')"

lemma dev_register_ok:
  assumes ok: "dev_ok hub" and "i < length (dh_sockets hub)" and run: "dev_register order i hub = Some (hub', effects)"
  shows "dev_ok hub'"
proof -
  let ?k = "dp_keyID (dh_sockets hub ! i)"
  have new: "map_of (dh_peers hub) ?k = None"
    using run by (auto simp: dev_register_def Let_def split: if_splits)
  then have "map_of (dh_connectors hub) ?k = None" "map_of (dh_clients hub) ?k = None"
    using ok by (auto simp: dev_ok_def simp del: not_None_eq simp flip: not_Some_eq)
  then show ?thesis
    using ok assms(2) new run unfolding dev_ok_def dev_register_def Let_def
    by (cases "dp_role (dh_sockets hub ! i) = ''connector.hello''") (clarsimp simp: update_conv' split: if_splits; fastforce)+
qed

lemma dev_unregister_ok:
  assumes "dev_ok hub"
  shows "dev_ok (fst (dev_unregister order i hub))"
proof (cases "map_of (dh_peers hub) (dp_keyID (dh_sockets hub ! i)) = Some i")
  case False
  then show ?thesis using assms by (simp add: dev_unregister_def Let_def)
next
  case True
  have gone: "map_of (AList.delete k al) k' = (if k' = k then None else map_of al k')" for k k' and al :: "(string \<times> nat) list"
    by (simp add: delete_conv')
  show ?thesis
    using assms unfolding dev_ok_def dev_unregister_def Let_def by (simp add: True gone)
qed

text \<open>The echo hub keeps its three maps consistent through every registration and departure, and refuses
  a key that is already connected.\<close>

theorem dev_hub_consistent:
  assumes "dev_ok hub" and "i < length (dh_sockets hub)"
  shows "dev_ok (fst (dev_unregister order i hub)) \<and>
    (case dev_register order i hub of Some (hub', _) \<Rightarrow> dev_ok hub' | None \<Rightarrow> True) \<and>
    (dev_register order i hub = None \<longleftrightarrow> dp_keyID (dh_sockets hub ! i) \<in> fst ` set (dh_peers hub))"
proof -
  have "dev_register order i hub = None \<longleftrightarrow> map_of (dh_peers hub) (dp_keyID (dh_sockets hub ! i)) \<noteq> None"
    by (simp add: dev_register_def Let_def)
  then show ?thesis
    using dev_register_ok[OF assms] dev_unregister_ok[OF assms(1)]
    by (auto simp: map_of_eq_None_iff split: option.splits)
qed

theorem dev_hub_consistent_witness:
  "\<forall>hello. dev_ok (fst (dev_unregister [] 0 (newHub\<lparr>dh_sockets := [newPeer hello]\<rparr>)))"
proof
  fix hello
  have "dev_ok (newHub\<lparr>dh_sockets := [newPeer hello]\<rparr>)" by (simp add: dev_ok_def newHub_def)
  then show "dev_ok (fst (dev_unregister [] 0 (newHub\<lparr>dh_sockets := [newPeer hello]\<rparr>)))"
    using dev_hub_consistent[of "newHub\<lparr>dh_sockets := [newPeer hello]\<rparr>" 0 "[]"] by simp
qed

end
