(* ===== verification/Id_Types.thy ===== *)
theory Id_Types
  imports Go_Lib
begin

text \<open>
  The identity module's data (\<open>internal/identity/types.go\<close>) and its configuration (\<open>ServiceOptions\<close> and
  \<open>Service\<close> in \<open>service.go\<close>).  \<open>User\<close> embeds \<open>Account\<close> in the code and extends its record here.
  \<open>IdOther\<close> stands for every error passed through without a name.
\<close>

datatype id_error =
    IdConflict
  | IdInvalidCredentials
  | IdInvalidInput
  | IdInvalidRefresh
  | IdInvalidVerificationCode
  | IdNotFound
  | IdUnauthorized
  | IdVerificationThrottled
  | IdDisposableEmail
  | IdInvalidGoogleToken
  | IdAccountLinkRequired
  | IdGoogleUnavailable
  | IdIdentityAlreadyLinked
  | IdMailDeliveryFailed
  | IdMailUndeliverable
  | IdOther

datatype account_status = AccountStatusPending | AccountStatusActive | AccountStatusDisabled

record account =
  ac_ID :: string
  ac_Email :: string
  ac_Status :: account_status
  ac_EmailVerifiedAt :: "instant option"
  ac_EmailBouncedAt :: "instant option"
  ac_CreatedAt :: instant

record user = account +
  u_NormalizedEmail :: string
  u_PasswordHash :: "string option"

definition HasPassword :: "user \<Rightarrow> bool" where
  "HasPassword user \<longleftrightarrow> u_PasswordHash user \<noteq> None \<and> u_PasswordHash user \<noteq> Some []"

text \<open>The account embedded in a user.\<close>

definition user_account :: "user \<Rightarrow> account" where
  "user_account user = account.truncate user"

record access_principal =
  ap_Account :: account
  ap_SessionID :: string
  ap_AccessTokenExpiresAt :: instant

record session =
  s_ID :: string
  s_UserID :: string
  s_AccessTokenHash :: bytes
  s_AccessTokenExpiresAt :: instant
  s_RefreshExpiresAt :: instant
  s_ClientName :: string
  s_CreatedAt :: instant
  s_LastRefreshedAt :: instant
  s_RevokedAt :: "instant option"

record refresh_credential =
  r_TokenHash :: bytes
  r_SessionID :: string
  r_ExpiresAt :: instant
  r_CreatedAt :: instant
  r_UsedAt :: "instant option"

record email_verification =
  e_UserID :: string
  e_TicketHash :: bytes
  e_CodeHash :: bytes
  e_ClientName :: string
  e_Attempts :: int
  e_ExpiresAt :: instant
  e_CreatedAt :: instant

record verification_challenge =
  vc_Account :: account
  vc_Ticket :: string
  vc_TicketExpiresAt :: instant

record credentials =
  cd_Account :: account
  cd_AccessToken :: string
  cd_AccessTokenExpiresAt :: instant
  cd_RefreshToken :: string
  cd_RefreshTokenExpiresAt :: instant

text \<open>\<open>AuthOutcome\<close> carries exactly one of the two.\<close>

datatype auth_outcome = Authenticated credentials | MustVerify verification_challenge

record federated_identity =
  fi_Provider :: string
  fi_Subject :: string
  fi_UserID :: string
  fi_Email :: string
  fi_CreatedAt :: instant
  fi_LastAuthenticatedAt :: instant

definition ProviderGoogle :: string where "ProviderGoogle = ''google''"

record google_identity =
  g_Subject :: string
  g_Email :: string
  g_EmailVerified :: bool

record id_audit_event =
  ia_UserID :: "string option"
  ia_SessionID :: "string option"
  ia_EventType :: string
  ia_OccurredAt :: instant

record register_input =
  ri_Email :: string
  ri_Password :: string
  ri_ClientName :: string

record login_input =
  li_Email :: string
  li_Password :: string
  li_ClientName :: string

record verify_email_input =
  vi_Ticket :: string
  vi_Code :: string

record google_auth_input =
  gi_IDToken :: string
  gi_ClientName :: string

section \<open>The service\<close>

text \<open>
  What the service is given: SHA-256, \<open>net/mail\<close>'s address parser (the address it finds, \<open>None\<close> its
  error), Go's Unicode case table; the password hasher (the salt it draws, then its two operations);
  the mailer and the Google verifier, whose answers are arbitrary; and the disposable-mail policy.
\<close>

record id_service =
  id_sha256 :: "bytes \<Rightarrow> bytes"
  id_parse_address :: "string \<Rightarrow> string option"
  id_unicode_lower :: "string \<Rightarrow> string"
  id_hash_password :: "string \<Rightarrow> bytes \<Rightarrow> string"
  id_verify_password :: "string \<Rightarrow> string \<Rightarrow> id_error + bool"
  id_send_code :: "string \<Rightarrow> string \<Rightarrow> id_error option"
  id_send_notice :: "string \<Rightarrow> id_error option"
  id_google_verifier :: "(string \<Rightarrow> id_error + google_identity) option"
  id_is_disposable :: "(string \<Rightarrow> bool) option"
  accessLifetime :: duration
  refreshLifetime :: duration
  dummyHash :: string

definition defaultAccessLifetime :: duration where "defaultAccessLifetime = 15 * minute"
definition defaultRefreshLifetime :: duration where "defaultRefreshLifetime = 30 * 24 * hour"
definition minimumPasswordLength :: nat where "minimumPasswordLength = 12"
definition maximumPasswordLength :: nat where "maximumPasswordLength = 128"
definition maximumPasswordBytes :: nat where "maximumPasswordBytes = maximumPasswordLength * 4"
definition maximumEmailLength :: nat where "maximumEmailLength = 254"
definition maximumClientNameLength :: nat where "maximumClientNameLength = 64"
definition verificationCodeLength :: nat where "verificationCodeLength = 6"
definition verificationCodeLifetime :: duration where "verificationCodeLifetime = 10 * minute"
definition maxVerificationAttempts :: int where "maxVerificationAttempts = 8"
definition minimumResendInterval :: duration where "minimumResendInterval = 30 * second"

lemmas id_default_defs = defaultAccessLifetime_def defaultRefreshLifetime_def minimumPasswordLength_def
  maximumPasswordLength_def maximumPasswordBytes_def maximumEmailLength_def maximumClientNameLength_def
  verificationCodeLength_def verificationCodeLifetime_def maxVerificationAttempts_def minimumResendInterval_def

text \<open>
  \<open>NewService\<close> fills in the two lifetimes and hashes the dummy password; the rest of its options are
  parameters of the record above.
\<close>

definition NewIdentityService :: "bytes \<Rightarrow> id_service \<Rightarrow> id_service" where
  "NewIdentityService salt options = options\<lparr>
     accessLifetime := (if accessLifetime options \<le> 0 then defaultAccessLifetime else accessLifetime options),
     refreshLifetime := (if refreshLifetime options \<le> 0 then defaultRefreshLifetime else refreshLifetime options),
     dummyHash := id_hash_password options ''invalid-account-password'' salt\<rparr>"

definition id_service_ok :: "id_service \<Rightarrow> bool" where
  "id_service_ok svc \<longleftrightarrow> 0 < accessLifetime svc \<and> 0 < refreshLifetime svc"

lemma NewIdentityService_ok: "id_service_ok (NewIdentityService salt options)"
  by (simp add: id_service_ok_def NewIdentityService_def id_default_defs duration_defs)

section \<open>Input checks\<close>

definition validVerificationCode :: "string \<Rightarrow> bool" where
  "validVerificationCode code \<longleftrightarrow> length code = verificationCodeLength \<and>
     list_all (\<lambda>c. 48 \<le> byte_nat c \<and> byte_nat c \<le> 57) code"

definition normalizeEmail :: "id_service \<Rightarrow> string \<Rightarrow> (string \<times> string) option" where
  "normalizeEmail svc value = (let email = TrimSpace value in
     if email = [] \<or> length email > maximumEmailLength \<or> \<not> ValidString email then None
     else if id_parse_address svc email \<noteq> Some email then None
     else Some (email, ToLower (id_unicode_lower svc) email))"

text \<open>A rune below 0x20 or equal to 0x7f is a single byte, and no byte of a longer rune is.\<close>

definition normalizeClientName :: "string \<Rightarrow> string option" where
  "normalizeClientName value = (let value = TrimSpace value in
     if value = [] \<or> \<not> ValidString value \<or> RuneCountInString value > maximumClientNameLength then None
     else if list_ex (\<lambda>c. byte_nat c < 32 \<or> byte_nat c = 127) value then None
     else Some value)"

definition validRegistrationPassword :: "string \<Rightarrow> bool" where
  "validRegistrationPassword password \<longleftrightarrow>
     minimumPasswordLength \<le> RuneCountInString password \<and> RuneCountInString password \<le> maximumPasswordLength \<and>
     length password \<le> maximumPasswordBytes \<and> ValidString password"

definition validLoginPassword :: "string \<Rightarrow> bool" where
  "validLoginPassword password \<longleftrightarrow> password \<noteq> [] \<and> ValidString password \<and>
     RuneCountInString password \<le> maximumPasswordLength \<and> length password \<le> maximumPasswordBytes"

text \<open>Unlike the connectors module, this one decodes strictly.\<close>

definition id_validToken :: "string \<Rightarrow> string \<Rightarrow> bool" where
  "id_validToken token prefix \<longleftrightarrow>
     (if \<not> HasPrefix token prefix \<or> length token \<noteq> length prefix + 43 then False
      else case DecodeString True (drop (length prefix) token) of
        None \<Rightarrow> False | Some decoded \<Rightarrow> length decoded = 32)"

definition hashToken :: "id_service \<Rightarrow> string \<Rightarrow> bytes" where
  "hashToken svc token = id_sha256 svc token"

lemma id_validToken_encoded: "length bs = 32 \<Longrightarrow> id_validToken (prefix @ EncodeToString bs) prefix"
  by (simp add: id_validToken_def length_EncodeToString)

end
