(* ===== verification/Id_Store.thy ===== *)
theory Id_Store
  imports Id_Types
begin

text \<open>
  The identity module's persistence (\<open>internal/identity/postgres\<close>): its tables with the constraints of
  their models, and the statements of \<open>Repository\<close> and \<open>TransactionStore\<close>.  An UPDATE with a WHERE
  clause changes the rows that match and reports how many there were.
\<close>

record id_db =
  users :: "user list"
  federated_identities :: "federated_identity list"
  sessions :: "session list"
  refresh_credentials :: "refresh_credential list"
  email_verifications :: "email_verification list"
  id_audit_events :: "id_audit_event list"

text \<open>
  The state of the service: the database, the random bytes to come for it and for the password
  hasher, the mails handed over (address and text), and the session revocations announced.
\<close>

record id_world =
  iw_db :: id_db
  iw_random :: bytes
  iw_salts :: bytes
  iw_mails :: "(string \<times> string) list"
  iw_revoked :: "(string \<times> string \<times> bool) list"

type_synonym 'a id_op = "(id_world, id_error, 'a) op"

definition id_translateError :: "gorm_error \<Rightarrow> id_error" where
  "id_translateError e = (case e of
     ErrRecordNotFound \<Rightarrow> IdNotFound
   | ErrDuplicatedKey \<Rightarrow> IdConflict
   | ErrForeignKeyViolated \<Rightarrow> IdConflict
   | ErrCheckConstraintViolated \<Rightarrow> IdOther)"

lemma id_translateError_simps [simp]:
  "id_translateError ErrRecordNotFound = IdNotFound" "id_translateError ErrDuplicatedKey = IdConflict"
  "id_translateError ErrForeignKeyViolated = IdConflict" "id_translateError ErrCheckConstraintViolated = IdOther"
  by (simp_all add: id_translateError_def)

section \<open>Running statements\<close>

definition id_query :: "(id_db \<Rightarrow> gorm_error + 'a) \<Rightarrow> 'a id_op" where
  "id_query f = (\<lambda>w. case f (iw_db w) of
     Inl e \<Rightarrow> (Inl (id_translateError e), w) | Inr x \<Rightarrow> (Inr x, w))"

definition id_store :: "('r list \<Rightarrow> id_db \<Rightarrow> id_db) \<Rightarrow> (id_db \<Rightarrow> gorm_error + 'r list) \<Rightarrow> unit id_op" where
  "id_store put f = (\<lambda>w. case f (iw_db w) of
     Inl e \<Rightarrow> (Inl (id_translateError e), w)
   | Inr rows \<Rightarrow> (Inr (), w\<lparr>iw_db := put rows (iw_db w)\<rparr>))"

definition IdWithinTransaction :: "'a id_op \<Rightarrow> 'a id_op" where
  "IdWithinTransaction operation = (\<lambda>w. case operation w of (r, w') \<Rightarrow>
     (case r of Inl e \<Rightarrow> (Inl e, w'\<lparr>iw_db := iw_db w\<rparr>) | Inr x \<Rightarrow> (Inr x, w')))"

text \<open>\<open>UPDATE ... WHERE p\<close>: refused when a changed row fails its check or takes another row's unique value.\<close>

definition update_rows ::
  "('r \<Rightarrow> 'k) \<Rightarrow> ('r \<Rightarrow> 'r \<Rightarrow> bool) \<Rightarrow> ('r \<Rightarrow> bool) \<Rightarrow> ('r \<Rightarrow> bool) \<Rightarrow> ('r \<Rightarrow> 'r) \<Rightarrow> 'r list \<Rightarrow> gorm_error + 'r list" where
  "update_rows key clash valid p f rows =
     (let rows' = map (\<lambda>r. if p r then f r else r) rows in
      if \<exists>r \<in> set rows. p r \<and> \<not> valid (f r) then Inl ErrCheckConstraintViolated
      else if \<exists>r \<in> set rows'. \<exists>q \<in> set rows'. key r \<noteq> key q \<and> clash r q then Inl ErrDuplicatedKey
      else Inr rows')"

text \<open>The test \<open>RowsAffected != 1\<close>.\<close>

definition one_row :: "('r \<Rightarrow> bool) \<Rightarrow> ('r list \<Rightarrow> gorm_error + 'r list) \<Rightarrow> 'r list \<Rightarrow> gorm_error + 'r list" where
  "one_row p f rows = (case f rows of Inl e \<Rightarrow> Inl e
     | Inr rows' \<Rightarrow> if length (filter p rows) \<noteq> 1 then Inl ErrRecordNotFound else Inr rows')"

lemma id_query_runs [runs]:
  "id_query f w = (Inr x, w') \<longleftrightarrow> f (iw_db w) = Inr x \<and> w' = w"
  "id_query f w = (Inl e, w') \<longleftrightarrow> (\<exists>g. f (iw_db w) = Inl g \<and> e = id_translateError g \<and> w' = w)"
  by (auto simp: id_query_def split: sum.splits)

lemma id_store_runs [runs]:
  "id_store put f w = (Inr u, w') \<longleftrightarrow>
     (\<exists>rows. f (iw_db w) = Inr rows \<and> w' = w\<lparr>iw_db := put rows (iw_db w)\<rparr>)"
  by (auto simp: id_store_def split: sum.splits)

lemma IdWithinTransaction_runs [runs]:
  "IdWithinTransaction m w = (Inr x, w') \<longleftrightarrow> m w = (Inr x, w')"
  by (auto simp: IdWithinTransaction_def split: prod.splits sum.splits)

lemma IdWithinTransaction_rollback: "IdWithinTransaction m w = (Inl e, w') \<Longrightarrow> iw_db w' = iw_db w"
  by (auto simp: IdWithinTransaction_def split: prod.splits sum.splits)

lemma id_evals:
  "id_query f w = (case f (iw_db w) of Inl e \<Rightarrow> (Inl (id_translateError e), w) | Inr x \<Rightarrow> (Inr x, w))"
  "seq (id_query f) g w = (case f (iw_db w) of Inl e \<Rightarrow> (Inl (id_translateError e), w) | Inr x \<Rightarrow> g x w)"
  "seq (attempt (id_query f)) h w = (case f (iw_db w) of Inl e \<Rightarrow> h (Inl (id_translateError e)) w | Inr x \<Rightarrow> h (Inr x) w)"
  "seq (ret x) k w = k x w" "seq (fail e) l w = (Inl e, w)" "fail e w = (Inl e, w)" "ret x w = (Inr x, w)"
  by (simp_all add: id_query_def seq_def fail_def ret_def attempt_def split: sum.splits)

section \<open>Constraints\<close>

definition user_clash :: "user \<Rightarrow> user \<Rightarrow> bool" where
  "user_clash a b \<longleftrightarrow> ac_ID a = ac_ID b \<or> u_NormalizedEmail a = u_NormalizedEmail b"

definition user_valid :: "user \<Rightarrow> bool" where
  "user_valid u \<longleftrightarrow> 20 \<le> length (ac_ID u)"

definition federated_key :: "federated_identity \<Rightarrow> string list" where
  "federated_key f = [fi_Provider f, fi_Subject f]"

definition federated_clash :: "federated_identity \<Rightarrow> federated_identity \<Rightarrow> bool" where
  "federated_clash a b \<longleftrightarrow> federated_key a = federated_key b \<or>
     (fi_Provider a = fi_Provider b \<and> fi_UserID a = fi_UserID b)"

definition federated_valid :: "federated_identity \<Rightarrow> bool" where
  "federated_valid f \<longleftrightarrow> fi_Provider f = ProviderGoogle \<and> 0 < length (fi_Subject f)"

definition session_clash :: "session \<Rightarrow> session \<Rightarrow> bool" where
  "session_clash a b \<longleftrightarrow> s_ID a = s_ID b \<or> s_AccessTokenHash a = s_AccessTokenHash b"

definition session_valid :: "session \<Rightarrow> bool" where
  "session_valid s \<longleftrightarrow> 20 \<le> length (s_ID s) \<and> length (s_AccessTokenHash s) = 32 \<and>
     s_CreatedAt s < s_AccessTokenExpiresAt s \<and> s_CreatedAt s < s_RefreshExpiresAt s"

definition refresh_clash :: "refresh_credential \<Rightarrow> refresh_credential \<Rightarrow> bool" where
  "refresh_clash a b \<longleftrightarrow> r_TokenHash a = r_TokenHash b"

definition refresh_valid :: "refresh_credential \<Rightarrow> bool" where
  "refresh_valid r \<longleftrightarrow> length (r_TokenHash r) = 32 \<and> r_CreatedAt r < r_ExpiresAt r"

definition verification_clash :: "email_verification \<Rightarrow> email_verification \<Rightarrow> bool" where
  "verification_clash a b \<longleftrightarrow> e_UserID a = e_UserID b \<or> e_TicketHash a = e_TicketHash b"

definition verification_valid :: "email_verification \<Rightarrow> bool" where
  "verification_valid v \<longleftrightarrow> length (e_TicketHash v) = 32 \<and> length (e_CodeHash v) = 32 \<and> e_CreatedAt v < e_ExpiresAt v"

definition user_row :: "id_db \<Rightarrow> string \<Rightarrow> bool" where
  "user_row db i \<longleftrightarrow> (\<exists>u \<in> set (users db). ac_ID u = i)"

definition session_row :: "id_db \<Rightarrow> string \<Rightarrow> bool" where
  "session_row db i \<longleftrightarrow> (\<exists>s \<in> set (sessions db). s_ID s = i)"

interpretation user_table: table ac_ID user_clash user_valid
  by unfold_locales (auto simp: user_clash_def)

interpretation federated_table: table federated_key federated_clash federated_valid
  by unfold_locales (auto simp: federated_clash_def)

interpretation session_table: table s_ID session_clash session_valid
  by unfold_locales (auto simp: session_clash_def)

interpretation refresh_table: table r_TokenHash refresh_clash refresh_valid
  by unfold_locales (auto simp: refresh_clash_def)

interpretation verification_table: table e_UserID verification_clash verification_valid
  by unfold_locales (auto simp: verification_clash_def)

section \<open>Statements outside a transaction\<close>

definition UserByNormalizedEmail :: "string \<Rightarrow> user id_op" where
  "UserByNormalizedEmail email = id_query (\<lambda>db. first_row ac_ID (\<lambda>u. u_NormalizedEmail u = email) (users db))"

definition AccessPrincipalByAccessTokenHash :: "bytes \<Rightarrow> instant \<Rightarrow> access_principal id_op" where
  "AccessPrincipalByAccessTokenHash hash now = id_query (\<lambda>db.
     case first_row (\<lambda>(u, s). [ac_ID u, s_ID s])
       (\<lambda>(u, s). s_UserID s = ac_ID u \<and> s_AccessTokenHash s = hash \<and> now < s_AccessTokenExpiresAt s \<and>
          s_RevokedAt s = None \<and> ac_Status u = AccountStatusActive)
       (List.product (users db) (sessions db)) of
     Inl e \<Rightarrow> Inl e
   | Inr (u, s) \<Rightarrow> Inr \<lparr> ap_Account = user_account u, ap_SessionID = s_ID s,
       ap_AccessTokenExpiresAt = s_AccessTokenExpiresAt s \<rparr>)"

definition ActiveAccountByID :: "string \<Rightarrow> account id_op" where
  "ActiveAccountByID userID = seq (id_query (\<lambda>db.
     first_row ac_ID (\<lambda>u. ac_ID u = userID \<and> ac_Status u = AccountStatusActive) (users db))) (\<lambda>u. ret (user_account u))"

definition ActiveSessionByID :: "string \<Rightarrow> string \<Rightarrow> instant \<Rightarrow> unit id_op" where
  "ActiveSessionByID userID sessionID now = id_query (\<lambda>db.
     if length (filter (\<lambda>(u, s). ac_ID u = s_UserID s \<and> s_ID s = sessionID \<and> s_UserID s = userID \<and>
          s_RevokedAt s = None \<and> now < s_AccessTokenExpiresAt s \<and> ac_Status u = AccountStatusActive)
        (List.product (users db) (sessions db))) \<noteq> 1
     then Inl ErrRecordNotFound else Inr ())"

definition SetEmailBounced :: "string \<Rightarrow> instant option \<Rightarrow> unit id_op" where
  "SetEmailBounced userID at = id_store (\<lambda>rows db. db\<lparr>users := rows\<rparr>)
     (\<lambda>db. update_rows ac_ID user_clash user_valid (\<lambda>u. ac_ID u = userID) (\<lambda>u. u\<lparr>ac_EmailBouncedAt := at\<rparr>) (users db))"

section \<open>Statements of a transaction\<close>

definition CreateUser :: "user \<Rightarrow> unit id_op" where
  "CreateUser v = id_store (\<lambda>rows db. db\<lparr>users := rows\<rparr>)
     (\<lambda>db. create_row user_clash user_valid (\<lambda>_. True) v (users db))"

definition FederatedIdentityForUpdate :: "string \<Rightarrow> string \<Rightarrow> federated_identity id_op" where
  "FederatedIdentityForUpdate provider subject = id_query (\<lambda>db.
     first_row federated_key (\<lambda>f. fi_Provider f = provider \<and> fi_Subject f = subject) (federated_identities db))"

definition FederatedIdentityByUserForUpdate :: "string \<Rightarrow> string \<Rightarrow> federated_identity id_op" where
  "FederatedIdentityByUserForUpdate provider userID = id_query (\<lambda>db.
     first_row federated_key (\<lambda>f. fi_Provider f = provider \<and> fi_UserID f = userID) (federated_identities db))"

definition CreateFederatedIdentity :: "federated_identity \<Rightarrow> unit id_op" where
  "CreateFederatedIdentity v = id_store (\<lambda>rows db. db\<lparr>federated_identities := rows\<rparr>)
     (\<lambda>db. create_row federated_clash federated_valid (\<lambda>f. user_row db (fi_UserID f)) v (federated_identities db))"

definition TouchFederatedIdentity :: "string \<Rightarrow> string \<Rightarrow> string \<Rightarrow> instant \<Rightarrow> unit id_op" where
  "TouchFederatedIdentity provider subject email at =
     (let this = (\<lambda>f. fi_Provider f = provider \<and> fi_Subject f = subject) in
      id_store (\<lambda>rows db. db\<lparr>federated_identities := rows\<rparr>)
        (\<lambda>db. one_row this (update_rows federated_key federated_clash federated_valid this
           (\<lambda>f. f\<lparr>fi_Email := email, fi_LastAuthenticatedAt := at\<rparr>)) (federated_identities db)))"

definition UserByNormalizedEmailForUpdate :: "string \<Rightarrow> user id_op" where
  "UserByNormalizedEmailForUpdate email = id_query (\<lambda>db. first_row ac_ID (\<lambda>u. u_NormalizedEmail u = email) (users db))"

definition CreateSession :: "session \<Rightarrow> unit id_op" where
  "CreateSession v = id_store (\<lambda>rows db. db\<lparr>sessions := rows\<rparr>)
     (\<lambda>db. create_row session_clash session_valid (\<lambda>s. user_row db (s_UserID s)) v (sessions db))"

definition CreateRefreshCredential :: "refresh_credential \<Rightarrow> unit id_op" where
  "CreateRefreshCredential v = id_store (\<lambda>rows db. db\<lparr>refresh_credentials := rows\<rparr>)
     (\<lambda>db. create_row refresh_clash refresh_valid (\<lambda>r. session_row db (r_SessionID r)) v (refresh_credentials db))"

definition CreateEmailVerification :: "email_verification \<Rightarrow> unit id_op" where
  "CreateEmailVerification v = id_store (\<lambda>rows db. db\<lparr>email_verifications := rows\<rparr>)
     (\<lambda>db. create_row verification_clash verification_valid (\<lambda>e. user_row db (e_UserID e)) v (email_verifications db))"

text \<open>The upsert on \<open>user_id\<close>: the row of that user takes every value of the new one.\<close>

definition ReplaceEmailVerification :: "email_verification \<Rightarrow> unit id_op" where
  "ReplaceEmailVerification v = id_store (\<lambda>rows db. db\<lparr>email_verifications := rows\<rparr>)
     (\<lambda>db. save_row e_UserID verification_clash verification_valid (\<lambda>e. user_row db (e_UserID e)) v (email_verifications db))"

definition EmailVerificationForUpdate :: "bytes \<Rightarrow> email_verification id_op" where
  "EmailVerificationForUpdate hash = id_query (\<lambda>db. first_row e_UserID (\<lambda>e. e_TicketHash e = hash) (email_verifications db))"

definition EmailVerificationByUserIDForUpdate :: "string \<Rightarrow> email_verification id_op" where
  "EmailVerificationByUserIDForUpdate userID =
     id_query (\<lambda>db. first_row e_UserID (\<lambda>e. e_UserID e = userID) (email_verifications db))"

definition IncrementEmailVerificationAttempts :: "string \<Rightarrow> unit id_op" where
  "IncrementEmailVerificationAttempts userID = id_store (\<lambda>rows db. db\<lparr>email_verifications := rows\<rparr>)
     (\<lambda>db. one_row (\<lambda>e. e_UserID e = userID) (update_rows e_UserID verification_clash verification_valid
        (\<lambda>e. e_UserID e = userID) (\<lambda>e. e\<lparr>e_Attempts := e_Attempts e + 1\<rparr>)) (email_verifications db))"

definition DeleteEmailVerification :: "string \<Rightarrow> unit id_op" where
  "DeleteEmailVerification userID = id_store (\<lambda>rows db. db\<lparr>email_verifications := rows\<rparr>)
     (\<lambda>db. Inr (filter (\<lambda>e. e_UserID e \<noteq> userID) (email_verifications db)))"

definition ActivateUser :: "string \<Rightarrow> instant \<Rightarrow> unit id_op" where
  "ActivateUser userID verifiedAt =
     (let this = (\<lambda>u. ac_ID u = userID \<and> ac_Status u = AccountStatusPending) in
      id_store (\<lambda>rows db. db\<lparr>users := rows\<rparr>)
        (\<lambda>db. one_row this (update_rows ac_ID user_clash user_valid this
           (\<lambda>u. u\<lparr>ac_Status := AccountStatusActive, ac_EmailVerifiedAt := Some verifiedAt\<rparr>)) (users db)))"

definition ActivateFederatedUser :: "string \<Rightarrow> instant \<Rightarrow> unit id_op" where
  "ActivateFederatedUser userID verifiedAt =
     (let this = (\<lambda>u. ac_ID u = userID \<and> ac_Status u = AccountStatusPending) in
      id_store (\<lambda>rows db. db\<lparr>users := rows\<rparr>)
        (\<lambda>db. one_row this (update_rows ac_ID user_clash user_valid this
           (\<lambda>u. u\<lparr>ac_Status := AccountStatusActive, ac_EmailVerifiedAt := Some verifiedAt, u_PasswordHash := None\<rparr>)) (users db)))"

definition RefreshCredentialForUpdate :: "bytes \<Rightarrow> refresh_credential id_op" where
  "RefreshCredentialForUpdate hash = id_query (\<lambda>db. first_row r_TokenHash (\<lambda>r. r_TokenHash r = hash) (refresh_credentials db))"

definition SessionForUpdate :: "string \<Rightarrow> session id_op" where
  "SessionForUpdate sessionID = id_query (\<lambda>db. first_row s_ID (\<lambda>s. s_ID s = sessionID) (sessions db))"

definition UserByID :: "string \<Rightarrow> user id_op" where
  "UserByID userID = id_query (\<lambda>db. first_row ac_ID (\<lambda>u. ac_ID u = userID) (users db))"

definition MarkRefreshCredentialUsed :: "bytes \<Rightarrow> instant \<Rightarrow> unit id_op" where
  "MarkRefreshCredentialUsed hash usedAt =
     (let this = (\<lambda>r. r_TokenHash r = hash \<and> r_UsedAt r = None) in
      id_store (\<lambda>rows db. db\<lparr>refresh_credentials := rows\<rparr>)
        (\<lambda>db. one_row this (update_rows r_TokenHash refresh_clash refresh_valid this
           (\<lambda>r. r\<lparr>r_UsedAt := Some usedAt\<rparr>)) (refresh_credentials db)))"

definition RotateSessionAccess :: "string \<Rightarrow> bytes \<Rightarrow> instant \<Rightarrow> instant \<Rightarrow> unit id_op" where
  "RotateSessionAccess sessionID hash expiresAt refreshedAt =
     (let this = (\<lambda>s. s_ID s = sessionID \<and> s_RevokedAt s = None) in
      id_store (\<lambda>rows db. db\<lparr>sessions := rows\<rparr>)
        (\<lambda>db. one_row this (update_rows s_ID session_clash session_valid this
           (\<lambda>s. s\<lparr>s_AccessTokenHash := hash, s_AccessTokenExpiresAt := expiresAt, s_LastRefreshedAt := refreshedAt\<rparr>))
           (sessions db)))"

definition RevokeSession :: "string \<Rightarrow> instant \<Rightarrow> unit id_op" where
  "RevokeSession sessionID revokedAt = id_store (\<lambda>rows db. db\<lparr>sessions := rows\<rparr>)
     (\<lambda>db. update_rows s_ID session_clash session_valid (\<lambda>s. s_ID s = sessionID \<and> s_RevokedAt s = None)
        (\<lambda>s. s\<lparr>s_RevokedAt := Some revokedAt\<rparr>) (sessions db))"

definition IdAppendAuditEvent :: "id_audit_event \<Rightarrow> unit id_op" where
  "IdAppendAuditEvent v = id_store (\<lambda>rows db. db\<lparr>id_audit_events := rows\<rparr>)
     (\<lambda>db. if (case ia_UserID v of None \<Rightarrow> True | Some i \<Rightarrow> user_row db i) \<and>
               (case ia_SessionID v of None \<Rightarrow> True | Some i \<Rightarrow> session_row db i)
           then Inr (id_audit_events db @ [v]) else Inl ErrForeignKeyViolated)"

lemmas id_find_defs = UserByNormalizedEmail_def FederatedIdentityForUpdate_def FederatedIdentityByUserForUpdate_def
  UserByNormalizedEmailForUpdate_def EmailVerificationForUpdate_def EmailVerificationByUserIDForUpdate_def
  RefreshCredentialForUpdate_def SessionForUpdate_def UserByID_def

lemmas id_write_defs = CreateUser_def CreateFederatedIdentity_def TouchFederatedIdentity_def CreateSession_def
  CreateRefreshCredential_def CreateEmailVerification_def ReplaceEmailVerification_def
  IncrementEmailVerificationAttempts_def DeleteEmailVerification_def ActivateUser_def ActivateFederatedUser_def
  MarkRefreshCredentialUsed_def RotateSessionAccess_def RevokeSession_def IdAppendAuditEvent_def SetEmailBounced_def

section \<open>The schema\<close>

definition id_schema_ok :: "id_db \<Rightarrow> bool" where
  "id_schema_ok db \<longleftrightarrow> rows_ok user_clash user_valid (users db) \<and>
     rows_ok federated_clash federated_valid (federated_identities db) \<and>
     rows_ok session_clash session_valid (sessions db) \<and>
     rows_ok refresh_clash refresh_valid (refresh_credentials db) \<and>
     rows_ok verification_clash verification_valid (email_verifications db) \<and>
     (\<forall>f \<in> set (federated_identities db). user_row db (fi_UserID f)) \<and>
     (\<forall>s \<in> set (sessions db). user_row db (s_UserID s)) \<and>
     (\<forall>r \<in> set (refresh_credentials db). session_row db (r_SessionID r)) \<and>
     (\<forall>e \<in> set (email_verifications db). user_row db (e_UserID e))"

end
