(* ===== verification/Id_Service.thy ===== *)
theory Id_Service
  imports Id_Store
begin

text \<open>
  The identity service's operations (\<open>internal/identity/service.go\<close> and \<open>token.go\<close>).  Each takes the
  instant it reads from its clock; \<open>sent\<close> is the second reading, made after a mail came back.
  Transaction closures are definitions of their own.
\<close>

section \<open>Random values\<close>

definition id_draw :: "nat \<Rightarrow> bytes id_op" where
  "id_draw len = (\<lambda>w. case ReadFull len (iw_random w) of (value, rest) \<Rightarrow>
     (case value of None \<Rightarrow> Inl IdOther | Some v \<Rightarrow> Inr v, w\<lparr>iw_random := rest\<rparr>))"

definition identifierRandomLength :: nat where "identifierRandomLength = 18"
definition tokenRandomLength :: nat where "tokenRandomLength = 32"
definition verificationCodeSpace :: nat where "verificationCodeSpace = 1000000"

definition issueRandomValue :: "string \<Rightarrow> nat \<Rightarrow> string id_op" where
  "issueRandomValue prefix len = seq (id_draw len) (\<lambda>value. ret (prefix @ EncodeToString value))"

definition id_issueIdentifier :: "string \<Rightarrow> string id_op" where
  "id_issueIdentifier prefix = issueRandomValue prefix identifierRandomLength"

definition id_issueToken :: "string \<Rightarrow> string id_op" where
  "id_issueToken prefix = issueRandomValue prefix tokenRandomLength"

text \<open>\<open>binary.BigEndian.Uint32\<close>, on 32-bit words.\<close>

definition BigEndian_Uint32 :: "bytes \<Rightarrow> 32 word" where
  "BigEndian_Uint32 b = word_of_nat (byte_nat (b ! 3)) OR push_bit 8 (word_of_nat (byte_nat (b ! 2))) OR
     push_bit 16 (word_of_nat (byte_nat (b ! 1))) OR push_bit 24 (word_of_nat (byte_nat (b ! 0)))"

text \<open>\<open>const limit = uint32(math.MaxUint32 - (math.MaxUint32 % verificationCodeSpace))\<close>\<close>

definition code_limit :: "32 word" where
  "code_limit = word_of_nat (4294967295 - 4294967295 mod verificationCodeSpace)"

text \<open>\<open>%06d\<close>, for a number of at most six digits.\<close>

definition six_digits :: "nat \<Rightarrow> string" where
  "six_digits n = map (\<lambda>k. nat_byte (48 + n div 10 ^ k mod 10)) [5, 4, 3, 2, 1, 0]"

definition code_of :: "32 word \<Rightarrow> string" where
  "code_of drawn = six_digits (unat (drawn mod word_of_nat verificationCodeSpace))"

fun code_rounds :: "nat \<Rightarrow> string id_op" where
  "code_rounds 0 = fail IdOther"
| "code_rounds (Suc rounds) = seq (id_draw 4) (\<lambda>value.
     let drawn = BigEndian_Uint32 value in
     if drawn < code_limit then ret (code_of drawn) else code_rounds rounds)"

definition issueVerificationCode :: "string id_op" where
  "issueVerificationCode = code_rounds 64"

section \<open>Material\<close>

definition auditEvent :: "string \<Rightarrow> string \<Rightarrow> string \<Rightarrow> instant \<Rightarrow> id_audit_event" where
  "auditEvent eventType userID sessionID occurredAt = \<lparr> ia_UserID = Some userID, ia_SessionID = Some sessionID,
     ia_EventType = eventType, ia_OccurredAt = occurredAt \<rparr>"

definition accountAuditEvent :: "string \<Rightarrow> string \<Rightarrow> instant \<Rightarrow> id_audit_event" where
  "accountAuditEvent eventType userID occurredAt = \<lparr> ia_UserID = Some userID, ia_SessionID = None,
     ia_EventType = eventType, ia_OccurredAt = occurredAt \<rparr>"

definition anonymousAuditEvent :: "string \<Rightarrow> instant \<Rightarrow> id_audit_event" where
  "anonymousAuditEvent eventType occurredAt = \<lparr> ia_UserID = None, ia_SessionID = None,
     ia_EventType = eventType, ia_OccurredAt = occurredAt \<rparr>"

record session_material =
  sm_session :: session
  sm_refresh :: refresh_credential
  sm_credentials :: credentials

definition newSessionMaterial :: "id_service \<Rightarrow> account \<Rightarrow> string \<Rightarrow> instant \<Rightarrow> session_material id_op" where
  "newSessionMaterial svc account clientName now =
     seq (id_issueIdentifier ''asn_'') (\<lambda>sessionID.
     seq (id_issueToken ''ora_'') (\<lambda>accessToken.
     seq (id_issueToken ''orr_'') (\<lambda>refreshToken.
     let accessExpiresAt = now + accessLifetime svc; refreshExpiresAt = now + refreshLifetime svc in
     ret \<lparr> sm_session = \<lparr> s_ID = sessionID, s_UserID = ac_ID account, s_AccessTokenHash = hashToken svc accessToken,
             s_AccessTokenExpiresAt = accessExpiresAt, s_RefreshExpiresAt = refreshExpiresAt, s_ClientName = clientName,
             s_CreatedAt = now, s_LastRefreshedAt = now, s_RevokedAt = None \<rparr>,
           sm_refresh = \<lparr> r_TokenHash = hashToken svc refreshToken, r_SessionID = sessionID,
             r_ExpiresAt = refreshExpiresAt, r_CreatedAt = now, r_UsedAt = None \<rparr>,
           sm_credentials = \<lparr> cd_Account = account, cd_AccessToken = accessToken,
             cd_AccessTokenExpiresAt = accessExpiresAt, cd_RefreshToken = refreshToken,
             cd_RefreshTokenExpiresAt = refreshExpiresAt \<rparr> \<rparr>)))"

definition persistSessionMaterial :: "session_material \<Rightarrow> unit id_op" where
  "persistSessionMaterial material =
     seq (CreateSession (sm_session material)) (\<lambda>_. CreateRefreshCredential (sm_refresh material))"

record verification_material =
  vm_challenge :: verification_challenge
  vm_record :: email_verification
  vm_code :: string

definition newVerificationMaterial ::
  "id_service \<Rightarrow> account \<Rightarrow> string \<Rightarrow> instant \<Rightarrow> verification_material id_op" where
  "newVerificationMaterial svc account clientName now =
     seq (id_issueToken ''vft_'') (\<lambda>ticket.
     seq issueVerificationCode (\<lambda>code.
     let expiresAt = now + verificationCodeLifetime in
     ret \<lparr> vm_challenge = \<lparr> vc_Account = account, vc_Ticket = ticket, vc_TicketExpiresAt = expiresAt \<rparr>,
           vm_record = \<lparr> e_UserID = ac_ID account, e_TicketHash = hashToken svc ticket, e_CodeHash = hashToken svc code,
             e_ClientName = clientName, e_Attempts = 0, e_ExpiresAt = expiresAt, e_CreatedAt = now \<rparr>,
           vm_code = code \<rparr>))"

section \<open>Mail\<close>

definition send_mail :: "string \<Rightarrow> string \<Rightarrow> unit id_op" where
  "send_mail email body = (\<lambda>w. (Inr (), w\<lparr>iw_mails := iw_mails w @ [(email, body)]\<rparr>))"

definition recordDelivery :: "instant \<Rightarrow> string \<Rightarrow> id_error option \<Rightarrow> unit id_op" where
  "recordDelivery sent userID err =
     (if userID = [] then ret ()
      else case err of
        None \<Rightarrow> seq (attempt (SetEmailBounced userID None)) (\<lambda>_. ret ())
      | Some e \<Rightarrow>
          if e = IdMailUndeliverable then seq (attempt (SetEmailBounced userID (Some sent))) (\<lambda>_. ret ()) else ret ())"

definition deliverVerificationCode :: "id_service \<Rightarrow> instant \<Rightarrow> string \<Rightarrow> string \<Rightarrow> string \<Rightarrow> unit id_op" where
  "deliverVerificationCode svc sent userID email code =
     seq (send_mail email code) (\<lambda>_. recordDelivery sent userID (id_send_code svc email code))"

definition deliverRegistrationNotice :: "id_service \<Rightarrow> instant \<Rightarrow> string \<Rightarrow> string \<Rightarrow> unit id_op" where
  "deliverRegistrationNotice svc sent normalizedEmail email =
     seq (send_mail email []) (\<lambda>_.
     seq (attempt (UserByNormalizedEmail normalizedEmail)) (\<lambda>found.
     recordDelivery sent (case found of Inl _ \<Rightarrow> [] | Inr user \<Rightarrow> ac_ID user) (id_send_notice svc email)))"

section \<open>Registration\<close>

text \<open>The password hasher draws its salt first.\<close>

definition saltLength :: nat where "saltLength = 16"

definition hash_password :: "id_service \<Rightarrow> string \<Rightarrow> string id_op" where
  "hash_password svc password = (\<lambda>w. case ReadFull saltLength (iw_salts w) of (salt, rest) \<Rightarrow>
     (case salt of None \<Rightarrow> Inl IdOther | Some s \<Rightarrow> Inr (id_hash_password svc password s), w\<lparr>iw_salts := rest\<rparr>))"

definition verify_password :: "id_service \<Rightarrow> string \<Rightarrow> string \<Rightarrow> bool id_op" where
  "verify_password svc password encodedHash = (\<lambda>w. (id_verify_password svc password encodedHash, w))"

definition decoyRegistration ::
  "id_service \<Rightarrow> instant \<Rightarrow> instant \<Rightarrow> string \<Rightarrow> string \<Rightarrow> auth_outcome id_op" where
  "decoyRegistration svc now sent email normalizedEmail =
     seq (id_issueToken ''vft_'') (\<lambda>ticket.
     seq (id_issueIdentifier ''usr_'') (\<lambda>decoyID.
     seq (IdWithinTransaction (IdAppendAuditEvent (anonymousAuditEvent ''auth.registration_conflict'' now))) (\<lambda>_.
     seq (deliverRegistrationNotice svc sent normalizedEmail email) (\<lambda>_.
     ret (MustVerify \<lparr> vc_Account = \<lparr> ac_ID = decoyID, ac_Email = email, ac_Status = AccountStatusPending,
         ac_EmailVerifiedAt = None, ac_EmailBouncedAt = None, ac_CreatedAt = now \<rparr>,
       vc_Ticket = ticket, vc_TicketExpiresAt = now + verificationCodeLifetime \<rparr>)))))"

definition register_transaction :: "instant \<Rightarrow> user \<Rightarrow> email_verification \<Rightarrow> unit id_op" where
  "register_transaction now user record =
     seq (CreateUser user) (\<lambda>_.
     seq (CreateEmailVerification record) (\<lambda>_.
     IdAppendAuditEvent (accountAuditEvent ''auth.registration_succeeded'' (ac_ID user) now)))"

definition Register :: "id_service \<Rightarrow> instant \<Rightarrow> instant \<Rightarrow> register_input \<Rightarrow> auth_outcome id_op" where
  "Register svc now sent input =
     (case normalizeEmail svc (ri_Email input) of None \<Rightarrow> fail IdInvalidInput | Some (email, normalizedEmail) \<Rightarrow>
      if \<not> validRegistrationPassword (ri_Password input) then fail IdInvalidInput
      else if (case id_is_disposable svc of None \<Rightarrow> False | Some disposable \<Rightarrow> disposable email) then fail IdDisposableEmail
      else case normalizeClientName (ri_ClientName input) of None \<Rightarrow> fail IdInvalidInput | Some clientName \<Rightarrow>
      seq (hash_password svc (ri_Password input)) (\<lambda>passwordHash.
      seq (id_issueIdentifier ''usr_'') (\<lambda>userID.
      let user = \<lparr> ac_ID = userID, ac_Email = email, ac_Status = AccountStatusPending, ac_EmailVerifiedAt = None,
        ac_EmailBouncedAt = None, ac_CreatedAt = now, u_NormalizedEmail = normalizedEmail,
        u_PasswordHash = Some passwordHash \<rparr> in
      seq (newVerificationMaterial svc (user_account user) clientName now) (\<lambda>material.
      seq (attempt (IdWithinTransaction (register_transaction now user (vm_record material)))) (\<lambda>result.
      case result of
        Inl e \<Rightarrow> if e = IdConflict then decoyRegistration svc now sent email normalizedEmail else fail e
      | Inr _ \<Rightarrow>
          seq (deliverVerificationCode svc sent (ac_ID user) email (vm_code material)) (\<lambda>_.
          ret (MustVerify (vm_challenge material))))))))"

section \<open>Signing in with a password\<close>

definition reissue_transaction :: "instant \<Rightarrow> user \<Rightarrow> email_verification \<Rightarrow> bool id_op" where
  "reissue_transaction now user record =
     seq (attempt (EmailVerificationByUserIDForUpdate (ac_ID user))) (\<lambda>existing.
     seq (case existing of
            Inl e \<Rightarrow> if e = IdNotFound then ret (record, False) else fail e
          | Inr existing \<Rightarrow>
              if now < e_ExpiresAt existing \<and> now - e_CreatedAt existing < minimumResendInterval
              then ret (record\<lparr>e_CodeHash := e_CodeHash existing, e_CreatedAt := e_CreatedAt existing,
                     e_Attempts := e_Attempts existing\<rparr>, True)
              else ret (record, False)) (\<lambda>(record, reusedCode).
     seq (ReplaceEmailVerification record) (\<lambda>_.
     seq (IdAppendAuditEvent (accountAuditEvent ''auth.verification_reissued'' (ac_ID user) now)) (\<lambda>_.
     ret reusedCode))))"

definition reissueVerification :: "id_service \<Rightarrow> instant \<Rightarrow> instant \<Rightarrow> user \<Rightarrow> string \<Rightarrow> auth_outcome id_op" where
  "reissueVerification svc now sent user clientName =
     seq (newVerificationMaterial svc (user_account user) clientName now) (\<lambda>material.
     seq (IdWithinTransaction (reissue_transaction now user (vm_record material))) (\<lambda>reusedCode.
     seq (if reusedCode then ret () else deliverVerificationCode svc sent (ac_ID user) (ac_Email user) (vm_code material))
       (\<lambda>_. ret (MustVerify (vm_challenge material)))))"

definition start_session_transaction :: "string \<Rightarrow> instant \<Rightarrow> string \<Rightarrow> session_material \<Rightarrow> unit id_op" where
  "start_session_transaction eventType now userID material =
     seq (persistSessionMaterial material) (\<lambda>_.
     IdAppendAuditEvent (auditEvent eventType userID (s_ID (sm_session material)) now))"

definition Login :: "id_service \<Rightarrow> instant \<Rightarrow> instant \<Rightarrow> login_input \<Rightarrow> auth_outcome id_op" where
  "Login svc now sent input =
     (case normalizeEmail svc (li_Email input) of None \<Rightarrow> fail IdInvalidCredentials | Some (_, normalizedEmail) \<Rightarrow>
      if \<not> validLoginPassword (li_Password input) then fail IdInvalidCredentials
      else case normalizeClientName (li_ClientName input) of None \<Rightarrow> fail IdInvalidInput | Some clientName \<Rightarrow>
      seq (attempt (UserByNormalizedEmail normalizedEmail)) (\<lambda>found.
      case found of
        Inl e \<Rightarrow> if e = IdNotFound
          then seq (attempt (verify_password svc (li_Password input) (dummyHash svc))) (\<lambda>_. fail IdInvalidCredentials)
          else fail e
      | Inr user \<Rightarrow>
          if \<not> HasPassword user
          then seq (attempt (verify_password svc (li_Password input) (dummyHash svc))) (\<lambda>_. fail IdInvalidCredentials)
          else
          seq (verify_password svc (li_Password input) (the (u_PasswordHash user))) (\<lambda>verified.
          if \<not> verified then fail IdInvalidCredentials
          else case ac_Status user of
            AccountStatusActive \<Rightarrow>
              seq (newSessionMaterial svc (user_account user) clientName now) (\<lambda>material.
              seq (IdWithinTransaction (start_session_transaction ''auth.login_succeeded'' now (ac_ID user) material))
                (\<lambda>_. ret (Authenticated (sm_credentials material))))
          | AccountStatusPending \<Rightarrow> reissueVerification svc now sent user clientName
          | AccountStatusDisabled \<Rightarrow> fail IdInvalidCredentials)))"

section \<open>Verifying an address\<close>

definition verify_transaction :: "id_service \<Rightarrow> instant \<Rightarrow> verify_email_input \<Rightarrow> credentials option id_op" where
  "verify_transaction svc now input =
     seq (attempt (EmailVerificationForUpdate (hashToken svc (vi_Ticket input)))) (\<lambda>found.
     case found of
       Inl e \<Rightarrow> if e = IdNotFound then ret None else fail e
     | Inr record \<Rightarrow>
         if \<not> now < e_ExpiresAt record \<or> e_Attempts record \<ge> maxVerificationAttempts then ret None
         else if \<not> hmac_Equal (e_CodeHash record) (hashToken svc (vi_Code input)) then
           seq (IncrementEmailVerificationAttempts (e_UserID record)) (\<lambda>_. ret None)
         else
           seq (UserByID (e_UserID record)) (\<lambda>user.
           if ac_Status user \<noteq> AccountStatusPending then ret None
           else
           let account = (user_account user)\<lparr>ac_Status := AccountStatusActive, ac_EmailVerifiedAt := Some now\<rparr> in
           seq (newSessionMaterial svc account (e_ClientName record) now) (\<lambda>material.
           seq (ActivateUser (e_UserID record) now) (\<lambda>_.
           seq (DeleteEmailVerification (e_UserID record)) (\<lambda>_.
           seq (persistSessionMaterial material) (\<lambda>_.
           seq (IdAppendAuditEvent (auditEvent ''auth.email_verified'' (ac_ID user) (s_ID (sm_session material)) now)) (\<lambda>_.
           ret (Some (sm_credentials material)))))))))"

definition VerifyEmail :: "id_service \<Rightarrow> instant \<Rightarrow> verify_email_input \<Rightarrow> auth_outcome id_op" where
  "VerifyEmail svc now input =
     (if \<not> id_validToken (vi_Ticket input) ''vft_'' \<or> \<not> validVerificationCode (vi_Code input) then fail IdInvalidVerificationCode
      else seq (IdWithinTransaction (verify_transaction svc now input)) (\<lambda>verified.
        case verified of None \<Rightarrow> fail IdInvalidVerificationCode | Some credentials \<Rightarrow> ret (Authenticated credentials)))"

text \<open>The variables the closure sets: throttled, reissued with the material and the account, or neither.\<close>

datatype resend_outcome =
    Resend_Nothing
  | Resend_Throttled
  | Resend_Reissued verification_material string string

definition resend_transaction :: "id_service \<Rightarrow> instant \<Rightarrow> string \<Rightarrow> resend_outcome id_op" where
  "resend_transaction svc now ticket =
     seq (attempt (EmailVerificationForUpdate (hashToken svc ticket))) (\<lambda>found.
     case found of
       Inl e \<Rightarrow> if e = IdNotFound then ret Resend_Nothing else fail e
     | Inr record \<Rightarrow>
         if now - e_CreatedAt record < minimumResendInterval then ret Resend_Throttled
         else
         seq (UserByID (e_UserID record)) (\<lambda>user.
         if ac_Status user \<noteq> AccountStatusPending then ret Resend_Nothing
         else
         seq (newVerificationMaterial svc (user_account user) (e_ClientName record) now) (\<lambda>material.
         seq (ReplaceEmailVerification (vm_record material)) (\<lambda>_.
         seq (IdAppendAuditEvent (accountAuditEvent ''auth.verification_resent'' (ac_ID user) now)) (\<lambda>_.
         ret (Resend_Reissued material (ac_Email user) (ac_ID user)))))))"

definition ResendVerification :: "id_service \<Rightarrow> instant \<Rightarrow> instant \<Rightarrow> string \<Rightarrow> verification_challenge id_op" where
  "ResendVerification svc now sent ticket =
     (if \<not> id_validToken ticket ''vft_'' then fail IdInvalidVerificationCode
      else seq (IdWithinTransaction (resend_transaction svc now ticket)) (\<lambda>outcome.
        case outcome of
          Resend_Throttled \<Rightarrow> fail IdVerificationThrottled
        | Resend_Nothing \<Rightarrow> fail IdInvalidVerificationCode
        | Resend_Reissued material email userID \<Rightarrow>
            seq (deliverVerificationCode svc sent userID email (vm_code material)) (\<lambda>_. ret (vm_challenge material))))"

section \<open>Sessions\<close>

definition onSessionRevoked :: "string \<Rightarrow> string \<Rightarrow> bool \<Rightarrow> unit id_op" where
  "onSessionRevoked userID sessionID accountInactive =
     (\<lambda>w. (Inr (), w\<lparr>iw_revoked := iw_revoked w @ [(userID, sessionID, accountInactive)]\<rparr>))"

text \<open>What the closure of \<open>Refresh\<close> leaves: new credentials, or the session it revoked and why.\<close>

datatype refresh_outcome =
    Refresh_Nothing
  | Refresh_Revoked session bool
  | Refresh_Valid credentials

definition refresh_transaction :: "id_service \<Rightarrow> instant \<Rightarrow> string \<Rightarrow> string \<Rightarrow> string \<Rightarrow> refresh_outcome id_op" where
  "refresh_transaction svc now refreshToken newAccessToken newRefreshToken =
     (let accessExpiresAt = now + accessLifetime svc in
     seq (attempt (RefreshCredentialForUpdate (hashToken svc refreshToken))) (\<lambda>found.
     case found of
       Inl e \<Rightarrow> if e = IdNotFound then ret Refresh_Nothing else fail e
     | Inr refresh \<Rightarrow>
     seq (attempt (SessionForUpdate (r_SessionID refresh))) (\<lambda>found.
     case found of
       Inl e \<Rightarrow> if e = IdNotFound then ret Refresh_Nothing else fail e
     | Inr session \<Rightarrow>
     if r_UsedAt refresh \<noteq> None then
       (if s_RevokedAt session = None then
          seq (RevokeSession (s_ID session) now) (\<lambda>_.
          seq (IdAppendAuditEvent (auditEvent ''auth.refresh_reuse_detected'' (s_UserID session) (s_ID session) now)) (\<lambda>_.
          ret (Refresh_Revoked session False)))
        else ret Refresh_Nothing)
     else if s_RevokedAt session \<noteq> None \<or> \<not> now < r_ExpiresAt refresh \<or> \<not> now < s_RefreshExpiresAt session then
       (if s_RevokedAt session = None then
          seq (RevokeSession (s_ID session) now) (\<lambda>_. ret (Refresh_Revoked session False))
        else ret Refresh_Nothing)
     else
     seq (UserByID (s_UserID session)) (\<lambda>user.
     if ac_Status user \<noteq> AccountStatusActive then
       seq (RevokeSession (s_ID session) now) (\<lambda>_. ret (Refresh_Revoked session True))
     else
     seq (MarkRefreshCredentialUsed (r_TokenHash refresh) now) (\<lambda>_.
     seq (RotateSessionAccess (s_ID session) (hashToken svc newAccessToken) accessExpiresAt now) (\<lambda>_.
     seq (CreateRefreshCredential \<lparr> r_TokenHash = hashToken svc newRefreshToken, r_SessionID = s_ID session,
            r_ExpiresAt = s_RefreshExpiresAt session, r_CreatedAt = now, r_UsedAt = None \<rparr>) (\<lambda>_.
     seq (IdAppendAuditEvent (auditEvent ''auth.refresh_succeeded'' (ac_ID user) (s_ID session) now)) (\<lambda>_.
     ret (Refresh_Valid \<lparr> cd_Account = user_account user, cd_AccessToken = newAccessToken,
       cd_AccessTokenExpiresAt = accessExpiresAt, cd_RefreshToken = newRefreshToken,
       cd_RefreshTokenExpiresAt = s_RefreshExpiresAt session \<rparr>)))))))))"

definition Refresh :: "id_service \<Rightarrow> instant \<Rightarrow> string \<Rightarrow> credentials id_op" where
  "Refresh svc now refreshToken =
     (if \<not> id_validToken refreshToken ''orr_'' then fail IdInvalidRefresh
      else
      seq (id_issueToken ''ora_'') (\<lambda>newAccessToken.
      seq (id_issueToken ''orr_'') (\<lambda>newRefreshToken.
      seq (IdWithinTransaction (refresh_transaction svc now refreshToken newAccessToken newRefreshToken)) (\<lambda>outcome.
      case outcome of
        Refresh_Nothing \<Rightarrow> fail IdInvalidRefresh
      | Refresh_Revoked session accountInactive \<Rightarrow>
          seq (onSessionRevoked (s_UserID session) (s_ID session) accountInactive) (\<lambda>_. fail IdInvalidRefresh)
      | Refresh_Valid credentials \<Rightarrow> ret credentials))))"

definition logout_transaction :: "id_service \<Rightarrow> instant \<Rightarrow> string \<Rightarrow> session option id_op" where
  "logout_transaction svc now refreshToken =
     seq (attempt (RefreshCredentialForUpdate (hashToken svc refreshToken))) (\<lambda>found.
     case found of
       Inl e \<Rightarrow> if e = IdNotFound then ret None else fail e
     | Inr refresh \<Rightarrow>
     seq (attempt (SessionForUpdate (r_SessionID refresh))) (\<lambda>found.
     case found of
       Inl e \<Rightarrow> if e = IdNotFound then ret None else fail e
     | Inr session \<Rightarrow>
         if s_RevokedAt session \<noteq> None then ret None
         else
         seq (RevokeSession (s_ID session) now) (\<lambda>_.
         seq (IdAppendAuditEvent (auditEvent ''auth.logout_succeeded'' (s_UserID session) (s_ID session) now)) (\<lambda>_.
         ret (Some session)))))"

definition Logout :: "id_service \<Rightarrow> instant \<Rightarrow> string \<Rightarrow> unit id_op" where
  "Logout svc now refreshToken =
     (if \<not> id_validToken refreshToken ''orr_'' then ret ()
      else seq (IdWithinTransaction (logout_transaction svc now refreshToken)) (\<lambda>revoked.
        case revoked of None \<Rightarrow> ret () | Some session \<Rightarrow> onSessionRevoked (s_UserID session) (s_ID session) False))"

definition AuthenticateAccess :: "id_service \<Rightarrow> instant \<Rightarrow> string \<Rightarrow> access_principal id_op" where
  "AuthenticateAccess svc now accessToken =
     (if \<not> id_validToken accessToken ''ora_'' then fail IdUnauthorized
      else on_error (\<lambda>e. if e = IdNotFound then IdUnauthorized else e)
        (AccessPrincipalByAccessTokenHash (hashToken svc accessToken) now))"

definition CurrentAccount :: "id_service \<Rightarrow> instant \<Rightarrow> string \<Rightarrow> account id_op" where
  "CurrentAccount svc now accessToken =
     seq (AuthenticateAccess svc now accessToken) (\<lambda>principal. ret (ap_Account principal))"

definition AuthorizeAccount :: "string \<Rightarrow> unit id_op" where
  "AuthorizeAccount userID =
     (if userID = [] then fail IdUnauthorized
      else on_error (\<lambda>e. if e = IdNotFound then IdUnauthorized else e)
        (seq (ActiveAccountByID userID) (\<lambda>_. ret ())))"

definition AuthorizeSession :: "instant \<Rightarrow> string \<Rightarrow> string \<Rightarrow> unit id_op" where
  "AuthorizeSession now userID sessionID =
     (if userID = [] \<or> sessionID = [] then fail IdUnauthorized
      else on_error (\<lambda>e. if e = IdNotFound then IdUnauthorized else e) (ActiveSessionByID userID sessionID now))"

end
