(* ===== verification/Id_Google.thy ===== *)
theory Id_Google
  imports Id_Service
begin

text \<open>
  Signing in with Google (\<open>internal/identity/google.go\<close>).  A refusal that must commit its audit event is
  an outcome of the transaction and not an error of it.  The retry is the unbounded loop of the code, so
  that its end is a theorem and not an assumption; \<open>clock n\<close> is the instant read by round \<open>n\<close>.
\<close>

datatype google_outcome = Google_SignedIn credentials | Google_Refused id_error

definition startGoogleSession :: "id_service \<Rightarrow> account \<Rightarrow> string \<Rightarrow> instant \<Rightarrow> string \<Rightarrow> credentials id_op" where
  "startGoogleSession svc account clientName now eventType =
     seq (newSessionMaterial svc account clientName now) (\<lambda>material.
     seq (persistSessionMaterial material) (\<lambda>_.
     seq (IdAppendAuditEvent (auditEvent eventType (ac_ID account) (s_ID (sm_session material)) now)) (\<lambda>_.
     ret (sm_credentials material))))"

definition googleRefusal :: "string \<Rightarrow> string \<Rightarrow> instant \<Rightarrow> id_error \<Rightarrow> google_outcome id_op" where
  "googleRefusal eventType userID now refusal =
     seq (IdAppendAuditEvent (accountAuditEvent eventType userID now)) (\<lambda>_. ret (Google_Refused refusal))"

definition googleReturningUser ::
  "id_service \<Rightarrow> federated_identity \<Rightarrow> string \<Rightarrow> string \<Rightarrow> instant \<Rightarrow> credentials id_op" where
  "googleReturningUser svc link email clientName now =
     seq (UserByID (fi_UserID link)) (\<lambda>user.
     if ac_Status user \<noteq> AccountStatusActive then fail IdInvalidCredentials
     else
     seq (TouchFederatedIdentity ProviderGoogle (fi_Subject link) email now) (\<lambda>_.
     startGoogleSession svc (user_account user) clientName now ''auth.google_signin_succeeded''))"

definition googleNewAccount ::
  "id_service \<Rightarrow> string \<Rightarrow> string \<Rightarrow> string \<Rightarrow> string \<Rightarrow> instant \<Rightarrow> credentials id_op" where
  "googleNewAccount svc subject email normalizedEmail clientName now =
     seq (id_issueIdentifier ''usr_'') (\<lambda>userID.
     let account = \<lparr> ac_ID = userID, ac_Email = email, ac_Status = AccountStatusActive,
       ac_EmailVerifiedAt = Some now, ac_EmailBouncedAt = None, ac_CreatedAt = now \<rparr> in
     seq (CreateUser (account.extend account \<lparr> u_NormalizedEmail = normalizedEmail, u_PasswordHash = None \<rparr>)) (\<lambda>_.
     seq (CreateFederatedIdentity \<lparr> fi_Provider = ProviderGoogle, fi_Subject = subject, fi_UserID = userID,
            fi_Email = email, fi_CreatedAt = now, fi_LastAuthenticatedAt = now \<rparr>) (\<lambda>_.
     startGoogleSession svc account clientName now ''auth.google_account_created'')))"

text \<open>What follows the switch of \<open>googleLinkExisting\<close>, on the account as the switch left it.\<close>

definition google_link ::
  "id_service \<Rightarrow> account \<Rightarrow> string \<Rightarrow> string \<Rightarrow> string \<Rightarrow> instant \<Rightarrow> google_outcome id_op" where
  "google_link svc account subject email clientName now =
     seq (attempt (FederatedIdentityByUserForUpdate ProviderGoogle (ac_ID account))) (\<lambda>found.
     case found of
       Inr _ \<Rightarrow> googleRefusal ''auth.google_identity_conflict'' (ac_ID account) now IdIdentityAlreadyLinked
     | Inl e \<Rightarrow>
         if e \<noteq> IdNotFound then fail e
         else
         seq (CreateFederatedIdentity \<lparr> fi_Provider = ProviderGoogle, fi_Subject = subject, fi_UserID = ac_ID account,
                fi_Email = email, fi_CreatedAt = now, fi_LastAuthenticatedAt = now \<rparr>) (\<lambda>_.
         seq (startGoogleSession svc account clientName now ''auth.google_identity_linked'') (\<lambda>credentials.
         ret (Google_SignedIn credentials))))"

definition googleLinkExisting ::
  "id_service \<Rightarrow> user \<Rightarrow> string \<Rightarrow> string \<Rightarrow> string \<Rightarrow> instant \<Rightarrow> google_outcome id_op" where
  "googleLinkExisting svc user subject email clientName now =
     (let account = user_account user in
     if ac_Status user = AccountStatusPending then
       seq (ActivateFederatedUser (ac_ID user) now) (\<lambda>_.
       seq (DeleteEmailVerification (ac_ID user)) (\<lambda>_.
       google_link svc (account\<lparr>ac_Status := AccountStatusActive, ac_EmailVerifiedAt := Some now\<rparr>) subject email clientName now))
     else if ac_Status user \<noteq> AccountStatusActive then fail IdInvalidCredentials
     else if ac_EmailVerifiedAt user = None then
       googleRefusal ''auth.google_link_required'' (ac_ID user) now IdAccountLinkRequired
     else google_link svc account subject email clientName now)"

definition google_transaction ::
  "id_service \<Rightarrow> string \<Rightarrow> string \<Rightarrow> string \<Rightarrow> string \<Rightarrow> instant \<Rightarrow> google_outcome id_op" where
  "google_transaction svc subject email normalizedEmail clientName now =
     seq (attempt (FederatedIdentityForUpdate ProviderGoogle subject)) (\<lambda>link.
     case link of
       Inr link \<Rightarrow> seq (googleReturningUser svc link email clientName now) (\<lambda>c. ret (Google_SignedIn c))
     | Inl e \<Rightarrow>
         if e \<noteq> IdNotFound then fail e
         else
         seq (attempt (UserByNormalizedEmailForUpdate normalizedEmail)) (\<lambda>user.
         case user of
           Inr user \<Rightarrow> googleLinkExisting svc user subject email clientName now
         | Inl e \<Rightarrow>
             if e \<noteq> IdNotFound then fail e
             else seq (googleNewAccount svc subject email normalizedEmail clientName now) (\<lambda>c. ret (Google_SignedIn c))))"

definition googleSignIn ::
  "id_service \<Rightarrow> instant \<Rightarrow> string \<Rightarrow> string \<Rightarrow> string \<Rightarrow> string \<Rightarrow> google_outcome id_op" where
  "googleSignIn svc now subject email normalizedEmail clientName =
     IdWithinTransaction (google_transaction svc subject email normalizedEmail clientName now)"

definition googleConflictRetries :: nat where "googleConflictRetries = 1"

text \<open>\<open>for attempt := 0; ; attempt++\<close>: \<open>None\<close> would be a loop that never returns.\<close>

partial_function (option) google_loop ::
  "(nat \<Rightarrow> google_outcome id_op) \<Rightarrow> nat \<Rightarrow> id_world \<Rightarrow> ((id_error + credentials) \<times> id_world) option" where
  "google_loop signIn tries w =
     (case signIn tries w of (r, w') \<Rightarrow>
       (case r of
          Inl e \<Rightarrow> if e = IdConflict \<and> tries < googleConflictRetries then google_loop signIn (tries + 1) w'
                   else Some (Inl e, w')
        | Inr (Google_Refused e) \<Rightarrow> Some (Inl e, w')
        | Inr (Google_SignedIn credentials) \<Rightarrow> Some (Inr credentials, w')))"

definition AuthenticateWithGoogle ::
  "id_service \<Rightarrow> (nat \<Rightarrow> instant) \<Rightarrow> google_auth_input \<Rightarrow> id_world \<Rightarrow> ((id_error + credentials) \<times> id_world) option" where
  "AuthenticateWithGoogle svc clock input w =
     (case id_google_verifier svc of None \<Rightarrow> Some (Inl IdGoogleUnavailable, w) | Some verify \<Rightarrow>
      case normalizeClientName (gi_ClientName input) of None \<Rightarrow> Some (Inl IdInvalidInput, w) | Some clientName \<Rightarrow>
      case verify (gi_IDToken input) of Inl e \<Rightarrow> Some (Inl IdInvalidGoogleToken, w) | Inr asserted \<Rightarrow>
      if \<not> g_EmailVerified asserted then Some (Inl IdInvalidGoogleToken, w)
      else case normalizeEmail svc (g_Email asserted) of None \<Rightarrow> Some (Inl IdInvalidGoogleToken, w)
      | Some (email, normalizedEmail) \<Rightarrow>
          google_loop (\<lambda>tries. googleSignIn svc (clock tries) (g_Subject asserted) email normalizedEmail clientName) 0 w)"

text \<open>The two rounds written out.\<close>

definition google_answer :: "(id_error + google_outcome) \<times> id_world \<Rightarrow> (id_error + credentials) \<times> id_world" where
  "google_answer r = (case r of
     (Inl e, w) \<Rightarrow> (Inl e, w) | (Inr (Google_Refused e), w) \<Rightarrow> (Inl e, w) | (Inr (Google_SignedIn c), w) \<Rightarrow> (Inr c, w))"

lemma google_loop_rounds:
  "google_loop signIn 0 w = Some (google_answer
     (case signIn 0 w of (r, w1) \<Rightarrow> if r = Inl IdConflict then signIn 1 w1 else (r, w1)))"
  by (subst google_loop.simps)
    (auto simp: googleConflictRetries_def google_loop.simps[of signIn "Suc 0"] google_answer_def
      split: prod.splits sum.splits google_outcome.splits)

end
