(* ===== verification/Id_Evolution.thy ===== *)
theory Id_Evolution
  imports Id_Google
begin

text \<open>
  How the identity database may change: the evolution of each table, the invariant every operation keeps,
  and the statements of the store as steps.  As for the connectors, a property that holds along a run
  follows from these two alone.
\<close>

section \<open>Rows\<close>

text \<open>
  An account keeps its address; it leaves the pending state once and never returns to it, and its
  password is only ever dropped.
\<close>

definition user_le :: "user \<Rightarrow> user \<Rightarrow> bool" where
  "user_le a b \<longleftrightarrow> ac_ID b = ac_ID a \<and> ac_Email b = ac_Email a \<and> ac_CreatedAt b = ac_CreatedAt a \<and>
     u_NormalizedEmail b = u_NormalizedEmail a \<and>
     (ac_Status a \<noteq> AccountStatusPending \<longrightarrow> ac_Status b \<noteq> AccountStatusPending) \<and>
     (u_PasswordHash b = u_PasswordHash a \<or> u_PasswordHash b = None)"

text \<open>A revoked session never changes again; no session outlives the end it was created with.\<close>

definition session_le :: "session \<Rightarrow> session \<Rightarrow> bool" where
  "session_le a b \<longleftrightarrow> s_ID b = s_ID a \<and> s_UserID b = s_UserID a \<and> s_RefreshExpiresAt b = s_RefreshExpiresAt a \<and>
     s_CreatedAt b = s_CreatedAt a \<and> s_ClientName b = s_ClientName a \<and> (s_RevokedAt a \<noteq> None \<longrightarrow> b = a)"

text \<open>A refresh token is used at most once, and nothing else of it changes.\<close>

definition refresh_le :: "refresh_credential \<Rightarrow> refresh_credential \<Rightarrow> bool" where
  "refresh_le a b \<longleftrightarrow> r_TokenHash b = r_TokenHash a \<and> r_SessionID b = r_SessionID a \<and> r_ExpiresAt b = r_ExpiresAt a \<and>
     r_CreatedAt b = r_CreatedAt a \<and> (r_UsedAt a \<noteq> None \<longrightarrow> b = a)"

definition federated_le :: "federated_identity \<Rightarrow> federated_identity \<Rightarrow> bool" where
  "federated_le a b \<longleftrightarrow> fi_Provider b = fi_Provider a \<and> fi_Subject b = fi_Subject a \<and> fi_UserID b = fi_UserID a \<and>
     fi_CreatedAt b = fi_CreatedAt a"

lemmas id_order_defs = user_le_def session_le_def refresh_le_def federated_le_def

lemma id_order_refl [simp]: "user_le u u" "session_le s s" "refresh_le r r" "federated_le f f"
  by (simp_all add: id_order_defs)

lemma id_order_trans:
  "user_le a b \<Longrightarrow> user_le b c \<Longrightarrow> user_le a c" "session_le s t \<Longrightarrow> session_le t u \<Longrightarrow> session_le s u"
  "refresh_le r q \<Longrightarrow> refresh_le q p \<Longrightarrow> refresh_le r p" "federated_le f g \<Longrightarrow> federated_le g h \<Longrightarrow> federated_le f h"
  unfolding id_order_defs by metis+

section \<open>The invariant\<close>

definition activated :: "id_db \<Rightarrow> string \<Rightarrow> bool" where
  "activated db i \<longleftrightarrow> (\<exists>u \<in> set (users db). ac_ID u = i \<and> ac_Status u \<noteq> AccountStatusPending)"

text \<open>The longest a mailed code can live: a sign-in within the resend interval prolongs its ticket once more.\<close>

definition code_lifetime :: duration where
  "code_lifetime = verificationCodeLifetime + minimumResendInterval"

definition verification_bounded :: "email_verification \<Rightarrow> bool" where
  "verification_bounded e \<longleftrightarrow> 0 \<le> e_Attempts e \<and> e_Attempts e \<le> maxVerificationAttempts \<and>
     e_ExpiresAt e < e_CreatedAt e + code_lifetime"

definition refresh_grounded :: "id_db \<Rightarrow> refresh_credential \<Rightarrow> bool" where
  "refresh_grounded db r \<longleftrightarrow> (\<exists>s \<in> set (sessions db). s_ID s = r_SessionID r \<and> s_RefreshExpiresAt s = r_ExpiresAt r)"

text \<open>Two unused refresh tokens of one session are the same.\<close>

definition one_unused :: "refresh_credential list \<Rightarrow> bool" where
  "one_unused rows \<longleftrightarrow> (\<forall>r \<in> set rows. \<forall>q \<in> set rows.
     r_SessionID r = r_SessionID q \<longrightarrow> r_UsedAt r = None \<longrightarrow> r_UsedAt q = None \<longrightarrow> r = q)"

definition id_inv :: "id_db \<Rightarrow> bool" where
  "id_inv db \<longleftrightarrow> id_schema_ok db \<and>
     (\<forall>s \<in> set (sessions db). activated db (s_UserID s)) \<and>
     (\<forall>r \<in> set (refresh_credentials db). refresh_grounded db r) \<and>
     one_unused (refresh_credentials db) \<and>
     (\<forall>e \<in> set (email_verifications db). verification_bounded e)"

definition id_evolves :: "id_db \<Rightarrow> id_db \<Rightarrow> bool" where
  "id_evolves db db' \<longleftrightarrow>
     evolves user_le (\<lambda>_. True) (users db) (users db') \<and>
     evolves session_le (\<lambda>s. s_RevokedAt s = None) (sessions db) (sessions db') \<and>
     evolves refresh_le (\<lambda>r. r_UsedAt r = None) (refresh_credentials db) (refresh_credentials db') \<and>
     evolves federated_le (\<lambda>_. True) (federated_identities db) (federated_identities db') \<and>
     (\<exists>events. id_audit_events db' = id_audit_events db @ events)"

definition id_good :: "id_db \<Rightarrow> id_db \<Rightarrow> bool" where
  "id_good db db' \<longleftrightarrow> id_evolves db db' \<and> id_inv db'"

lemma id_evolves_refl: "id_evolves db db"
  by (simp add: id_evolves_def evolves_refl)

lemma id_good_refl: "id_inv db \<Longrightarrow> id_good db db"
  by (simp add: id_good_def id_evolves_refl)

lemma id_evolves_trans:
  assumes "id_evolves a b" and "id_evolves b c" shows "id_evolves a c"
proof -
  have "evolves user_le (\<lambda>_. True) (users a) (users c)"
    "evolves session_le (\<lambda>s. s_RevokedAt s = None) (sessions a) (sessions c)"
    "evolves refresh_le (\<lambda>r. r_UsedAt r = None) (refresh_credentials a) (refresh_credentials c)"
    "evolves federated_le (\<lambda>_. True) (federated_identities a) (federated_identities c)"
    using assms unfolding id_evolves_def by (blast intro: evolves_trans id_order_trans)+
  then show ?thesis using assms unfolding id_evolves_def by auto
qed

lemma id_good_trans: "id_good a b \<Longrightarrow> id_good b c \<Longrightarrow> id_good a c"
  by (auto simp: id_good_def intro: id_evolves_trans)

lemma id_good_inv: "id_good a b \<Longrightarrow> id_inv b"
  by (simp add: id_good_def)

lemma id_invD:
  assumes "id_inv db"
  shows "rows_ok user_clash user_valid (users db)"
    "rows_ok federated_clash federated_valid (federated_identities db)"
    "rows_ok session_clash session_valid (sessions db)"
    "rows_ok refresh_clash refresh_valid (refresh_credentials db)"
    "rows_ok verification_clash verification_valid (email_verifications db)"
  using assms by (simp_all add: id_inv_def id_schema_ok_def)

lemma activated_user_row: "activated db i \<Longrightarrow> user_row db i"
  by (auto simp: activated_def user_row_def)

lemma evolved_users:
  assumes "evolves user_le N (users db) (users db')"
  shows "user_row db i \<Longrightarrow> user_row db' i" and "activated db i \<Longrightarrow> activated db' i"
  using evolves_old[OF assms] unfolding user_row_def activated_def user_le_def by metis+

lemma id_good_activated: "id_good db db' \<Longrightarrow> activated db i \<Longrightarrow> activated db' i"
  by (auto simp: id_good_def id_evolves_def intro: evolved_users)

section \<open>Writing a table\<close>

lemma id_good_users:
  assumes inv: "id_inv db" and ok: "rows_ok user_clash user_valid rows"
    and ev: "evolves user_le (\<lambda>_. True) (users db) rows"
  shows "id_good db (db\<lparr>users := rows\<rparr>)"
proof -
  have "user_row (db\<lparr>users := rows\<rparr>) i" if "user_row db i" for i
    using evolved_users(1)[of _ db "db\<lparr>users := rows\<rparr>"] ev that by simp
  moreover have "activated (db\<lparr>users := rows\<rparr>) i" if "activated db i" for i
    using evolved_users(2)[of _ db "db\<lparr>users := rows\<rparr>"] ev that by simp
  ultimately show ?thesis
    using inv ok ev by (simp add: id_good_def id_inv_def id_schema_ok_def id_evolves_def evolves_refl
      session_row_def refresh_grounded_def)
qed

lemma id_good_federated:
  assumes "id_inv db" and "rows_ok federated_clash federated_valid rows"
    and "evolves federated_le (\<lambda>_. True) (federated_identities db) rows"
    and "\<And>f. f \<in> set rows \<Longrightarrow> user_row db (fi_UserID f)"
  shows "id_good db (db\<lparr>federated_identities := rows\<rparr>)"
  using assms by (simp add: id_good_def id_inv_def id_schema_ok_def id_evolves_def evolves_refl
    session_row_def user_row_def activated_def refresh_grounded_def)

lemma id_good_verifications:
  assumes "id_inv db" and "rows_ok verification_clash verification_valid rows"
    and "\<And>e. e \<in> set rows \<Longrightarrow> verification_bounded e \<and> user_row db (e_UserID e)"
  shows "id_good db (db\<lparr>email_verifications := rows\<rparr>)"
  using assms by (simp add: id_good_def id_inv_def id_schema_ok_def id_evolves_def evolves_refl
    session_row_def user_row_def activated_def refresh_grounded_def)

lemma id_good_audit: "id_inv db \<Longrightarrow> id_good db (db\<lparr>id_audit_events := id_audit_events db @ events\<rparr>)"
  by (simp add: id_good_def id_inv_def id_schema_ok_def id_evolves_def evolves_refl
    session_row_def user_row_def activated_def refresh_grounded_def)

lemma id_good_sessions:
  assumes inv: "id_inv db" and ok: "rows_ok session_clash session_valid rows"
    and ev: "evolves session_le (\<lambda>s. s_RevokedAt s = None) (sessions db) rows"
    and owned: "\<And>s. s \<in> set rows \<Longrightarrow> activated db (s_UserID s)"
  shows "id_good db (db\<lparr>sessions := rows\<rparr>)"
proof -
  have "\<exists>s' \<in> set rows. s_ID s' = s_ID s \<and> s_RefreshExpiresAt s' = s_RefreshExpiresAt s" if "s \<in> set (sessions db)" for s
    using evolves_old[OF ev that] by (auto simp: session_le_def)
  then have "session_row (db\<lparr>sessions := rows\<rparr>) i" if "session_row db i" for i
    using that unfolding session_row_def by simp metis
  moreover have "refresh_grounded (db\<lparr>sessions := rows\<rparr>) r" if "refresh_grounded db r" for r
    using that \<open>\<And>s. s \<in> set (sessions db) \<Longrightarrow> _\<close> unfolding refresh_grounded_def by simp metis
  moreover have "activated (db\<lparr>sessions := rows\<rparr>) = activated db" "user_row (db\<lparr>sessions := rows\<rparr>) = user_row db"
    by (simp_all add: activated_def user_row_def fun_eq_iff)
  ultimately show ?thesis
    using inv ok ev owned activated_user_row[OF owned]
    by (simp add: id_good_def id_inv_def id_schema_ok_def id_evolves_def evolves_refl)
qed

lemma id_good_refresh:
  assumes inv: "id_inv db" and ok: "rows_ok refresh_clash refresh_valid rows"
    and ev: "evolves refresh_le (\<lambda>r. r_UsedAt r = None) (refresh_credentials db) rows"
    and grounded: "\<And>r. r \<in> set rows \<Longrightarrow> refresh_grounded db r" and unused: "one_unused rows"
  shows "id_good db (db\<lparr>refresh_credentials := rows\<rparr>)"
proof -
  have "session_row db (r_SessionID r)" if "r \<in> set rows" for r
    using grounded[OF that] by (auto simp: refresh_grounded_def session_row_def)
  then show ?thesis
    using assms by (simp add: id_good_def id_inv_def id_schema_ok_def id_evolves_def evolves_refl
      session_row_def user_row_def activated_def refresh_grounded_def)
qed

section \<open>Updates in place\<close>

lemma refused_unless:
  "(let m = M in if A then Inl e else if B m then Inl d else Inr m) = Inr x \<longleftrightarrow> x = M \<and> \<not> A \<and> \<not> B x"
  by (auto simp: Let_def)

lemma update_rows_Inr:
  "update_rows key clash valid p f rows = Inr rows' \<longleftrightarrow>
     rows' = map (\<lambda>r. if p r then f r else r) rows \<and> (\<forall>r \<in> set rows. p r \<longrightarrow> valid (f r)) \<and>
     (\<forall>r \<in> set rows'. \<forall>q \<in> set rows'. key r \<noteq> key q \<longrightarrow> \<not> clash r q)"
  unfolding update_rows_def refused_unless by blast

lemma update_rowsD:
  "update_rows key clash valid p f rows = Inr rows' \<Longrightarrow> rows' = map (\<lambda>r. if p r then f r else r) rows"
  unfolding update_rows_Inr by blast

lemma one_row_Inr:
  "one_row p f rows = Inr rows' \<longleftrightarrow> f rows = Inr rows' \<and> length (filter p rows) = 1"
  by (auto simp: one_row_def split: sum.splits)

context table
begin

lemma sorted_wrt_keys:
  "sorted_wrt (\<lambda>r q. key r \<noteq> key q) rows \<Longrightarrow> \<forall>r \<in> set rows. \<forall>q \<in> set rows. key r \<noteq> key q \<longrightarrow> \<not> clash r q \<Longrightarrow>
   sorted_wrt (\<lambda>r q. \<not> clash r q) rows"
  by (induction rows) auto

lemma wf_update:
  assumes ok: "wf_rows rows" and up: "update_rows key clash valid p f rows = Inr rows'" and same: "\<And>r. key (f r) = key r"
  shows "wf_rows rows'"
proof -
  let ?g = "\<lambda>r. if p r then f r else r"
  have rows': "rows' = map ?g rows" and valid: "\<And>r. r \<in> set rows \<Longrightarrow> p r \<Longrightarrow> valid (f r)"
    and apart: "\<forall>r \<in> set rows'. \<forall>q \<in> set rows'. key r \<noteq> key q \<longrightarrow> \<not> clash r q"
    using up unfolding update_rows_Inr by blast+
  have key: "key (?g r) = key r" for r by (simp add: same)
  have "sorted_wrt (\<lambda>r q. \<not> clash r q) rows" using ok by (simp add: rows_ok_def)
  then have "sorted_wrt (\<lambda>r q. key (?g r) \<noteq> key (?g q)) rows"
    by (rule sorted_wrt_mono_rel[rotated]) (use clash_key in \<open>auto simp: same\<close>)
  then have "sorted_wrt (\<lambda>r q. key r \<noteq> key q) rows'"
    by (simp add: rows' sorted_wrt_map)
  then have "sorted_wrt (\<lambda>r q. \<not> clash r q) rows'"
    using apart by (rule sorted_wrt_keys)
  moreover have "valid r" if "r \<in> set rows'" for r
    using that valid wf_valid[OF ok] by (auto simp: rows')
  ultimately show ?thesis by (simp add: rows_ok_def)
qed

lemma evolves_update:
  assumes "update_rows key clash valid p f rows = Inr rows'" and "\<And>r. r \<in> set rows \<Longrightarrow> p r \<Longrightarrow> R r (f r)" and "\<And>r. R r r"
  shows "evolves R N rows rows'"
  using assms by (auto simp: update_rows_Inr intro!: evolves_map)

end

end
