(* ===== verification/Id_Steps.thy ===== *)
theory Id_Steps
  imports Id_Evolution
begin

text \<open>
  Every operation of the identity service that succeeds is a step of \<open>Id_Evolution\<close>.  The statements of
  the store come first, then the transactions composed of them.
\<close>

section \<open>Statements\<close>

lemma CreateUser_good:
  assumes "CreateUser v w = (Inr x, w')" and inv: "id_inv (iw_db w)"
  shows "id_good (iw_db w) (iw_db w')" and "ac_Status v \<noteq> AccountStatusPending \<Longrightarrow> activated (iw_db w') (ac_ID v)"
  using assms(1)
  by (auto simp: CreateUser_def runs activated_def create_row_Inr
    intro!: id_good_users[OF inv] user_table.wf_create[OF id_invD(1)[OF inv]] user_table.evolves_create)

lemma SetEmailBounced_good:
  assumes "SetEmailBounced i at w = (Inr x, w')" and inv: "id_inv (iw_db w)"
  shows "id_good (iw_db w) (iw_db w')"
  using assms(1)
  by (auto simp: SetEmailBounced_def runs user_le_def
    intro!: id_good_users[OF inv] elim!: user_table.wf_update[OF id_invD(1)[OF inv]] user_table.evolves_update)

lemma activation_good:
  assumes act: "one_row (\<lambda>u. ac_ID u = i \<and> ac_Status u = AccountStatusPending)
      (update_rows ac_ID user_clash user_valid (\<lambda>u. ac_ID u = i \<and> ac_Status u = AccountStatusPending) f) (users db) = Inr rows"
    and f: "\<And>u. user_le u (f u)" "\<And>u. ac_Status (f u) = AccountStatusActive" and inv: "id_inv db"
  shows "id_good db (db\<lparr>users := rows\<rparr>)" and "activated (db\<lparr>users := rows\<rparr>) i"
proof -
  let ?p = "\<lambda>u. ac_ID u = i \<and> ac_Status u = AccountStatusPending"
  have up: "update_rows ac_ID user_clash user_valid ?p f (users db) = Inr rows"
    and one: "length (filter ?p (users db)) = 1"
    using act by (simp_all add: one_row_Inr)
  show "id_good db (db\<lparr>users := rows\<rparr>)"
    using f(1) by (intro id_good_users[OF inv] user_table.wf_update[OF id_invD(1)[OF inv] up]
      user_table.evolves_update[OF up]) (auto simp: user_le_def)
  have "filter ?p (users db) \<noteq> []" using one by auto
  then obtain u where "u \<in> set (users db)" "?p u" by (auto simp: filter_empty_conv)
  moreover have "ac_ID (f u) = ac_ID u" for u using f(1)[of u] by (simp add: user_le_def)
  moreover have rows: "rows = map (\<lambda>r. if ?p r then f r else r) (users db)"
    using up unfolding update_rows_Inr by blast
  ultimately have "f u \<in> set rows" "ac_ID (f u) = i" "ac_Status (f u) \<noteq> AccountStatusPending"
    using f(2)[of u] by (auto simp: rows)
  then show "activated (db\<lparr>users := rows\<rparr>) i"
    unfolding activated_def by auto
qed

lemma ActivateUser_good:
  assumes "ActivateUser i at w = (Inr x, w')" and inv: "id_inv (iw_db w)"
  shows "id_good (iw_db w) (iw_db w')" and "activated (iw_db w') i"
  using assms(1) by (auto simp: ActivateUser_def Let_def runs user_le_def elim!: activation_good[OF _ _ _ inv])

lemma ActivateFederatedUser_good:
  assumes "ActivateFederatedUser i at w = (Inr x, w')" and inv: "id_inv (iw_db w)"
  shows "id_good (iw_db w) (iw_db w')" and "activated (iw_db w') i"
  using assms(1) by (auto simp: ActivateFederatedUser_def Let_def runs user_le_def elim!: activation_good[OF _ _ _ inv])

lemma CreateFederatedIdentity_good:
  assumes "CreateFederatedIdentity v w = (Inr x, w')" and inv: "id_inv (iw_db w)"
  shows "id_good (iw_db w) (iw_db w')"
proof -
  obtain rows where c: "create_row federated_clash federated_valid (\<lambda>f. user_row (iw_db w) (fi_UserID f)) v
      (federated_identities (iw_db w)) = Inr rows"
    and w': "w' = w\<lparr>iw_db := (iw_db w)\<lparr>federated_identities := rows\<rparr>\<rparr>"
    using assms(1) by (auto simp: CreateFederatedIdentity_def runs)
  have "user_row (iw_db w) (fi_UserID f)" if "f \<in> set rows" for f
    using that c inv by (auto simp: create_row_Inr id_inv_def id_schema_ok_def)
  then show ?thesis
    unfolding w' using c by (auto intro!: id_good_federated[OF inv] federated_table.wf_create[OF id_invD(2)[OF inv] c]
      federated_table.evolves_create[OF c])
qed

lemma TouchFederatedIdentity_good:
  assumes "TouchFederatedIdentity p s e at w = (Inr x, w')" and inv: "id_inv (iw_db w)"
  shows "id_good (iw_db w) (iw_db w')"
proof -
  let ?p = "\<lambda>f. fi_Provider f = p \<and> fi_Subject f = s" and ?f = "\<lambda>f. f\<lparr>fi_Email := e, fi_LastAuthenticatedAt := at\<rparr>"
  obtain rows where up: "update_rows federated_key federated_clash federated_valid ?p ?f (federated_identities (iw_db w)) = Inr rows"
    and w': "w' = w\<lparr>iw_db := (iw_db w)\<lparr>federated_identities := rows\<rparr>\<rparr>"
    using assms(1) by (auto simp: TouchFederatedIdentity_def Let_def runs one_row_Inr)
  have "user_row (iw_db w) (fi_UserID f)" if "f \<in> set rows" for f
    using that up inv by (auto simp: update_rows_Inr id_inv_def id_schema_ok_def split: if_splits)
  then show ?thesis
    unfolding w' by (auto simp: federated_key_def federated_le_def intro!: id_good_federated[OF inv]
      federated_table.wf_update[OF id_invD(2)[OF inv] up] federated_table.evolves_update[OF up])
qed

lemma verification_row:
  assumes "id_inv db" and "e \<in> set (email_verifications db)"
  shows "verification_bounded e \<and> user_row db (e_UserID e)"
  using assms by (auto simp: id_inv_def id_schema_ok_def)

lemma CreateEmailVerification_good:
  assumes "CreateEmailVerification v w = (Inr x, w')" and inv: "id_inv (iw_db w)" and "verification_bounded v"
  shows "id_good (iw_db w) (iw_db w')"
proof -
  obtain rows where c: "create_row verification_clash verification_valid (\<lambda>e. user_row (iw_db w) (e_UserID e)) v
      (email_verifications (iw_db w)) = Inr rows"
    and w': "w' = w\<lparr>iw_db := (iw_db w)\<lparr>email_verifications := rows\<rparr>\<rparr>"
    using assms(1) by (auto simp: CreateEmailVerification_def runs)
  have "verification_bounded e \<and> user_row (iw_db w) (e_UserID e)" if "e \<in> set rows" for e
    using that c verification_row[OF inv, of e] assms(3) by (auto simp: create_row_Inr)
  then show ?thesis
    unfolding w' using c by (auto intro!: id_good_verifications[OF inv] verification_table.wf_create[OF id_invD(5)[OF inv] c])
qed

lemma ReplaceEmailVerification_good:
  assumes "ReplaceEmailVerification v w = (Inr x, w')" and inv: "id_inv (iw_db w)" and "verification_bounded v"
  shows "id_good (iw_db w) (iw_db w')"
proof -
  obtain rows where c: "save_row e_UserID verification_clash verification_valid (\<lambda>e. user_row (iw_db w) (e_UserID e)) v
      (email_verifications (iw_db w)) = Inr rows"
    and w': "w' = w\<lparr>iw_db := (iw_db w)\<lparr>email_verifications := rows\<rparr>\<rparr>"
    using assms(1) by (auto simp: ReplaceEmailVerification_def runs)
  have "verification_bounded e \<and> user_row (iw_db w) (e_UserID e)" if "e \<in> set rows" for e
    using that c verification_row[OF inv, of e] assms(3) by (auto simp: save_row_Inr dest!: set_replace_row_cases)
  then show ?thesis
    unfolding w' using c by (auto intro!: id_good_verifications[OF inv] verification_table.wf_save[OF id_invD(5)[OF inv] c])
qed

lemma IncrementEmailVerificationAttempts_good:
  assumes "IncrementEmailVerificationAttempts i w = (Inr x, w')" and inv: "id_inv (iw_db w)"
    and left: "\<And>e. e \<in> set (email_verifications (iw_db w)) \<Longrightarrow> e_UserID e = i \<Longrightarrow> e_Attempts e < maxVerificationAttempts"
  shows "id_good (iw_db w) (iw_db w')"
proof -
  let ?f = "\<lambda>e. e\<lparr>e_Attempts := e_Attempts e + 1\<rparr>"
  obtain rows where up: "update_rows e_UserID verification_clash verification_valid (\<lambda>e. e_UserID e = i) ?f
      (email_verifications (iw_db w)) = Inr rows"
    and w': "w' = w\<lparr>iw_db := (iw_db w)\<lparr>email_verifications := rows\<rparr>\<rparr>"
    using assms(1) by (auto simp: IncrementEmailVerificationAttempts_def runs one_row_Inr)
  have "verification_bounded e \<and> user_row (iw_db w) (e_UserID e)" if "e \<in> set rows" for e
    using that up verification_row[OF inv] left
    by (fastforce simp: update_rows_Inr verification_bounded_def split: if_splits)
  then show ?thesis
    unfolding w' by (auto intro!: id_good_verifications[OF inv] verification_table.wf_update[OF id_invD(5)[OF inv] up])
qed

lemma DeleteEmailVerification_good:
  assumes "DeleteEmailVerification i w = (Inr x, w')" and inv: "id_inv (iw_db w)"
  shows "id_good (iw_db w) (iw_db w')"
proof -
  have w': "w' = w\<lparr>iw_db := (iw_db w)\<lparr>email_verifications := filter (\<lambda>e. e_UserID e \<noteq> i) (email_verifications (iw_db w))\<rparr>\<rparr>"
    using assms(1) by (auto simp: DeleteEmailVerification_def runs)
  have "rows_ok verification_clash verification_valid (filter (\<lambda>e. e_UserID e \<noteq> i) (email_verifications (iw_db w)))"
    using id_invD(5)[OF inv] by (auto simp: rows_ok_def sorted_wrt_filter)
  then show ?thesis
    unfolding w' using verification_row[OF inv] by (auto intro!: id_good_verifications[OF inv])
qed

lemma IdAppendAuditEvent_good:
  "IdAppendAuditEvent v w = (Inr x, w') \<Longrightarrow> id_inv (iw_db w) \<Longrightarrow> id_good (iw_db w) (iw_db w')"
  by (auto simp: IdAppendAuditEvent_def runs split: if_splits intro!: id_good_audit)

lemma CreateSession_good:
  assumes "CreateSession v w = (Inr x, w')" and inv: "id_inv (iw_db w)"
    and "activated (iw_db w) (s_UserID v)" and "s_RevokedAt v = None"
  shows "id_good (iw_db w) (iw_db w')"
proof -
  obtain rows where c: "create_row session_clash session_valid (\<lambda>s. user_row (iw_db w) (s_UserID s)) v
      (sessions (iw_db w)) = Inr rows"
    and w': "w' = w\<lparr>iw_db := (iw_db w)\<lparr>sessions := rows\<rparr>\<rparr>"
    using assms(1) by (auto simp: CreateSession_def runs)
  have "activated (iw_db w) (s_UserID s)" if "s \<in> set rows" for s
    using that c inv assms(3) by (auto simp: create_row_Inr id_inv_def)
  then show ?thesis
    unfolding w' using c assms(4) by (auto intro!: id_good_sessions[OF inv] session_table.wf_create[OF id_invD(3)[OF inv] c]
      session_table.evolves_create[OF c])
qed

lemma session_update_good:
  assumes up: "update_rows s_ID session_clash session_valid (\<lambda>s. s_ID s = i \<and> s_RevokedAt s = None) f (sessions db) = Inr rows"
    and f: "\<And>s. s_RevokedAt s = None \<Longrightarrow> session_le s (f s)" "\<And>s. s_ID (f s) = s_ID s" and inv: "id_inv db"
  shows "id_good db (db\<lparr>sessions := rows\<rparr>)"
proof -
  have "activated db (s_UserID s)" if "s \<in> set rows" for s
    using that up inv f(1) by (fastforce simp: update_rows_Inr id_inv_def session_le_def split: if_splits)
  then show ?thesis
    using f by (auto intro!: id_good_sessions[OF inv] session_table.wf_update[OF id_invD(3)[OF inv] up]
      session_table.evolves_update[OF up])
qed

lemma RevokeSession_good:
  assumes "RevokeSession i at w = (Inr x, w')" and inv: "id_inv (iw_db w)"
  shows "id_good (iw_db w) (iw_db w')"
  using assms(1) by (auto simp: RevokeSession_def runs session_le_def elim!: session_update_good[OF _ _ _ inv])

lemma RotateSessionAccess_good:
  assumes "RotateSessionAccess i h e at w = (Inr x, w')" and inv: "id_inv (iw_db w)"
  shows "id_good (iw_db w) (iw_db w')"
  using assms(1)
  by (auto simp: RotateSessionAccess_def Let_def runs one_row_Inr session_le_def elim!: session_update_good[OF _ _ _ inv])

lemma one_unused_map:
  assumes "one_unused rows" and "\<And>r. r_UsedAt (f r) = None \<Longrightarrow> f r = r"
  shows "one_unused (map f rows)"
  using assms unfolding one_unused_def by (metis (no_types, lifting) imageE list.set_map)

lemma one_unused_append:
  assumes "one_unused rows" and "\<And>r. r \<in> set rows \<Longrightarrow> r_SessionID r = r_SessionID v \<Longrightarrow> r_UsedAt r \<noteq> None"
  shows "one_unused (rows @ [v])"
proof -
  have "r = q" if "r \<in> set rows \<or> r = v" "q \<in> set rows \<or> q = v" "r_SessionID r = r_SessionID q"
    "r_UsedAt r = None" "r_UsedAt q = None" for r q
    using that assms unfolding one_unused_def by metis
  then show ?thesis by (simp add: one_unused_def)
qed

lemma CreateRefreshCredential_good:
  assumes "CreateRefreshCredential v w = (Inr x, w')" and inv: "id_inv (iw_db w)" and "r_UsedAt v = None"
    and "refresh_grounded (iw_db w) v"
    and spent: "\<And>r. r \<in> set (refresh_credentials (iw_db w)) \<Longrightarrow> r_SessionID r = r_SessionID v \<Longrightarrow> r_UsedAt r \<noteq> None"
  shows "id_good (iw_db w) (iw_db w')"
proof -
  obtain rows where c: "create_row refresh_clash refresh_valid (\<lambda>r. session_row (iw_db w) (r_SessionID r)) v
      (refresh_credentials (iw_db w)) = Inr rows"
    and w': "w' = w\<lparr>iw_db := (iw_db w)\<lparr>refresh_credentials := rows\<rparr>\<rparr>"
    using assms(1) by (auto simp: CreateRefreshCredential_def runs)
  have "refresh_grounded (iw_db w) r" if "r \<in> set rows" for r
    using that c inv assms(4) by (auto simp: create_row_Inr id_inv_def)
  moreover have "one_unused rows"
    using c inv spent unfolding create_row_Inr id_inv_def by (auto intro: one_unused_append)
  ultimately show ?thesis
    unfolding w' using c assms(3) by (auto intro!: id_good_refresh[OF inv] refresh_table.wf_create[OF id_invD(4)[OF inv] c]
      refresh_table.evolves_create[OF c])
qed

lemma MarkRefreshCredentialUsed_good:
  assumes "MarkRefreshCredentialUsed h at w = (Inr x, w')" and inv: "id_inv (iw_db w)"
  shows "id_good (iw_db w) (iw_db w')"
proof -
  let ?p = "\<lambda>r. r_TokenHash r = h \<and> r_UsedAt r = None" and ?f = "\<lambda>r. r\<lparr>r_UsedAt := Some at\<rparr>"
  obtain rows where up: "update_rows r_TokenHash refresh_clash refresh_valid ?p ?f (refresh_credentials (iw_db w)) = Inr rows"
    and w': "w' = w\<lparr>iw_db := (iw_db w)\<lparr>refresh_credentials := rows\<rparr>\<rparr>"
    using assms(1) by (auto simp: MarkRefreshCredentialUsed_def Let_def runs one_row_Inr)
  have rows: "rows = map (\<lambda>r. if ?p r then ?f r else r) (refresh_credentials (iw_db w))"
    using up unfolding update_rows_Inr by blast
  have "refresh_grounded (iw_db w) r" if "r \<in> set rows" for r
    using that inv by (auto simp: rows id_inv_def refresh_grounded_def)
  moreover have "one_unused rows"
    unfolding rows using inv by (intro one_unused_map) (auto simp: id_inv_def split: if_splits)
  ultimately show ?thesis
    unfolding w' by (auto simp: refresh_le_def intro!: id_good_refresh[OF inv] refresh_table.wf_update[OF id_invD(4)[OF inv] up]
      refresh_table.evolves_update[OF up])
qed

end
