(* ===== verification/Id_Transactions.thy ===== *)
theory Id_Transactions
  imports Id_Steps
begin

text \<open>
  Every transaction of the identity service that succeeds is a step of \<open>Id_Evolution\<close>: which steps leave
  the database alone, the material a transaction stores, and then each transaction.
\<close>

section \<open>Steps that leave the database alone\<close>

lemma untouched_draws [untoucheds]:
  "untouched iw_db (id_draw n)" "untouched iw_db (hash_password svc p)" "untouched iw_db (verify_password svc p h)"
  "untouched iw_db (send_mail a b)" "untouched iw_db (onSessionRevoked u s i)" "untouched iw_db (id_query f)"
  by (auto simp: untouched_def id_draw_def hash_password_def verify_password_def send_mail_def onSessionRevoked_def
    id_query_def split: prod.splits sum.splits)

lemma untouched_rounds [untoucheds]: "untouched iw_db (code_rounds n)"
  by (induction n) (simp_all add: Let_def untoucheds)

lemma untouched_values [untoucheds]:
  "untouched iw_db (issueRandomValue p n)" "untouched iw_db (id_issueIdentifier p)" "untouched iw_db (id_issueToken p)"
  "untouched iw_db issueVerificationCode" "untouched iw_db (newSessionMaterial svc a c now)"
  "untouched iw_db (newVerificationMaterial svc a c now)"
  by (simp_all add: issueRandomValue_def id_issueIdentifier_def id_issueToken_def issueVerificationCode_def
    newSessionMaterial_def newVerificationMaterial_def Let_def untoucheds)

lemma untouched_finds [untoucheds]:
  "untouched iw_db (UserByNormalizedEmail e)" "untouched iw_db (FederatedIdentityForUpdate p s)"
  "untouched iw_db (FederatedIdentityByUserForUpdate p i)" "untouched iw_db (UserByNormalizedEmailForUpdate e)"
  "untouched iw_db (EmailVerificationForUpdate h)" "untouched iw_db (EmailVerificationByUserIDForUpdate i)"
  "untouched iw_db (RefreshCredentialForUpdate h)" "untouched iw_db (SessionForUpdate i)" "untouched iw_db (UserByID i)"
  "untouched iw_db (AccessPrincipalByAccessTokenHash h t)" "untouched iw_db (ActiveAccountByID i)"
  "untouched iw_db (ActiveSessionByID i j t)"
  by (simp_all add: id_find_defs AccessPrincipalByAccessTokenHash_def ActiveAccountByID_def ActiveSessionByID_def untoucheds)

section \<open>Material\<close>

definition session_material_for :: "string \<Rightarrow> session_material \<Rightarrow> bool" where
  "session_material_for i m \<longleftrightarrow> s_UserID (sm_session m) = i \<and> s_RevokedAt (sm_session m) = None \<and>
     r_SessionID (sm_refresh m) = s_ID (sm_session m) \<and> r_ExpiresAt (sm_refresh m) = s_RefreshExpiresAt (sm_session m) \<and>
     r_UsedAt (sm_refresh m) = None"

lemma newSessionMaterial_for:
  "newSessionMaterial svc account clientName now w = (Inr m, w') \<Longrightarrow>
   session_material_for (ac_ID account) m \<and> cd_Account (sm_credentials m) = account"
  by (auto simp: newSessionMaterial_def runs session_material_for_def Let_def)

lemma newVerificationMaterial_for:
  "newVerificationMaterial svc account clientName now w = (Inr m, w') \<Longrightarrow>
   e_UserID (vm_record m) = ac_ID account \<and> e_CreatedAt (vm_record m) = now \<and> e_Attempts (vm_record m) = 0 \<and>
   e_ExpiresAt (vm_record m) = now + verificationCodeLifetime \<and> verification_bounded (vm_record m)"
  by (auto simp: newVerificationMaterial_def runs Let_def verification_bounded_def id_default_defs code_lifetime_def duration_defs)

lemma persist_good:
  assumes "persistSessionMaterial m w = (Inr x, w')" and inv: "id_inv (iw_db w)"
    and m: "session_material_for i m" and "activated (iw_db w) i"
  shows "id_good (iw_db w) (iw_db w')"
proof -
  obtain w1 where s: "CreateSession (sm_session m) w = (Inr (), w1)"
    and r: "CreateRefreshCredential (sm_refresh m) w1 = (Inr x, w')"
    using assms(1) by (auto simp: persistSessionMaterial_def runs)
  have g1: "id_good (iw_db w) (iw_db w1)"
    using CreateSession_good[OF s inv] m assms(4) by (auto simp: session_material_for_def)
  have w1: "sm_session m \<in> set (sessions (iw_db w1))" "refresh_credentials (iw_db w1) = refresh_credentials (iw_db w)"
    and new: "\<And>q. q \<in> set (sessions (iw_db w)) \<Longrightarrow> s_ID q \<noteq> s_ID (sm_session m)"
    using s by (auto simp: CreateSession_def runs create_row_Inr session_clash_def)
  have "r_SessionID q \<noteq> s_ID (sm_session m)" if "q \<in> set (refresh_credentials (iw_db w))" for q
    using that inv new by (auto simp: id_inv_def refresh_grounded_def)
  then have "id_good (iw_db w1) (iw_db w')"
    using m w1 by (intro CreateRefreshCredential_good[OF r id_good_inv[OF g1]])
      (auto simp: session_material_for_def refresh_grounded_def)
  then show ?thesis using g1 id_good_trans by blast
qed

section \<open>Transactions\<close>

lemma audit_after:
  assumes "id_good db (iw_db w)" and "IdAppendAuditEvent v w = (Inr x, w')"
  shows "id_good db (iw_db w')"
  using assms IdAppendAuditEvent_good id_good_trans id_good_inv by blast

lemma register_good:
  assumes run: "register_transaction now user record w = (Inr x, w')" and inv: "id_inv (iw_db w)"
    and "verification_bounded record"
  shows "id_good (iw_db w) (iw_db w')"
proof -
  obtain w1 w2 where u: "CreateUser user w = (Inr (), w1)" and e: "CreateEmailVerification record w1 = (Inr (), w2)"
    and a: "IdAppendAuditEvent (accountAuditEvent ''auth.registration_succeeded'' (ac_ID user) now) w2 = (Inr x, w')"
    using run by (auto simp: register_transaction_def runs)
  note g1 = CreateUser_good(1)[OF u inv]
  have "id_good (iw_db w) (iw_db w2)"
    using CreateEmailVerification_good[OF e id_good_inv[OF g1] assms(3)] g1 id_good_trans by blast
  then show ?thesis using a by (rule audit_after)
qed

lemma reissue_good:
  assumes run: "reissue_transaction now user record w = (Inr x, w')" and inv: "id_inv (iw_db w)"
    and "verification_bounded record" "e_ExpiresAt record = now + verificationCodeLifetime"
  shows "id_good (iw_db w) (iw_db w')"
proof -
  let ?audit = "IdAppendAuditEvent (accountAuditEvent ''auth.verification_reissued'' (ac_ID user) now)"
  let ?kept = "\<lambda>e. record\<lparr>e_CodeHash := e_CodeHash e, e_CreatedAt := e_CreatedAt e, e_Attempts := e_Attempts e\<rparr>"
  from run consider w2 u where "ReplaceEmailVerification record w = (Inr (), w2)" "?audit w2 = (Inr u, w')"
    | e w2 u where "e \<in> set (email_verifications (iw_db w))" "now - e_CreatedAt e < minimumResendInterval"
        "ReplaceEmailVerification (?kept e) w = (Inr (), w2)" "?audit w2 = (Inr u, w')"
    unfolding reissue_transaction_def runs EmailVerificationByUserIDForUpdate_def by (auto simp: runs dest!: first_rowD)
  then show ?thesis
  proof cases
    case 1
    show ?thesis by (rule audit_after[OF ReplaceEmailVerification_good[OF 1(1) inv assms(3)] 1(2)])
  next
    case (2 e)
    have "verification_bounded (?kept e)"
      using 2(2) verification_row[OF inv 2(1)] assms(4) by (simp add: verification_bounded_def code_lifetime_def)
    from audit_after[OF ReplaceEmailVerification_good[OF 2(3) inv this] 2(4)] show ?thesis .
  qed
qed

lemma start_session_good:
  assumes run: "start_session_transaction ev now i m w = (Inr x, w')" and inv: "id_inv (iw_db w)"
    and "session_material_for j m" "activated (iw_db w) j"
  shows "id_good (iw_db w) (iw_db w')"
  using run persist_good[OF _ inv assms(3,4)] by (auto simp: start_session_transaction_def runs intro: audit_after)

lemma verify_good:
  assumes run: "verify_transaction svc now input w = (Inr x, w')" and inv: "id_inv (iw_db w)"
  shows "id_good (iw_db w) (iw_db w')"
proof -
  let ?u = "\<lambda>user. (user_account user)\<lparr>ac_Status := AccountStatusActive, ac_EmailVerifiedAt := Some now\<rparr>"
  from run consider "w' = w"
    | e where "e \<in> set (email_verifications (iw_db w))" "e_Attempts e < maxVerificationAttempts"
        "IncrementEmailVerificationAttempts (e_UserID e) w = (Inr (), w')"
    | e :: email_verification and user m w1 w2 w3 w4 u where "ac_ID user = e_UserID e"
        "newSessionMaterial svc (?u user) (e_ClientName e) now w = (Inr m, w1)"
        "ActivateUser (e_UserID e) now w1 = (Inr (), w2)" "DeleteEmailVerification (e_UserID e) w2 = (Inr (), w3)"
        "persistSessionMaterial m w3 = (Inr (), w4)"
        "IdAppendAuditEvent (auditEvent ''auth.email_verified'' (ac_ID user) (s_ID (sm_session m)) now) w4 = (Inr u, w')"
    unfolding verify_transaction_def Let_def EmailVerificationForUpdate_def UserByID_def
    by (auto simp: runs dest!: first_rowD)
  then show ?thesis
  proof cases
    case 1 then show ?thesis using inv by (simp add: id_good_refl)
  next
    case (2 e)
    then show ?thesis
      using verification_table.wf_key[OF id_invD(5)[OF inv] 2(1)]
      by (intro IncrementEmailVerificationAttempts_good[OF 2(3) inv]) (metis 2(2))
  next
    case (3 e user m w1 w2 w3 w4 u)
    have w1: "iw_db w1 = iw_db w" by (rule untouchedD[OF untouched_values(5) 3(2)])
    have m: "session_material_for (e_UserID e) m"
      using newSessionMaterial_for[OF 3(2)] 3(1) by (simp add: user_account_def account.defs)
    note g2 = ActivateUser_good[OF 3(3), unfolded w1, OF inv]
    note g3 = DeleteEmailVerification_good[OF 3(4) id_good_inv[OF g2(1)]]
    note g4 = persist_good[OF 3(5) id_good_inv[OF g3] m id_good_activated[OF g3 g2(2)]]
    show ?thesis using audit_after[OF id_good_trans[OF id_good_trans[OF g2(1) g3] g4] 3(6)] .
  qed
qed

lemma resend_good:
  assumes run: "resend_transaction svc now ticket w = (Inr x, w')" and inv: "id_inv (iw_db w)"
  shows "id_good (iw_db w) (iw_db w')"
proof -
  from run consider "w' = w"
    | user c m w1 w2 u where "newVerificationMaterial svc (user_account user) c now w = (Inr m, w1)"
        "ReplaceEmailVerification (vm_record m) w1 = (Inr (), w2)"
        "IdAppendAuditEvent (accountAuditEvent ''auth.verification_resent'' (ac_ID user) now) w2 = (Inr u, w')"
    unfolding resend_transaction_def EmailVerificationForUpdate_def UserByID_def
    by (auto simp: runs dest!: first_rowD)
  then show ?thesis
  proof cases
    case 1 then show ?thesis using inv by (simp add: id_good_refl)
  next
    case (2 user c m w1 w2 u)
    have w1: "iw_db w1 = iw_db w" by (rule untouchedD[OF untouched_values(6) 2(1)])
    have "verification_bounded (vm_record m)" using newVerificationMaterial_for[OF 2(1)] by simp
    from audit_after[OF ReplaceEmailVerification_good[OF 2(2)[unfolded w1] _ this] 2(3)] show ?thesis
      using inv by (simp add: w1)
  qed
qed

text \<open>The three writes that exchange a refresh token.\<close>

lemma exchange_good:
  assumes inv: "id_inv (iw_db w)" and r: "r \<in> set (refresh_credentials (iw_db w))" "r_UsedAt r = None"
    and s: "s \<in> set (sessions (iw_db w))" "s_ID s = r_SessionID r"
    and m: "MarkRefreshCredentialUsed (r_TokenHash r) now w = (Inr (), w1)"
    and t: "RotateSessionAccess (s_ID s) h e now w1 = (Inr (), w2)"
    and c: "CreateRefreshCredential \<lparr> r_TokenHash = h', r_SessionID = s_ID s, r_ExpiresAt = s_RefreshExpiresAt s,
        r_CreatedAt = now, r_UsedAt = None \<rparr> w2 = (Inr (), w3)"
  shows "id_good (iw_db w) (iw_db w3)"
proof -
  note g1 = MarkRefreshCredentialUsed_good[OF m inv]
  note g2 = RotateSessionAccess_good[OF t id_good_inv[OF g1]]
  let ?new = "\<lparr> r_TokenHash = h', r_SessionID = s_ID s, r_ExpiresAt = s_RefreshExpiresAt s, r_CreatedAt = now, r_UsedAt = None \<rparr>"
  have "evolves session_le (\<lambda>s. s_RevokedAt s = None) (sessions (iw_db w)) (sessions (iw_db w2))"
    using id_good_trans[OF g1 g2] by (simp add: id_good_def id_evolves_def)
  from evolves_old[OF this s(1)] have grounded: "refresh_grounded (iw_db w2) ?new"
    by (auto simp: refresh_grounded_def session_le_def)
  let ?p = "\<lambda>q. r_TokenHash q = r_TokenHash r \<and> r_UsedAt q = None"
  have rows: "refresh_credentials (iw_db w2) =
      map (\<lambda>q. if ?p q then q\<lparr>r_UsedAt := Some now\<rparr> else q) (refresh_credentials (iw_db w))"
    using m t by (auto simp: MarkRefreshCredentialUsed_def RotateSessionAccess_def Let_def runs one_row_Inr dest!: update_rowsD)
  have spent: "r_UsedAt q \<noteq> None" if q: "q \<in> set (refresh_credentials (iw_db w2))" "r_SessionID q = s_ID s" for q
  proof -
    obtain p where p: "p \<in> set (refresh_credentials (iw_db w))" "q = (if ?p p then p\<lparr>r_UsedAt := Some now\<rparr> else p)"
      using q(1) unfolding rows set_map by blast
    have "r_SessionID q = r_SessionID p" using p(2) by simp
    then have "r_SessionID p = r_SessionID r" using q(2) s(2) by simp
    moreover have "one_unused (refresh_credentials (iw_db w))" using inv by (simp add: id_inv_def)
    ultimately have "p = r" if "r_UsedAt p = None"
      using p(1) r that unfolding one_unused_def by metis
    then show ?thesis using p(2) by (cases "r_UsedAt p = None") auto
  qed
  have "id_good (iw_db w2) (iw_db w3)"
    using CreateRefreshCredential_good[OF c id_good_inv[OF g2] _ grounded] spent by simp
  then show ?thesis using id_good_trans[OF id_good_trans[OF g1 g2]] by blast
qed

lemma refresh_good:
  assumes run: "refresh_transaction svc now tok a r w = (Inr x, w')" and inv: "id_inv (iw_db w)"
  shows "id_good (iw_db w) (iw_db w')"
proof -
  from run consider "w' = w"
    | i where "RevokeSession i now w = (Inr (), w')"
    | i w1 v u where "RevokeSession i now w = (Inr (), w1)" "IdAppendAuditEvent v w1 = (Inr u, w')"
    | q :: refresh_credential and s :: session and h e h' v w1 w2 w3 u where
        "q \<in> set (refresh_credentials (iw_db w))" "r_UsedAt q = None" "s \<in> set (sessions (iw_db w))" "s_ID s = r_SessionID q"
        "MarkRefreshCredentialUsed (r_TokenHash q) now w = (Inr (), w1)" "RotateSessionAccess (s_ID s) h e now w1 = (Inr (), w2)"
        "CreateRefreshCredential \<lparr> r_TokenHash = h', r_SessionID = s_ID s, r_ExpiresAt = s_RefreshExpiresAt s,
           r_CreatedAt = now, r_UsedAt = None \<rparr> w2 = (Inr (), w3)" "IdAppendAuditEvent v w3 = (Inr u, w')"
    unfolding refresh_transaction_def Let_def RefreshCredentialForUpdate_def SessionForUpdate_def UserByID_def
    by (auto simp: runs dest!: first_rowD)
  then show ?thesis
  proof cases
    case 1 then show ?thesis using inv by (simp add: id_good_refl)
  next
    case 2 then show ?thesis using RevokeSession_good inv by blast
  next
    case 3 then show ?thesis using audit_after[OF RevokeSession_good[OF 3(1) inv]] by blast
  next
    case 4 then show ?thesis using audit_after[OF exchange_good[OF inv 4(1-7)] 4(8)] by blast
  qed
qed

lemma logout_good:
  assumes run: "logout_transaction svc now tok w = (Inr x, w')" and inv: "id_inv (iw_db w)"
  shows "id_good (iw_db w) (iw_db w')"
proof -
  from run consider "w' = w"
    | i w1 v u where "RevokeSession i now w = (Inr (), w1)" "IdAppendAuditEvent v w1 = (Inr u, w')"
    unfolding logout_transaction_def RefreshCredentialForUpdate_def SessionForUpdate_def
    by (auto simp: runs dest!: first_rowD)
  then show ?thesis
  proof cases
    case 1 then show ?thesis using inv by (simp add: id_good_refl)
  next
    case 2 then show ?thesis using RevokeSession_good[OF 2(1) inv] audit_after by blast
  qed
qed

section \<open>Signing in with Google\<close>

lemma start_google_good:
  assumes run: "startGoogleSession svc account c now ev w = (Inr x, w')" and inv: "id_inv (iw_db w)"
    and "activated (iw_db w) (ac_ID account)"
  shows "id_good (iw_db w) (iw_db w')"
proof -
  obtain m w1 w2 v u where m: "newSessionMaterial svc account c now w = (Inr m, w1)"
    and p: "persistSessionMaterial m w1 = (Inr (), w2)" and a: "IdAppendAuditEvent v w2 = (Inr u, w')"
    using run by (auto simp: startGoogleSession_def runs)
  have w1: "iw_db w1 = iw_db w" by (rule untouchedD[OF untouched_values(5) m])
  have "id_good (iw_db w1) (iw_db w2)"
    using inv assms(3) newSessionMaterial_for[OF m] by (intro persist_good[OF p]) (auto simp: w1)
  from audit_after[OF this a] show ?thesis by (simp add: w1)
qed

lemma google_refusal_good:
  "googleRefusal ev i now e w = (Inr x, w') \<Longrightarrow> id_inv (iw_db w) \<Longrightarrow> id_good (iw_db w) (iw_db w')"
  by (auto simp: googleRefusal_def runs intro: IdAppendAuditEvent_good)

lemma google_link_good:
  assumes run: "google_link svc account subject email c now w = (Inr x, w')" and inv: "id_inv (iw_db w)"
    and active: "activated (iw_db w) (ac_ID account)"
  shows "id_good (iw_db w) (iw_db w')"
proof -
  from run consider ev i e where "googleRefusal ev i now e w = (Inr x, w')"
    | f w1 u where "CreateFederatedIdentity f w = (Inr (), w1)"
        "startGoogleSession svc account c now ''auth.google_identity_linked'' w1 = (Inr u, w')"
    unfolding google_link_def FederatedIdentityByUserForUpdate_def by (auto simp: runs)
  then show ?thesis
  proof cases
    case 1 then show ?thesis using google_refusal_good inv by blast
  next
    case (2 f w1 u)
    note g = CreateFederatedIdentity_good[OF 2(1) inv]
    show ?thesis
      using id_good_trans[OF g start_google_good[OF 2(2) id_good_inv[OF g] id_good_activated[OF g active]]] .
  qed
qed

lemma google_link_existing_good:
  assumes run: "googleLinkExisting svc user subject email c now w = (Inr x, w')" and inv: "id_inv (iw_db w)"
    and user: "user \<in> set (users (iw_db w))"
  shows "id_good (iw_db w) (iw_db w')"
proof -
  have id: "ac_ID (user_account user) = ac_ID user" by (simp add: user_account_def account.defs)
  let ?account = "(user_account user)\<lparr>ac_Status := AccountStatusActive, ac_EmailVerifiedAt := Some now\<rparr>"
  from run consider w1 w2 where "ActivateFederatedUser (ac_ID user) now w = (Inr (), w1)"
        "DeleteEmailVerification (ac_ID user) w1 = (Inr (), w2)"
        "google_link svc ?account subject email c now w2 = (Inr x, w')"
    | ev i e where "googleRefusal ev i now e w = (Inr x, w')"
    | "ac_Status user = AccountStatusActive" "google_link svc (user_account user) subject email c now w = (Inr x, w')"
    unfolding googleLinkExisting_def Let_def by (auto simp: runs id)
  then show ?thesis
  proof cases
    case (1 w1 w2)
    note g1 = ActivateFederatedUser_good[OF 1(1) inv]
    note g2 = DeleteEmailVerification_good[OF 1(2) id_good_inv[OF g1(1)]]
    have "activated (iw_db w2) (ac_ID ?account)"
      using id_good_activated[OF g2 g1(2)] by (simp add: id)
    from google_link_good[OF 1(3) id_good_inv[OF g2] this] show ?thesis
      using id_good_trans[OF id_good_trans[OF g1(1) g2]] by blast
  next
    case 2 then show ?thesis using google_refusal_good inv by blast
  next
    case 3
    then show ?thesis using user by (intro google_link_good[OF 3(2) inv]) (auto simp: activated_def id)
  qed
qed

lemma google_returning_good:
  assumes run: "googleReturningUser svc link email c now w = (Inr x, w')" and inv: "id_inv (iw_db w)"
  shows "id_good (iw_db w) (iw_db w')"
proof -
  obtain user w1 where user: "user \<in> set (users (iw_db w))" "ac_Status user = AccountStatusActive"
    and t: "TouchFederatedIdentity ProviderGoogle (fi_Subject link) email now w = (Inr (), w1)"
    and s: "startGoogleSession svc (user_account user) c now ''auth.google_signin_succeeded'' w1 = (Inr x, w')"
    using run by (auto simp: googleReturningUser_def UserByID_def runs dest!: first_rowD)
  note g = TouchFederatedIdentity_good[OF t inv]
  have "activated (iw_db w) (ac_ID (user_account user))"
    using user by (auto simp: activated_def user_account_def account.defs)
  from start_google_good[OF s id_good_inv[OF g] id_good_activated[OF g this]] show ?thesis
    using g id_good_trans by blast
qed

lemma google_new_good:
  assumes run: "googleNewAccount svc subject email n c now w = (Inr x, w')" and inv: "id_inv (iw_db w)"
  shows "id_good (iw_db w) (iw_db w')"
proof -
  let ?a = "\<lambda>i. \<lparr> ac_ID = i, ac_Email = email, ac_Status = AccountStatusActive,
       ac_EmailVerifiedAt = Some now, ac_EmailBouncedAt = None, ac_CreatedAt = now \<rparr>"
  obtain i w1 w2 w3 f where d: "id_issueIdentifier ''usr_'' w = (Inr i, w1)"
    and u: "CreateUser (account.extend (?a i) \<lparr> u_NormalizedEmail = n, u_PasswordHash = None \<rparr>) w1 = (Inr (), w2)"
    and f: "CreateFederatedIdentity f w2 = (Inr (), w3)"
    and s: "startGoogleSession svc (?a i) c now ''auth.google_account_created'' w3 = (Inr x, w')"
    using run by (auto simp: googleNewAccount_def Let_def runs)
  have w1: "iw_db w1 = iw_db w" by (rule untouchedD[OF untouched_values(2) d])
  note g1 = CreateUser_good[OF u, unfolded w1, OF inv]
  note g2 = CreateFederatedIdentity_good[OF f id_good_inv[OF g1(1)]]
  have "activated (iw_db w2) i" using g1(2) by (simp add: account.defs)
  then have "id_good (iw_db w3) (iw_db w')"
    using id_good_activated[OF g2] by (intro start_google_good[OF s id_good_inv[OF g2]]) simp
  then show ?thesis using id_good_trans[OF id_good_trans[OF g1(1) g2]] by blast
qed

lemma google_good:
  assumes run: "google_transaction svc subject email n c now w = (Inr x, w')" and inv: "id_inv (iw_db w)"
  shows "id_good (iw_db w) (iw_db w')"
  using run google_returning_good[OF _ inv] google_new_good[OF _ inv] google_link_existing_good[OF _ inv]
  by (auto simp: google_transaction_def FederatedIdentityForUpdate_def UserByNormalizedEmailForUpdate_def runs
    dest!: first_rowD)

end
