(* ===== verification/Id_Machine.thy ===== *)
theory Id_Machine
  imports Id_Transactions
begin

text \<open>
  The identity service as a state machine.  First every operation, successful or not, is shown to leave a
  good database; then come the requests, the transition each causes at an instant, and the runs.  Between
  requests the clock moves on, fresh random bytes arrive, and an operator may disable an account.
\<close>

section \<open>What an operation leaves\<close>

definition id_leaves :: "id_world \<Rightarrow> 'r \<times> id_world \<Rightarrow> bool" where
  "id_leaves w r \<longleftrightarrow> (id_inv (iw_db w) \<longrightarrow> id_good (iw_db w) (iw_db (snd r)))"

named_theorems id_leave

lemma id_leaves_untouched: "untouched iw_db m \<Longrightarrow> id_leaves w (m w)"
  by (simp add: id_leaves_def untouched_def id_good_refl)

lemma id_leaves_basic [id_leave]: "id_leaves w (ret x w)" "id_leaves w (fail e w)"
  by (simp_all add: id_leaves_untouched untoucheds)

lemma id_leaves_seq:
  assumes "id_leaves w (m w)" and "\<And>x w1. m w = (Inr x, w1) \<Longrightarrow> id_leaves w1 (f x w1)"
  shows "id_leaves w (seq m f w)"
proof (cases "m w")
  case (Pair r w1)
  then show ?thesis
    using assms by (cases r) (auto simp: id_leaves_def seq_def intro: id_good_trans dest: id_good_inv)
qed

lemma id_leaves_after:
  assumes "untouched iw_db m" and "\<And>x w1. m w = (Inr x, w1) \<Longrightarrow> iw_db w1 = iw_db w \<Longrightarrow> id_leaves w1 (f x w1)"
  shows "id_leaves w (seq m f w)"
  using assms(2) untouchedD[OF assms(1)] by (intro id_leaves_seq[OF id_leaves_untouched[OF assms(1)]]) blast

lemma id_leaves_transaction:
  assumes "\<And>x w'. id_inv (iw_db w) \<Longrightarrow> m w = (Inr x, w') \<Longrightarrow> id_good (iw_db w) (iw_db w')"
  shows "id_leaves w (IdWithinTransaction m w)"
  using assms by (auto simp: id_leaves_def IdWithinTransaction_def id_good_refl split: prod.splits sum.splits)

lemma id_leaves_attempt [simp]: "id_leaves w (attempt m w) = id_leaves w (m w)"
  by (auto simp: id_leaves_def attempt_def split: prod.splits)

lemma id_leaves_on_error [simp]: "id_leaves w (on_error f m w) = id_leaves w (m w)"
  by (auto simp: id_leaves_def on_error_def split: prod.splits sum.splits)

lemma id_leaves_store:
  assumes "\<And>x w'. id_inv (iw_db w) \<Longrightarrow> id_store put f w = (Inr x, w') \<Longrightarrow> id_good (iw_db w) (iw_db w')"
  shows "id_leaves w (id_store put f w)"
  using assms by (auto simp: id_leaves_def id_store_def id_good_refl split: sum.splits)

section \<open>Every operation\<close>

lemma SetEmailBounced_leaves [id_leave]: "id_leaves w (SetEmailBounced i at w)"
  unfolding SetEmailBounced_def
  by (rule id_leaves_store) (rule SetEmailBounced_good, simp add: SetEmailBounced_def)

lemma recordDelivery_leaves [id_leave]: "id_leaves w (recordDelivery sent i e w)"
  by (auto simp: recordDelivery_def intro!: id_leaves_seq id_leave split: option.splits)

lemma deliver_leaves [id_leave]:
  "id_leaves w (deliverVerificationCode svc sent i a c w)" "id_leaves w (deliverRegistrationNotice svc sent n a w)"
  by (auto simp: deliverVerificationCode_def deliverRegistrationNotice_def intro!: id_leaves_after untoucheds id_leave)

lemma decoy_leaves [id_leave]: "id_leaves w (decoyRegistration svc now sent a n w)"
  unfolding decoyRegistration_def
  by (intro id_leaves_after[OF untouched_values(3)] id_leaves_after[OF untouched_values(2)] id_leaves_seq
    id_leaves_transaction id_leave) (metis IdAppendAuditEvent_good)

lemma Register_leaves: "id_leaves w (Register svc now sent input w)"
proof -
  have inner: "id_leaves w' (seq (newVerificationMaterial svc a c now) (\<lambda>material.
      seq (attempt (IdWithinTransaction (register_transaction now user (vm_record material)))) (\<lambda>result.
      case result of
        Inl e \<Rightarrow> if e = IdConflict then decoyRegistration svc now sent email n else fail e
      | Inr _ \<Rightarrow> seq (deliverVerificationCode svc sent i email (vm_code material)) (\<lambda>_.
          ret (MustVerify (vm_challenge material))))) w')" for w' a c user email n i
    by (intro id_leaves_after[OF untouched_values(6)] id_leaves_seq)
      (auto intro!: id_leaves_transaction id_leave id_leaves_seq elim: register_good dest: newVerificationMaterial_for
        split: sum.splits)
  then show ?thesis
    by (auto simp: Register_def Let_def intro!: id_leave id_leaves_after[OF untouched_draws(2)]
      id_leaves_after[OF untouched_values(2)] inner split: option.splits)
qed

lemma reissue_leaves: "id_leaves w (reissueVerification svc now sent user c w)"
  unfolding reissueVerification_def
  by (intro id_leaves_after[OF untouched_values(6)] id_leaves_seq)
    (auto intro!: id_leaves_transaction id_leave elim!: reissue_good dest: newVerificationMaterial_for)

lemma Login_leaves: "id_leaves w (Login svc now sent input w)"
proof -
  have active: "id_leaves w' (seq (newSessionMaterial svc (user_account user) c now) (\<lambda>material.
      seq (IdWithinTransaction (start_session_transaction ev now i material)) (\<lambda>_.
      ret (Authenticated (sm_credentials material)))) w')"
    if "user \<in> set (users (iw_db w'))" "ac_Status user = AccountStatusActive" for w' user c ev i
  proof (rule id_leaves_after[OF untouched_values(5)], rule id_leaves_seq, rule id_leaves_transaction)
    fix m w1 x w2
    assume m: "newSessionMaterial svc (user_account user) c now w' = (Inr m, w1)" and w1: "iw_db w1 = iw_db w'"
      and inv: "id_inv (iw_db w1)" and run: "start_session_transaction ev now i m w1 = (Inr x, w2)"
    have "activated (iw_db w1) (ac_ID (user_account user))"
      using that by (auto simp: w1 activated_def user_account_def account.defs)
    then show "id_good (iw_db w1) (iw_db w2)"
      using start_session_good[OF run inv] newSessionMaterial_for[OF m] by blast
  qed (rule id_leave)
  have found: "user \<in> set (users (iw_db w))" if "UserByNormalizedEmail n w = (Inr user, w1)" for user n w1
    using that by (auto simp: UserByNormalizedEmail_def runs dest!: first_rowD)
  show ?thesis
    unfolding Login_def
    by (auto intro!: id_leave id_leaves_after[OF untouched_attempt[OF untouched_finds(1)]]
        id_leaves_after[OF untouched_attempt[OF untouched_draws(3)]] id_leaves_after[OF untouched_draws(3)]
        reissue_leaves active dest!: found simp: runs split: option.splits sum.splits account_status.splits)
qed

lemma VerifyEmail_leaves: "id_leaves w (VerifyEmail svc now input w)"
  unfolding VerifyEmail_def
  by (auto intro!: id_leave id_leaves_seq id_leaves_transaction elim: verify_good split: option.splits)

lemma ResendVerification_leaves: "id_leaves w (ResendVerification svc now sent ticket w)"
  unfolding ResendVerification_def
  by (auto intro!: id_leave id_leaves_seq id_leaves_transaction elim: resend_good split: resend_outcome.splits)

lemma Refresh_leaves: "id_leaves w (Refresh svc now tok w)"
proof -
  have inner: "id_leaves w' (seq (IdWithinTransaction (refresh_transaction svc now tok a r)) (\<lambda>outcome.
      case outcome of
        Refresh_Nothing \<Rightarrow> fail IdInvalidRefresh
      | Refresh_Revoked s i \<Rightarrow> seq (onSessionRevoked (s_UserID s) (s_ID s) i) (\<lambda>_. fail IdInvalidRefresh)
      | Refresh_Valid c \<Rightarrow> ret c) w')" for w' a r
    by (rule id_leaves_seq)
      (auto intro!: id_leave id_leaves_transaction id_leaves_after untouched_draws elim: refresh_good split: refresh_outcome.splits)
  then show ?thesis
    by (auto simp: Refresh_def intro!: id_leave id_leaves_after[OF untouched_values(3)] inner)
qed

lemma Logout_leaves: "id_leaves w (Logout svc now tok w)"
  unfolding Logout_def
  by (auto intro!: id_leave id_leaves_seq id_leaves_transaction id_leaves_untouched[OF untouched_draws(5)]
    elim: logout_good split: option.splits)

lemma reading_leaves:
  "id_leaves w (CurrentAccount svc now t w)" "id_leaves w (AuthenticateAccess svc now t w)"
  "id_leaves w (AuthorizeAccount i w)" "id_leaves w (AuthorizeSession now i j w)"
  by (auto simp: CurrentAccount_def AuthenticateAccess_def AuthorizeAccount_def AuthorizeSession_def
    intro!: id_leaves_untouched untoucheds id_leaves_seq id_leave)

lemma googleSignIn_leaves: "id_leaves w (googleSignIn svc now subject email n c w)"
  unfolding googleSignIn_def by (rule id_leaves_transaction) (rule google_good)

lemma google_answer_db [simp]: "iw_db (snd (google_answer r)) = iw_db (snd r)"
  by (auto simp: google_answer_def split: prod.splits sum.splits google_outcome.splits)

lemma AuthenticateWithGoogle_leaves:
  assumes "AuthenticateWithGoogle svc clock input w = Some r" shows "id_leaves w r"
proof -
  have "id_leaves w (google_answer (case googleSignIn svc t0 subject email n c w of
      (r, w1) \<Rightarrow> if r = Inl IdConflict then googleSignIn svc t1 subject email n c w1 else (r, w1)))"
    for t0 t1 subject email n c
    using googleSignIn_leaves[of w svc t0 subject email n c]
      googleSignIn_leaves[of "snd (googleSignIn svc t0 subject email n c w)" svc t1 subject email n c]
    by (auto simp: id_leaves_def split: prod.splits intro: id_good_trans dest: id_good_inv)
  then show ?thesis
    using assms by (auto simp: AuthenticateWithGoogle_def google_loop_rounds id_leaves_def id_good_refl
      split: option.splits sum.splits if_splits)
qed

section \<open>Requests and runs\<close>

datatype id_request =
    Req_Register register_input
  | Req_Login login_input
  | Req_VerifyEmail verify_email_input
  | Req_ResendVerification string
  | Req_Refresh string
  | Req_Logout string
  | Req_CurrentAccount string
  | Req_AuthenticateAccess string
  | Req_AuthorizeAccount string
  | Req_AuthorizeSession string string
  | Req_AuthenticateWithGoogle google_auth_input

definition id_outcome :: "(id_error + 'a) \<times> id_world \<Rightarrow> id_error option \<times> id_world" where
  "id_outcome r = (case fst r of Inl e \<Rightarrow> Some e | Inr _ \<Rightarrow> None, snd r)"

lemma id_outcome_simps [simp]:
  "snd (id_outcome r) = snd r" "id_outcome r = (Some e, w') \<longleftrightarrow> r = (Inl e, w')"
  by (cases r; auto simp: id_outcome_def split: sum.splits)+

text \<open>The two instants a request may read, and what it answers.\<close>

fun id_handle :: "id_service \<Rightarrow> instant \<Rightarrow> instant \<Rightarrow> id_request \<Rightarrow> id_world \<Rightarrow> id_error option \<times> id_world" where
  "id_handle svc now sent (Req_Register input) w = id_outcome (Register svc now sent input w)"
| "id_handle svc now sent (Req_Login input) w = id_outcome (Login svc now sent input w)"
| "id_handle svc now sent (Req_VerifyEmail input) w = id_outcome (VerifyEmail svc now input w)"
| "id_handle svc now sent (Req_ResendVerification t) w = id_outcome (ResendVerification svc now sent t w)"
| "id_handle svc now sent (Req_Refresh t) w = id_outcome (Refresh svc now t w)"
| "id_handle svc now sent (Req_Logout t) w = id_outcome (Logout svc now t w)"
| "id_handle svc now sent (Req_CurrentAccount t) w = id_outcome (CurrentAccount svc now t w)"
| "id_handle svc now sent (Req_AuthenticateAccess t) w = id_outcome (AuthenticateAccess svc now t w)"
| "id_handle svc now sent (Req_AuthorizeAccount i) w = id_outcome (AuthorizeAccount i w)"
| "id_handle svc now sent (Req_AuthorizeSession i j) w = id_outcome (AuthorizeSession now i j w)"
| "id_handle svc now sent (Req_AuthenticateWithGoogle input) w =
     id_outcome (the (AuthenticateWithGoogle svc (\<lambda>tries. if tries = 0 then now else sent) input w))"

lemma AuthenticateWithGoogle_returns: "\<exists>r. AuthenticateWithGoogle svc clock input w = Some r"
  by (simp add: AuthenticateWithGoogle_def google_loop_rounds split: option.split sum.split)

lemma id_handle_leaves: "id_leaves w (id_handle svc now sent req w)"
proof (cases req)
  case (Req_AuthenticateWithGoogle input)
  then show ?thesis
    using AuthenticateWithGoogle_leaves AuthenticateWithGoogle_returns[of svc "\<lambda>tries. if tries = 0 then now else sent" input w]
    by (auto simp: id_leaves_def)
qed (use Register_leaves[of w] Login_leaves[of w] VerifyEmail_leaves[of w] ResendVerification_leaves[of w]
    Refresh_leaves[of w] Logout_leaves[of w] reading_leaves[of w] in \<open>simp_all add: id_leaves_def\<close>)

text \<open>The service with other answers from what it calls: the mailer, Google, the disposable-mail policy.\<close>

definition with_answers ::
  "id_service \<Rightarrow> (string \<Rightarrow> string \<Rightarrow> id_error option) \<Rightarrow> (string \<Rightarrow> id_error option) \<Rightarrow>
   (string \<Rightarrow> id_error + google_identity) option \<Rightarrow> (string \<Rightarrow> bool) option \<Rightarrow> id_service" where
  "with_answers svc code notice google disposable = svc\<lparr>id_send_code := code, id_send_notice := notice,
     id_google_verifier := google, id_is_disposable := disposable\<rparr>"

definition disable_user :: "string \<Rightarrow> user \<Rightarrow> user" where
  "disable_user i u = (if ac_ID u = i then u\<lparr>ac_Status := AccountStatusDisabled\<rparr> else u)"

inductive id_step :: "id_service \<Rightarrow> instant \<times> id_world \<Rightarrow> instant \<times> id_world \<Rightarrow> bool" for svc where
  request: "t \<le> now \<Longrightarrow> now \<le> sent \<Longrightarrow>
    id_step svc (t, w) (sent, snd (id_handle (with_answers svc code notice google disposable) now sent req w))"
| arrival: "t \<le> now \<Longrightarrow> id_step svc (t, w) (now, w\<lparr>iw_random := bytes, iw_salts := salts\<rparr>)"
| disable: "t \<le> now \<Longrightarrow> id_step svc (t, w) (now, w\<lparr>iw_db := (iw_db w)\<lparr>users := map (disable_user i) (users (iw_db w))\<rparr>\<rparr>)"

definition id_runs :: "id_service \<Rightarrow> instant \<times> id_world \<Rightarrow> instant \<times> id_world \<Rightarrow> bool" where
  "id_runs svc = (id_step svc)\<^sup>*\<^sup>*"

definition empty_id_db :: id_db where
  "empty_id_db = \<lparr> users = [], federated_identities = [], sessions = [], refresh_credentials = [],
     email_verifications = [], id_audit_events = [] \<rparr>"

definition id_reachable :: "id_service \<Rightarrow> instant \<Rightarrow> id_world \<Rightarrow> bool" where
  "id_reachable svc now w \<longleftrightarrow> (\<exists>t0 w0. iw_db w0 = empty_id_db \<and> id_runs svc (t0, w0) (now, w))"

lemma empty_id_inv: "id_inv empty_id_db"
  by (simp add: empty_id_db_def id_inv_def id_schema_ok_def rows_ok_def one_unused_def)

lemma disable_good:
  assumes inv: "id_inv db" shows "id_good db (db\<lparr>users := map (disable_user i) (users db)\<rparr>)"
proof (rule id_good_users[OF inv])
  have clash: "user_clash (disable_user i a) (disable_user i b) = user_clash a b" for a b
    by (simp add: user_clash_def disable_user_def)
  have valid: "user_valid (disable_user i a) = user_valid a" for a
    by (simp add: user_valid_def disable_user_def)
  show "rows_ok user_clash user_valid (map (disable_user i) (users db))"
    using id_invD(1)[OF inv] by (simp add: rows_ok_def sorted_wrt_map clash valid)
  show "evolves user_le (\<lambda>_. True) (users db) (map (disable_user i) (users db))"
    by (rule evolves_map) (simp add: user_le_def disable_user_def)
qed

lemma id_step_good:
  assumes "id_step svc (t, w) (t', w')" and "id_inv (iw_db w)"
  shows "id_good (iw_db w) (iw_db w')" and "t \<le> t'"
  using assms id_handle_leaves[of w] by (auto elim!: id_step.cases simp: id_leaves_def disable_good id_good_refl)

lemma id_runs_good:
  assumes "id_runs svc (t, w) (t', w')" and "id_inv (iw_db w)"
  shows "id_good (iw_db w) (iw_db w')" and "t \<le> t'"
proof -
  have "id_good (iw_db w) (iw_db (snd s)) \<and> t \<le> fst s" if "(id_step svc)\<^sup>*\<^sup>* (t, w) s" for s
    using that
  proof (induction rule: rtranclp_induct)
    case base then show ?case using assms(2) by (simp add: id_good_refl)
  next
    case (step y z)
    then show ?case
      using id_step_good[of svc "fst y" "snd y" "fst z" "snd z"] by (auto intro: id_good_trans dest: id_good_inv)
  qed
  from this[of "(t', w')"] assms(1) show "id_good (iw_db w) (iw_db w')" and "t \<le> t'" by (simp_all add: id_runs_def)
qed

lemma id_reachable_inv: "id_reachable svc now w \<Longrightarrow> id_inv (iw_db w)"
  using id_runs_good(1) empty_id_inv by (fastforce simp: id_reachable_def dest: id_good_inv)

lemma id_runs_evolves: "id_runs svc (t, w) (t', w') \<Longrightarrow> id_inv (iw_db w) \<Longrightarrow> id_evolves (iw_db w) (iw_db w')"
  using id_runs_good(1) by (auto simp: id_good_def)

end
