(* ===== verification/Id_Example.thy ===== *)
theory Id_Example
  imports Id_Machine
begin

text \<open>
  A run of the identity service on concrete input: Ann registers, verifies her address, refreshes her
  session, and signs out.  The random bytes of each request arrive just before it.
\<close>

definition ex_id_sha256 :: "bytes \<Rightarrow> bytes" where
  "ex_id_sha256 b = take 32 (b @ replicate 32 (CHR ''.''))"

definition ex_id_service :: id_service where
  "ex_id_service = \<lparr> id_sha256 = ex_id_sha256, id_parse_address = Some, id_unicode_lower = (\<lambda>s. s),
     id_hash_password = (\<lambda>p salt. salt @ p), id_verify_password = (\<lambda>p h. Inr (drop saltLength h = p)),
     id_send_code = (\<lambda>_ _. None), id_send_notice = (\<lambda>_. None), id_google_verifier = None, id_is_disposable = None,
     accessLifetime = 10, refreshLifetime = 100, dummyHash = [] \<rparr>"

definition ex_bytes :: "nat \<Rightarrow> char \<Rightarrow> bytes" where "ex_bytes n c = replicate n c"

definition ex_id_world :: "id_db \<Rightarrow> char \<Rightarrow> (string \<times> string) list \<Rightarrow> id_world" where
  "ex_id_world db c mails = \<lparr> iw_db = db, iw_random = ex_bytes 100 c, iw_salts = ex_bytes 16 c, iw_mails = mails, iw_revoked = [] \<rparr>"

definition ex_token :: "string \<Rightarrow> char \<Rightarrow> string" where "ex_token prefix c = prefix @ EncodeToString (ex_bytes 32 c)"
definition ex_id :: "string \<Rightarrow> char \<Rightarrow> string" where "ex_id prefix c = prefix @ EncodeToString (ex_bytes 18 c)"

lemma ex_bytes_simps [simp]:
  "length (ex_bytes n c) = n" "take m (ex_bytes n c) = ex_bytes (min m n) c" "drop m (ex_bytes n c) = ex_bytes (n - m) c"
  by (simp_all add: ex_bytes_def min.commute)

lemma issue_run:
  "iw_random w = ex_bytes n c \<Longrightarrow> 32 \<le> n \<Longrightarrow>
     seq (id_issueToken p) f w = f (ex_token p c) (w\<lparr>iw_random := ex_bytes (n - 32) c\<rparr>)"
  "iw_random w = ex_bytes n c \<Longrightarrow> 18 \<le> n \<Longrightarrow>
     seq (id_issueIdentifier p) f w = f (ex_id p c) (w\<lparr>iw_random := ex_bytes (n - 18) c\<rparr>)"
  "iw_salts w = ex_bytes 16 c \<Longrightarrow>
     seq (hash_password svc pw) g w = g (id_hash_password svc pw (ex_bytes 16 c)) (w\<lparr>iw_salts := ex_bytes 0 c\<rparr>)"
  by (simp_all add: id_issueToken_def id_issueIdentifier_def issueRandomValue_def id_draw_def ReadFull_def seq_def ret_def
    tokenRandomLength_def identifierRandomLength_def ex_token_def ex_id_def hash_password_def saltLength_def min_def)

definition ex_code :: string where "ex_code = ''795585''"

lemma ex_code_run:
  assumes w: "iw_random w = ex_bytes n (CHR ''A'')" "4 \<le> n"
  shows "seq issueVerificationCode f w = f ex_code (w\<lparr>iw_random := ex_bytes (n - 4) (CHR ''A'')\<rparr>)"
proof -
  have "BigEndian_Uint32 (ex_bytes 4 (CHR ''A'')) = 1094795585"
    by (simp add: BigEndian_Uint32_def ex_bytes_def byte_nat_def numeral_eq_Suc)
  moreover have "(1094795585 :: 32 word) < code_limit"
    by (simp add: code_limit_def verificationCodeSpace_def)
  moreover have "code_of 1094795585 = ex_code"
    by (simp add: code_of_def verificationCodeSpace_def ex_code_def six_digits_def nat_byte_def) code_simp
  ultimately have "code_rounds (Suc k) w = (Inr ex_code, w\<lparr>iw_random := ex_bytes (n - 4) (CHR ''A'')\<rparr>)" for k
    using w by (simp add: id_draw_def ReadFull_def seq_def ret_def min_def Let_def)
  from this[of 63] show ?thesis
    by (simp add: issueVerificationCode_def seq_def)
qed

definition ex_register :: register_input where
  "ex_register = \<lparr> ri_Email = ''ann@x.org'', ri_Password = ''correct horse'', ri_ClientName = ''web'' \<rparr>"

lemma ex_inputs:
  "normalizeEmail ex_id_service ''ann@x.org'' = Some (''ann@x.org'', ''ann@x.org'')"
  "normalizeClientName ''web'' = Some ''web''" "validRegistrationPassword ''correct horse''"
  "validLoginPassword ''correct horse''" "validVerificationCode ex_code"
  by code_simp+


lemma ex_id_hash:
  "length (ex_id_sha256 b) = 32"
  "ex_id_sha256 (ex_token ''orr_'' (CHR ''B'')) \<noteq> ex_id_sha256 (ex_token ''orr_'' (CHR ''C''))"
  by (simp add: ex_id_sha256_def, code_simp)

lemma ex_service_fields [simp]:
  "id_sha256 ex_id_service = ex_id_sha256" "id_hash_password ex_id_service p salt = salt @ p"
  "id_verify_password ex_id_service p h = Inr (drop saltLength h = p)" "id_send_code ex_id_service a c = None"
  "id_send_notice ex_id_service a = None" "id_google_verifier ex_id_service = None"
  "id_is_disposable ex_id_service = None" "accessLifetime ex_id_service = 10" "refreshLifetime ex_id_service = 100"
  by (simp_all add: ex_id_service_def)

lemma ex_world_fields [simp]:
  "iw_db (ex_id_world db c mails) = db" "iw_random (ex_id_world db c mails) = ex_bytes 100 c" "iw_salts (ex_id_world db c mails) = ex_bytes 16 c"
  "iw_mails (ex_id_world db c mails) = mails" "iw_revoked (ex_id_world db c mails) = []"
  by (simp_all add: ex_id_world_def)

lemma ex_tokens_valid: "id_validToken (ex_token p c) p" "length (ex_id p c) = length p + 24"
  by (simp_all add: ex_token_def ex_id_def id_validToken_encoded length_EncodeToString)

definition ex_ann :: "account_status \<Rightarrow> instant option \<Rightarrow> user" where
  "ex_ann status verified = \<lparr> ac_ID = ex_id ''usr_'' (CHR ''A''), ac_Email = ''ann@x.org'', ac_Status = status,
     ac_EmailVerifiedAt = verified, ac_EmailBouncedAt = None, ac_CreatedAt = 1, u_NormalizedEmail = ''ann@x.org'',
     u_PasswordHash = Some (ex_bytes 16 (CHR ''A'') @ ''correct horse'') \<rparr>"

definition ex_verification :: email_verification where
  "ex_verification = \<lparr> e_UserID = ex_id ''usr_'' (CHR ''A''), e_TicketHash = ex_id_sha256 (ex_token ''vft_'' (CHR ''A'')),
     e_CodeHash = ex_id_sha256 ex_code, e_ClientName = ''web'', e_Attempts = 0,
     e_ExpiresAt = 1 + verificationCodeLifetime, e_CreatedAt = 1 \<rparr>"

definition ex_event :: "string \<Rightarrow> bool \<Rightarrow> instant \<Rightarrow> id_audit_event" where
  "ex_event ev s at = \<lparr> ia_UserID = Some (ex_id ''usr_'' (CHR ''A'')),
     ia_SessionID = (if s then Some (ex_id ''asn_'' (CHR ''B'')) else None), ia_EventType = ev, ia_OccurredAt = at \<rparr>"

definition ex_id_db1 :: id_db where
  "ex_id_db1 = \<lparr> users = [ex_ann AccountStatusPending None], federated_identities = [], sessions = [],
     refresh_credentials = [], email_verifications = [ex_verification],
     id_audit_events = [ex_event ''auth.registration_succeeded'' False 1] \<rparr>"

definition ex_challenge :: verification_challenge where
  "ex_challenge = \<lparr> vc_Account = user_account (ex_ann AccountStatusPending None), vc_Ticket = ex_token ''vft_'' (CHR ''A''),
     vc_TicketExpiresAt = 1 + verificationCodeLifetime \<rparr>"

lemmas ex_id_defs = ex_ann_def ex_verification_def ex_event_def ex_id_db1_def ex_challenge_def

lemmas ex_id_run = id_evals IdWithinTransaction_def create_row_def id_store_def Let_def user_valid_def verification_valid_def
  user_clash_def verification_clash_def user_row_def session_row_def first_row_def ex_tokens_valid ex_id_hash hashToken_def
  accountAuditEvent_def auditEvent_def id_write_defs id_find_defs

lemma seq_assoc: "seq (seq m f) g w = seq m (\<lambda>x. seq (f x) g) w"
  by (simp add: seq_def split: prod.splits sum.splits)

lemma store_run:
  "seq (id_store put f) k w = (case f (iw_db w) of Inl e \<Rightarrow> (Inl (id_translateError e), w)
     | Inr rows \<Rightarrow> k () (w\<lparr>iw_db := put rows (iw_db w)\<rparr>))"
  "id_store put f w = (case f (iw_db w) of Inl e \<Rightarrow> (Inl (id_translateError e), w)
     | Inr rows \<Rightarrow> (Inr (), w\<lparr>iw_db := put rows (iw_db w)\<rparr>))"
  by (simp_all add: seq_def id_store_def split: sum.splits)

lemma transaction_run:
  "m w = (Inr x, w1) \<Longrightarrow> seq (IdWithinTransaction m) k w = k x w1"
  "m w = (Inr x, w1) \<Longrightarrow> seq (attempt (IdWithinTransaction m)) h w = h (Inr x) w1"
  by (simp_all add: seq_def IdWithinTransaction_def attempt_def)

lemma ex_register_tx:
  assumes "iw_db w = empty_id_db"
  shows "register_transaction 1 (ex_ann AccountStatusPending None) ex_verification w = (Inr (), w\<lparr>iw_db := ex_id_db1\<rparr>)"
  using assms
  by (simp add: register_transaction_def store_run id_write_defs empty_id_db_def ex_id_defs create_row_def user_valid_def
    verification_valid_def ex_id_hash ex_tokens_valid verificationCodeLifetime_def duration_defs user_row_def
    accountAuditEvent_def)

lemma ex_material:
  "iw_random w = ex_bytes n (CHR ''A'') \<Longrightarrow> 36 \<le> n \<Longrightarrow>
   newVerificationMaterial ex_id_service (user_account (ex_ann AccountStatusPending None)) ''web'' 1 w =
     (Inr \<lparr> vm_challenge = ex_challenge, vm_record = ex_verification, vm_code = ex_code \<rparr>,
      w\<lparr>iw_random := ex_bytes (n - 36) (CHR ''A'')\<rparr>)"
  by (simp add: newVerificationMaterial_def issue_run ex_code_run Let_def ret_def ex_id_defs hashToken_def user_account_def account.defs)

lemma run_then: "m w = (Inr x, w1) \<Longrightarrow> seq m f w = f x w1"
  by (simp add: seq_def)

lemma ex_id_nonempty: "ex_id (x # p) c \<noteq> []"
  by (simp add: ex_id_def)

lemma ex_deliver:
  "iw_db w = ex_id_db1 \<Longrightarrow> seq (deliverVerificationCode ex_id_service t (ex_id ''usr_'' (CHR ''A'')) a c) k w =
     k () (w\<lparr>iw_mails := iw_mails w @ [(a, c)]\<rparr>)"
  by (cases w) (simp add: deliverVerificationCode_def send_mail_def recordDelivery_def seq_def attempt_def ret_def
    SetEmailBounced_def id_store_def update_rows_def ex_id_defs user_clash_def user_valid_def ex_tokens_valid ex_id_nonempty)

lemma ex_register_run:
  "Register ex_id_service 1 1 ex_register (ex_id_world empty_id_db (CHR ''A'') []) =
     (Inr (MustVerify ex_challenge), \<lparr> iw_db = ex_id_db1, iw_random = ex_bytes 46 (CHR ''A''), iw_salts = ex_bytes 0 (CHR ''A''),
       iw_mails = [(''ann@x.org'', ex_code)], iw_revoked = [] \<rparr>)"
proof -
  let ?w = "(ex_id_world empty_id_db (CHR ''A'') [])\<lparr>iw_salts := ex_bytes 0 (CHR ''A''), iw_random := ex_bytes 82 (CHR ''A'')\<rparr>"
  let ?w2 = "?w\<lparr>iw_random := ex_bytes 46 (CHR ''A''), iw_db := ex_id_db1\<rparr>"
  have user: "\<lparr> ac_ID = ex_id ''usr_'' (CHR ''A''), ac_Email = ''ann@x.org'', ac_Status = AccountStatusPending,
     ac_EmailVerifiedAt = None, ac_EmailBouncedAt = None, ac_CreatedAt = 1, u_NormalizedEmail = ''ann@x.org'',
     u_PasswordHash = Some (ex_bytes 16 (CHR ''A'') @ ''correct horse'') \<rparr> = ex_ann AccountStatusPending None"
    by (simp add: ex_ann_def)
  show ?thesis
    using ex_material[of ?w 82] ex_register_tx[of "?w\<lparr>iw_random := ex_bytes 46 (CHR ''A'')\<rparr>"]
    unfolding Register_def ex_register_def
    by (simp add: ex_inputs issue_run Let_def user run_then transaction_run(2) ex_deliver ret_def ex_id_world_def)
qed


section \<open>The address verified, the session renewed and ended\<close>

definition ex_session :: "char \<Rightarrow> instant \<Rightarrow> instant option \<Rightarrow> session" where
  "ex_session c at ended = \<lparr> s_ID = ex_id ''asn_'' (CHR ''B''), s_UserID = ex_id ''usr_'' (CHR ''A''),
     s_AccessTokenHash = ex_id_sha256 (ex_token ''ora_'' c), s_AccessTokenExpiresAt = at + 10, s_RefreshExpiresAt = 102,
     s_ClientName = ''web'', s_CreatedAt = 2, s_LastRefreshedAt = at, s_RevokedAt = ended \<rparr>"

definition ex_refresh :: "char \<Rightarrow> instant \<Rightarrow> instant option \<Rightarrow> refresh_credential" where
  "ex_refresh c at used = \<lparr> r_TokenHash = ex_id_sha256 (ex_token ''orr_'' c), r_SessionID = ex_id ''asn_'' (CHR ''B''),
     r_ExpiresAt = 102, r_CreatedAt = at, r_UsedAt = used \<rparr>"

definition ex_credentials :: "char \<Rightarrow> instant \<Rightarrow> credentials" where
  "ex_credentials c at = \<lparr> cd_Account = user_account (ex_ann AccountStatusActive (Some 2)), cd_AccessToken = ex_token ''ora_'' c,
     cd_AccessTokenExpiresAt = at + 10, cd_RefreshToken = ex_token ''orr_'' c, cd_RefreshTokenExpiresAt = 102 \<rparr>"

definition ex_id_db2 :: id_db where
  "ex_id_db2 = \<lparr> users = [ex_ann AccountStatusActive (Some 2)], federated_identities = [], sessions = [ex_session (CHR ''B'') 2 None],
     refresh_credentials = [ex_refresh (CHR ''B'') 2 None], email_verifications = [],
     id_audit_events = [ex_event ''auth.registration_succeeded'' False 1, ex_event ''auth.email_verified'' True 2] \<rparr>"

definition ex_id_db3 :: id_db where
  "ex_id_db3 = \<lparr> users = [ex_ann AccountStatusActive (Some 2)], federated_identities = [], sessions = [ex_session (CHR ''C'') 3 None],
     refresh_credentials = [ex_refresh (CHR ''B'') 2 (Some 3), ex_refresh (CHR ''C'') 3 None], email_verifications = [],
     id_audit_events = [ex_event ''auth.registration_succeeded'' False 1, ex_event ''auth.email_verified'' True 2,
       ex_event ''auth.refresh_succeeded'' True 3] \<rparr>"

definition ex_id_db4 :: id_db where
  "ex_id_db4 = ex_id_db3\<lparr>sessions := [ex_session (CHR ''C'') 3 (Some 4)],
     id_audit_events := id_audit_events ex_id_db3 @ [ex_event ''auth.logout_succeeded'' True 4]\<rparr>"

definition ex_verify :: verify_email_input where
  "ex_verify = \<lparr> vi_Ticket = ex_token ''vft_'' (CHR ''A''), vi_Code = ex_code \<rparr>"

lemmas ex_later_defs = ex_session_def ex_refresh_def ex_credentials_def ex_id_db2_def ex_id_db3_def ex_id_db4_def ex_verify_def

lemmas ex_steps = store_run transaction_run id_evals id_write_defs id_find_defs create_row_def update_rows_def one_row_def
  first_row_def user_valid_def user_clash_def session_valid_def session_clash_def refresh_valid_def refresh_clash_def
  verification_valid_def user_row_def session_row_def ex_tokens_valid ex_id_hash hashToken_def accountAuditEvent_def auditEvent_def
  ex_id_defs ex_later_defs Let_def

lemma ex_session_material:
  "iw_random w = ex_bytes 100 (CHR ''B'') \<Longrightarrow>
   seq (newSessionMaterial ex_id_service ((user_account (ex_ann AccountStatusPending None))\<lparr>ac_Status := AccountStatusActive,
      ac_EmailVerifiedAt := Some 2\<rparr>) ''web'' 2) f w =
     f \<lparr> sm_session = ex_session (CHR ''B'') 2 None, sm_refresh = ex_refresh (CHR ''B'') 2 None, sm_credentials = ex_credentials (CHR ''B'') 2 \<rparr>
      (w\<lparr>iw_random := ex_bytes 18 (CHR ''B'')\<rparr>)"
  by (simp add: newSessionMaterial_def issue_run Let_def seq_assoc ex_id_defs ex_later_defs hashToken_def user_account_def account.defs id_evals)

lemma ex_row_fields [simp]:
  "ac_ID (ex_ann s v) = ex_id ''usr_'' (CHR ''A'')" "ac_Status (ex_ann s v) = s" "e_UserID ex_verification = ex_id ''usr_'' (CHR ''A'')"
  "e_CodeHash ex_verification = ex_id_sha256 ex_code" "e_ClientName ex_verification = ''web''"
  "e_Attempts ex_verification = 0" "e_ExpiresAt ex_verification = 1 + verificationCodeLifetime"
  "s_ID (ex_session c t e) = ex_id ''asn_'' (CHR ''B'')" "s_UserID (ex_session c t e) = ex_id ''usr_'' (CHR ''A'')"
  "s_RevokedAt (ex_session c t e) = e" "s_RefreshExpiresAt (ex_session c t e) = 102"
  "r_SessionID (ex_refresh c t u) = ex_id ''asn_'' (CHR ''B'')" "r_UsedAt (ex_refresh c t u) = u" "r_ExpiresAt (ex_refresh c t u) = 102"
  "r_TokenHash (ex_refresh c t u) = ex_id_sha256 (ex_token ''orr_'' c)"
  by (simp_all add: ex_id_defs ex_later_defs)

lemma ex_verify_steps:
  "iw_db w = ex_id_db1 \<Longrightarrow> seq (attempt (EmailVerificationForUpdate (ex_id_sha256 (ex_token ''vft_'' (CHR ''A''))))) k w = k (Inr ex_verification) w"
  "iw_db w = ex_id_db1 \<Longrightarrow> seq (UserByID (ex_id ''usr_'' (CHR ''A''))) k1 w = k1 (ex_ann AccountStatusPending None) w"
  "iw_db w = ex_id_db1 \<Longrightarrow> seq (ActivateUser (ex_id ''usr_'' (CHR ''A'')) 2) k2 w =
     k2 () (w\<lparr>iw_db := ex_id_db1\<lparr>users := [ex_ann AccountStatusActive (Some 2)]\<rparr>\<rparr>)"
  by (simp_all add: ex_steps)

lemma ex_verify_persist:
  assumes "iw_db w = ex_id_db1\<lparr>users := [ex_ann AccountStatusActive (Some 2)], email_verifications := []\<rparr>"
  shows "seq (persistSessionMaterial \<lparr> sm_session = ex_session (CHR ''B'') 2 None, sm_refresh = ex_refresh (CHR ''B'') 2 None,
      sm_credentials = c \<rparr>) (\<lambda>_. seq (IdAppendAuditEvent (ex_event ''auth.email_verified'' True 2)) k) w =
    k () (w\<lparr>iw_db := ex_id_db2\<rparr>)"
  using assms by (simp add: persistSessionMaterial_def seq_assoc ex_steps)

lemma ex_verify_run:
  "VerifyEmail ex_id_service 2 ex_verify (ex_id_world ex_id_db1 (CHR ''B'') mails) =
     (Inr (Authenticated (ex_credentials (CHR ''B'') 2)), (ex_id_world ex_id_db2 (CHR ''B'') mails)\<lparr>iw_random := ex_bytes 18 (CHR ''B'')\<rparr>)"
proof -
  have valid: "id_validToken (ex_token ''vft_'' (CHR ''A'')) ''vft_''" by (simp add: ex_tokens_valid)
  have event: "auditEvent ''auth.email_verified'' (ex_id ''usr_'' (CHR ''A'')) (ex_id ''asn_'' (CHR ''B'')) 2 =
      ex_event ''auth.email_verified'' True 2" by (simp add: auditEvent_def ex_event_def)
  have "verify_transaction ex_id_service 2 ex_verify (ex_id_world ex_id_db1 (CHR ''B'') mails) =
     (Inr (Some (ex_credentials (CHR ''B'') 2)), (ex_id_world ex_id_db2 (CHR ''B'') mails)\<lparr>iw_random := ex_bytes 18 (CHR ''B'')\<rparr>)"
    unfolding verify_transaction_def ex_verify_def
    by (simp add: ex_verify_steps hashToken_def hmac_Equal_def verificationCodeLifetime_def maxVerificationAttempts_def
      duration_defs ex_session_material DeleteEmailVerification_def store_run event ex_verify_persist ret_def Let_def ex_id_db1_def)
  then show ?thesis
    by (simp add: VerifyEmail_def ex_verify_def valid ex_inputs transaction_run(1) ret_def)
qed


lemma ex_refresh_run:
  "Refresh ex_id_service 3 (ex_token ''orr_'' (CHR ''B'')) (ex_id_world ex_id_db2 (CHR ''C'') mails) =
     (Inr (ex_credentials (CHR ''C'') 3), (ex_id_world ex_id_db3 (CHR ''C'') mails)\<lparr>iw_random := ex_bytes 36 (CHR ''C'')\<rparr>)"
proof -
  let ?w = "(ex_id_world ex_id_db2 (CHR ''C'') mails)\<lparr>iw_random := ex_bytes 36 (CHR ''C'')\<rparr>"
  have valid: "id_validToken (ex_token ''orr_'' (CHR ''B'')) ''orr_''" by (simp add: ex_tokens_valid)
  have "refresh_transaction ex_id_service 3 (ex_token ''orr_'' (CHR ''B'')) (ex_token ''ora_'' (CHR ''C''))
      (ex_token ''orr_'' (CHR ''C'')) ?w = (Inr (Refresh_Valid (ex_credentials (CHR ''C'') 3)), ?w\<lparr>iw_db := ex_id_db3\<rparr>)"
    by (simp add: refresh_transaction_def ex_steps user_account_def account.defs ret_def ex_id_hash(2)[symmetric])
  then show ?thesis
    by (simp add: Refresh_def valid issue_run transaction_run(1) ret_def ex_id_world_def)
qed

lemma ex_logout_run:
  "Logout ex_id_service 4 (ex_token ''orr_'' (CHR ''C'')) (ex_id_world ex_id_db3 c mails) =
     (Inr (), (ex_id_world ex_id_db4 c mails)\<lparr>iw_revoked := [(ex_id ''usr_'' (CHR ''A''), ex_id ''asn_'' (CHR ''B''), False)]\<rparr>)"
proof -
  have valid: "id_validToken (ex_token ''orr_'' (CHR ''C'')) ''orr_''" by (simp add: ex_tokens_valid)
  have "logout_transaction ex_id_service 4 (ex_token ''orr_'' (CHR ''C'')) (ex_id_world ex_id_db3 c mails) =
     (Inr (Some (ex_session (CHR ''C'') 3 None)), ex_id_world ex_id_db4 c mails)"
    by (simp add: logout_transaction_def ex_steps ret_def ex_id_hash(2)[symmetric] ex_id_world_def)
  then show ?thesis
    by (simp add: Logout_def valid transaction_run(1) onSessionRevoked_def ex_id_world_def)
qed

section \<open>The run\<close>

definition ex_mails :: "(string \<times> string) list" where "ex_mails = [(''ann@x.org'', ex_code)]"

lemma ex_id_answers [simp]:
  "with_answers ex_id_service (\<lambda>_ _. None) (\<lambda>_. None) None None = ex_id_service"
  by (simp add: with_answers_def ex_id_service_def)

lemma ex_request:
  assumes "id_reachable ex_id_service t w" and "t \<le> now" and "snd (id_handle ex_id_service now now req w) = w'"
  shows "id_reachable ex_id_service now w'"
proof -
  have "id_step ex_id_service (t, w) (now, snd (id_handle (with_answers ex_id_service (\<lambda>_ _. None) (\<lambda>_. None) None None) now now req w))"
    by (rule request[OF assms(2)]) simp
  then show ?thesis
    using assms(1,3) by (auto simp: id_reachable_def id_runs_def intro: rtranclp.rtrancl_into_rtrancl)
qed

lemma ex_arrival:
  assumes "id_reachable ex_id_service t w" and "w\<lparr>iw_random := bytes, iw_salts := salts\<rparr> = w'"
  shows "id_reachable ex_id_service t w'"
  using assms arrival[of t t ex_id_service w salts bytes]
  by (auto simp: id_reachable_def id_runs_def intro: rtranclp.rtrancl_into_rtrancl)

lemma ex_id_reachable:
  "id_reachable ex_id_service 0 (ex_id_world empty_id_db (CHR ''A'') [])"
  "id_reachable ex_id_service 1 (ex_id_world ex_id_db1 c ex_mails)"
  "id_reachable ex_id_service 2 (ex_id_world ex_id_db2 c ex_mails)"
  "id_reachable ex_id_service 3 (ex_id_world ex_id_db3 c ex_mails)"
proof -
  show r0: "id_reachable ex_id_service 0 (ex_id_world empty_id_db (CHR ''A'') [])"
    unfolding id_reachable_def id_runs_def by (rule exI[of _ 0], rule exI[of _ "ex_id_world empty_id_db (CHR ''A'') []"]) simp
  have r1: "id_reachable ex_id_service 1 (ex_id_world ex_id_db1 c ex_mails)" for c
    by (rule ex_arrival[OF ex_request[OF r0, of 1 "Req_Register ex_register"]])
      (simp_all add: ex_register_run, simp add: ex_id_world_def ex_mails_def)
  have r2: "id_reachable ex_id_service 2 (ex_id_world ex_id_db2 c ex_mails)" for c
    by (rule ex_arrival[OF ex_request[OF r1[of "CHR ''B''"], of 2 "Req_VerifyEmail ex_verify"]])
      (simp_all add: ex_verify_run, simp add: ex_id_world_def)
  have r3: "id_reachable ex_id_service 3 (ex_id_world ex_id_db3 c ex_mails)" for c
    by (rule ex_arrival[OF ex_request[OF r2[of "CHR ''C''"], of 3 "Req_Refresh (ex_token ''orr_'' (CHR ''B''))"]])
      (simp_all add: ex_refresh_run, simp add: ex_id_world_def)
  show "id_reachable ex_id_service 1 (ex_id_world ex_id_db1 c ex_mails)"
    "id_reachable ex_id_service 2 (ex_id_world ex_id_db2 c ex_mails)"
    "id_reachable ex_id_service 3 (ex_id_world ex_id_db3 c ex_mails)" by (rule r1 r2 r3)+
qed

end
