(* ===== verification/Id_Sessions.thy ===== *)
theory Id_Sessions
  imports Id_Example
begin

text \<open>
  What a session promises: whom an access token stands for, that a refresh token is exchanged once and a
  second use ends its session, and that a session that ended stays ended.
\<close>

section \<open>Lookups and final rows\<close>

lemma find_refresh:
  assumes "id_inv db" and "r \<in> set (refresh_credentials db)"
  shows "first_row r_TokenHash (\<lambda>q. r_TokenHash q = r_TokenHash r) (refresh_credentials db) = Inr r"
  by (rule refresh_table.first_row_unique[OF id_invD(4)[OF assms(1)] assms(2)]) (simp_all add: refresh_clash_def)

lemma find_session:
  assumes "id_inv db" and "s \<in> set (sessions db)"
  shows "first_row s_ID (\<lambda>q. s_ID q = s_ID s) (sessions db) = Inr s"
  by (rule session_table.first_row_unique[OF id_invD(3)[OF assms(1)] assms(2)]) (simp_all add: session_clash_def)

lemma same_session:
  "id_inv db \<Longrightarrow> s \<in> set (sessions db) \<Longrightarrow> q \<in> set (sessions db) \<Longrightarrow> s_ID s = s_ID q \<Longrightarrow> s = q"
  using session_table.wf_key id_invD(3) by blast

lemma same_user:
  "id_inv db \<Longrightarrow> u \<in> set (users db) \<Longrightarrow> v \<in> set (users db) \<Longrightarrow> ac_ID u = ac_ID v \<Longrightarrow> u = v"
  using user_table.wf_key id_invD(1) by blast

lemma evolved_session:
  assumes "id_evolves db db'" and "s \<in> set (sessions db)"
  shows "\<exists>s' \<in> set (sessions db'). session_le s s'"
  using assms by (auto simp: id_evolves_def dest: evolves_old)

lemma evolved_refresh:
  assumes "id_evolves db db'" and "r \<in> set (refresh_credentials db)"
  shows "\<exists>r' \<in> set (refresh_credentials db'). refresh_le r r'"
  using assms by (auto simp: id_evolves_def dest: evolves_old)

lemma used_refresh_final:
  "id_evolves db db' \<Longrightarrow> r \<in> set (refresh_credentials db) \<Longrightarrow> r_UsedAt r \<noteq> None \<Longrightarrow> r \<in> set (refresh_credentials db')"
  by (auto simp: id_evolves_def refresh_le_def dest!: evolves_old)

lemma revoked_session_final:
  "id_evolves db db' \<Longrightarrow> s \<in> set (sessions db) \<Longrightarrow> s_RevokedAt s \<noteq> None \<Longrightarrow> s \<in> set (sessions db')"
  by (auto simp: id_evolves_def session_le_def dest!: evolves_old)

section \<open>Access tokens\<close>

lemma principal_row:
  "AccessPrincipalByAccessTokenHash h now w = (Inr p, w') \<Longrightarrow> w' = w \<and>
     (\<exists>u \<in> set (users (iw_db w)). \<exists>s \<in> set (sessions (iw_db w)). s_UserID s = ac_ID u \<and> s_AccessTokenHash s = h \<and>
        now < s_AccessTokenExpiresAt s \<and> s_RevokedAt s = None \<and> ac_Status u = AccountStatusActive \<and>
        p = \<lparr> ap_Account = user_account u, ap_SessionID = s_ID s, ap_AccessTokenExpiresAt = s_AccessTokenExpiresAt s \<rparr>)"
  by (auto simp: AccessPrincipalByAccessTokenHash_def runs split: sum.splits dest!: first_rowD) blast

text \<open>
  C23: an access token authenticates exactly the account and session whose row holds its hash, while that
  row is unexpired and unrevoked and the account is active; checking a token changes nothing.
\<close>

theorem access_token_meaning:
  assumes "id_reachable svc t w"
  shows "AuthenticateAccess svc now token w = (Inr p, w') \<longleftrightarrow>
    w' = w \<and> id_validToken token ''ora_'' \<and>
    (\<exists>u \<in> set (users (iw_db w)). \<exists>s \<in> set (sessions (iw_db w)). s_UserID s = ac_ID u \<and>
       s_AccessTokenHash s = hashToken svc token \<and> now < s_AccessTokenExpiresAt s \<and> s_RevokedAt s = None \<and>
       ac_Status u = AccountStatusActive \<and>
       p = \<lparr> ap_Account = user_account u, ap_SessionID = s_ID s, ap_AccessTokenExpiresAt = s_AccessTokenExpiresAt s \<rparr>)"
    (is "?l \<longleftrightarrow> ?r")
proof
  assume ?l
  then show ?r by (auto simp: AuthenticateAccess_def runs dest!: principal_row)
next
  assume r: ?r
  note inv = id_reachable_inv[OF assms]
  obtain u s where u: "u \<in> set (users (iw_db w))" and s: "s \<in> set (sessions (iw_db w))"
    and m: "s_UserID s = ac_ID u" "s_AccessTokenHash s = hashToken svc token" "now < s_AccessTokenExpiresAt s"
      "s_RevokedAt s = None" "ac_Status u = AccountStatusActive"
      "p = \<lparr> ap_Account = user_account u, ap_SessionID = s_ID s, ap_AccessTokenExpiresAt = s_AccessTokenExpiresAt s \<rparr>"
    using r by blast
  let ?key = "\<lambda>(u, s). [ac_ID u, s_ID s]"
  let ?p = "\<lambda>(u, s). s_UserID s = ac_ID u \<and> s_AccessTokenHash s = hashToken svc token \<and> now < s_AccessTokenExpiresAt s \<and>
    s_RevokedAt s = None \<and> ac_Status u = AccountStatusActive"
  have "\<exists>x. first_row ?key ?p (List.product (users (iw_db w)) (sessions (iw_db w))) = Inr x"
    by (rule first_row_found[of "(u, s)"]) (use u s m in auto)
  then have "\<exists>q. AccessPrincipalByAccessTokenHash (hashToken svc token) now w = (Inr q, w)"
    by (auto simp: AccessPrincipalByAccessTokenHash_def id_query_def)
  then obtain q where q: "AccessPrincipalByAccessTokenHash (hashToken svc token) now w = (Inr q, w)" by blast
  obtain v z where v: "v \<in> set (users (iw_db w))" and z: "z \<in> set (sessions (iw_db w))"
    and n: "s_UserID z = ac_ID v" "s_AccessTokenHash z = hashToken svc token"
      "q = \<lparr> ap_Account = user_account v, ap_SessionID = s_ID z, ap_AccessTokenExpiresAt = s_AccessTokenExpiresAt z \<rparr>"
    using principal_row[OF q] by blast
  have "z = s"
    using session_table.wf_unique[OF id_invD(3)[OF inv] z s] n(2) m(2) by (simp add: session_clash_def)
  moreover then have "v = u" using same_user[OF inv v u] n(1) m(1) by simp
  ultimately have "q = p" using n(3) m(6) by simp
  then show ?l using q r by (simp add: AuthenticateAccess_def runs)
qed

theorem access_token_meaning_witness:
  "fst (AuthenticateAccess ex_id_service 4 (ex_token ''ora_'' (CHR ''C'')) (ex_id_world ex_id_db3 (CHR ''A'') ex_mails)) =
     Inr \<lparr> ap_Account = user_account (ex_ann AccountStatusActive (Some 2)), ap_SessionID = ex_id ''asn_'' (CHR ''B''),
       ap_AccessTokenExpiresAt = 13 \<rparr>"
proof -
  have "AuthenticateAccess ex_id_service 4 (ex_token ''ora_'' (CHR ''C'')) (ex_id_world ex_id_db3 (CHR ''A'') ex_mails) =
     (Inr \<lparr> ap_Account = user_account (ex_ann AccountStatusActive (Some 2)), ap_SessionID = ex_id ''asn_'' (CHR ''B''),
       ap_AccessTokenExpiresAt = 13 \<rparr>, ex_id_world ex_id_db3 (CHR ''A'') ex_mails)"
    unfolding access_token_meaning[OF ex_id_reachable(4)]
    by (simp add: ex_tokens_valid hashToken_def ex_id_db3_def) (simp add: ex_session_def)
  then show ?thesis by simp
qed

section \<open>Refresh tokens\<close>

definition end_session :: "string \<Rightarrow> instant \<Rightarrow> session \<Rightarrow> session" where
  "end_session i now s = (if s_ID s = i \<and> s_RevokedAt s = None then s\<lparr>s_RevokedAt := Some now\<rparr> else s)"

lemma end_session_fields [simp]:
  "s_ID (end_session i now s) = s_ID s" "s_UserID (end_session i now s) = s_UserID s"
  "session_valid (end_session i now s) = session_valid s" "session_clash (end_session i now s) (end_session i now q) = session_clash s q"
  by (simp_all add: end_session_def session_valid_def session_clash_def)

lemma end_session_ends: "s_ID s = i \<Longrightarrow> \<exists>t. s_RevokedAt (end_session i now s) = Some t"
  by (simp add: end_session_def)

lemma revoke_eval:
  assumes inv: "id_inv (iw_db w)"
  shows "RevokeSession i now w = (Inr (), w\<lparr>iw_db := (iw_db w)\<lparr>sessions := map (end_session i now) (sessions (iw_db w))\<rparr>\<rparr>)"
proof -
  let ?p = "\<lambda>s. s_ID s = i \<and> s_RevokedAt s = None" and ?f = "\<lambda>s. s\<lparr>s_RevokedAt := Some now\<rparr>"
  have g: "(\<lambda>s. if ?p s then ?f s else s) = end_session i now" by (simp add: end_session_def fun_eq_iff)
  have "session_valid (?f s)" if "s \<in> set (sessions (iw_db w))" for s
    using session_table.wf_valid[OF id_invD(3)[OF inv] that] by (simp add: session_valid_def)
  moreover have "\<not> session_clash a b" if "a \<in> set (map (end_session i now) (sessions (iw_db w)))"
    "b \<in> set (map (end_session i now) (sessions (iw_db w)))" "s_ID a \<noteq> s_ID b" for a b
    using that session_table.wf_unique[OF id_invD(3)[OF inv]] by (auto, metis)
  ultimately have "update_rows s_ID session_clash session_valid ?p ?f (sessions (iw_db w)) =
      Inr (map (end_session i now) (sessions (iw_db w)))"
    unfolding update_rows_Inr g by blast
  then show ?thesis by (simp add: RevokeSession_def id_store_def)
qed

lemma audit_eval:
  "user_row (iw_db w) u \<Longrightarrow> session_row (iw_db w) s \<Longrightarrow>
   IdAppendAuditEvent (auditEvent ev u s now) w =
     (Inr (), w\<lparr>iw_db := (iw_db w)\<lparr>id_audit_events := id_audit_events (iw_db w) @ [auditEvent ev u s now]\<rparr>\<rparr>)"
  by (simp add: IdAppendAuditEvent_def id_store_def auditEvent_def)

text \<open>A token that was used before: its session ends, or has ended.\<close>

lemma reused_transaction:
  assumes inv: "id_inv (iw_db w)" and r: "r \<in> set (refresh_credentials (iw_db w))" "r_TokenHash r = hashToken svc token" "r_UsedAt r \<noteq> None"
    and s: "s \<in> set (sessions (iw_db w))" "s_ID s = r_SessionID r"
  shows "\<exists>out w2. refresh_transaction svc now token a b w = (Inr out, w2) \<and> (\<forall>c. out \<noteq> Refresh_Valid c) \<and>
    (\<forall>q \<in> set (sessions (iw_db w2)). s_ID q = s_ID s \<longrightarrow> s_RevokedAt q \<noteq> None)"
proof -
  have found: "first_row r_TokenHash (\<lambda>q. r_TokenHash q = hashToken svc token) (refresh_credentials (iw_db w)) = Inr r"
    "first_row s_ID (\<lambda>q. s_ID q = r_SessionID r) (sessions (iw_db w)) = Inr s"
    using find_refresh[OF inv r(1)] find_session[OF inv s(1)] r(2) s(2) by simp_all
  show ?thesis
  proof (cases "s_RevokedAt s = None")
    case True
    let ?w1 = "w\<lparr>iw_db := (iw_db w)\<lparr>sessions := map (end_session (s_ID s) now) (sessions (iw_db w))\<rparr>\<rparr>"
    have "activated (iw_db w) (s_UserID s)" using inv s(1) by (simp add: id_inv_def)
    then have "user_row (iw_db ?w1) (s_UserID s)" by (auto simp: activated_def user_row_def)
    moreover have "session_row (iw_db ?w1) (s_ID s)" using s(1) by (auto simp: session_row_def)
    ultimately have "refresh_transaction svc now token a b w = (Inr (Refresh_Revoked s False),
        ?w1\<lparr>iw_db := (iw_db ?w1)\<lparr>id_audit_events := id_audit_events (iw_db ?w1) @
          [auditEvent ''auth.refresh_reuse_detected'' (s_UserID s) (s_ID s) now]\<rparr>\<rparr>)"
      using r(3) True unfolding refresh_transaction_def RefreshCredentialForUpdate_def SessionForUpdate_def
      by (simp add: id_evals found Let_def run_then revoke_eval[OF inv] audit_eval)
    then show ?thesis by (auto simp: end_session_ends)
  next
    case False
    then have "\<forall>q \<in> set (sessions (iw_db w)). s_ID q = s_ID s \<longrightarrow> s_RevokedAt q \<noteq> None"
      using same_session[OF inv _ s(1)] by metis
    then show ?thesis
      using r(3) False unfolding refresh_transaction_def RefreshCredentialForUpdate_def SessionForUpdate_def
      by (auto simp: id_evals found Let_def)
  qed
qed

lemma id_issueToken_eval:
  "32 \<le> length (iw_random w) \<Longrightarrow>
   id_issueToken p w = (Inr (p @ EncodeToString (take 32 (iw_random w))), w\<lparr>iw_random := drop 32 (iw_random w)\<rparr>)"
  by (simp add: id_issueToken_def issueRandomValue_def id_draw_def ReadFull_def seq_def ret_def tokenRandomLength_def)

lemma reused_refresh:
  assumes "id_inv (iw_db w)" and "r \<in> set (refresh_credentials (iw_db w))" "r_TokenHash r = hashToken svc token" "r_UsedAt r \<noteq> None"
    and "s \<in> set (sessions (iw_db w))" "s_ID s = r_SessionID r" and valid: "id_validToken token ''orr_''" and bytes: "64 \<le> length (iw_random w)"
  shows "\<exists>w2. Refresh svc now token w = (Inl IdInvalidRefresh, w2) \<and>
    (\<forall>q \<in> set (sessions (iw_db w2)). s_ID q = s_ID s \<longrightarrow> s_RevokedAt q \<noteq> None)"
proof -
  let ?w = "w\<lparr>iw_random := drop 32 (drop 32 (iw_random w))\<rparr>"
  let ?a = "''ora_'' @ EncodeToString (take 32 (iw_random w))" and ?b = "''orr_'' @ EncodeToString (take 32 (drop 32 (iw_random w)))"
  obtain out w2 where t: "refresh_transaction svc now token ?a ?b ?w = (Inr out, w2)" "\<forall>c. out \<noteq> Refresh_Valid c"
    and dead: "\<forall>q \<in> set (sessions (iw_db w2)). s_ID q = s_ID s \<longrightarrow> s_RevokedAt q \<noteq> None"
    using reused_transaction[of ?w r svc token s now ?a ?b] assms by auto
  show ?thesis
    using bytes valid t dead
    by (cases out) (auto simp: Refresh_def seq_def id_issueToken_eval IdWithinTransaction_def fail_def ret_def onSessionRevoked_def)
qed

text \<open>What a successful exchange leaves behind.\<close>

lemma refresh_outcome_runs:
  "(case v of Refresh_Nothing \<Rightarrow> m | Refresh_Revoked s i \<Rightarrow> f s i | Refresh_Valid c \<Rightarrow> g c) w = r \<longleftrightarrow>
     (v = Refresh_Nothing \<and> m w = r \<or> (\<exists>s i. v = Refresh_Revoked s i \<and> f s i w = r) \<or> (\<exists>c. v = Refresh_Valid c \<and> g c w = r))"
  by (cases v) auto

lemma map_updated: "x \<in> set xs \<Longrightarrow> p x \<Longrightarrow> f x \<in> set (map (\<lambda>r. if p r then f r else r) xs)"
  by force

text \<open>The steps of a refresh that succeeds.\<close>

lemma refresh_valid_steps:
  assumes run: "refresh_transaction svc now token a b w = (Inr (Refresh_Valid c), w')"
  obtains r s u w2 w3 w4 ev where "r \<in> set (refresh_credentials (iw_db w))" "r_TokenHash r = hashToken svc token" "r_UsedAt r = None"
    "s \<in> set (sessions (iw_db w))" "s_ID s = r_SessionID r" "s_RevokedAt s = None"
    "ac_ID u = s_UserID s" "ac_Status u = AccountStatusActive"
    "MarkRefreshCredentialUsed (r_TokenHash r) now w = (Inr (), w2)"
    "RotateSessionAccess (s_ID s) (hashToken svc a) (now + accessLifetime svc) now w2 = (Inr (), w3)"
    "CreateRefreshCredential \<lparr> r_TokenHash = hashToken svc b, r_SessionID = s_ID s, r_ExpiresAt = s_RefreshExpiresAt s,
       r_CreatedAt = now, r_UsedAt = None \<rparr> w3 = (Inr (), w4)"
    "IdAppendAuditEvent ev w4 = (Inr (), w')"
    "c = \<lparr> cd_Account = user_account u, cd_AccessToken = a, cd_AccessTokenExpiresAt = now + accessLifetime svc,
       cd_RefreshToken = b, cd_RefreshTokenExpiresAt = s_RefreshExpiresAt s \<rparr>"
  using run unfolding refresh_transaction_def Let_def RefreshCredentialForUpdate_def SessionForUpdate_def UserByID_def
  by (auto simp: runs dest!: first_rowD)

text \<open>The session a refresh renews, afterwards.\<close>

lemma refresh_renews:
  assumes s: "s \<in> set (sessions (iw_db w))" "s_RevokedAt s = None"
    and m: "MarkRefreshCredentialUsed h now w = (Inr (), w2)" and t: "RotateSessionAccess (s_ID s) access expires now w2 = (Inr (), w3)"
    and n: "CreateRefreshCredential v w3 = (Inr (), w4)" and e: "IdAppendAuditEvent ev w4 = (Inr (), w')"
  shows "\<exists>q \<in> set (sessions (iw_db w')). s_ID q = s_ID s \<and> s_UserID q = s_UserID s \<and> s_RevokedAt q = None \<and> s_AccessTokenHash q = access"
proof -
  let ?f = "\<lambda>s. s\<lparr>s_AccessTokenHash := access, s_AccessTokenExpiresAt := expires, s_LastRefreshedAt := now\<rparr>"
  have "s \<in> set (sessions (iw_db w2))"
    using m s(1) by (auto simp: MarkRefreshCredentialUsed_def Let_def runs)
  then have "?f s \<in> set (sessions (iw_db w3))"
    using t s(2) map_updated[of s "sessions (iw_db w2)" "\<lambda>q. s_ID q = s_ID s \<and> s_RevokedAt q = None" ?f]
    by (auto simp: RotateSessionAccess_def Let_def runs one_row_Inr dest!: update_rowsD)
  then have "?f s \<in> set (sessions (iw_db w'))"
    using n e by (auto simp: CreateRefreshCredential_def IdAppendAuditEvent_def runs split: if_splits)
  then show ?thesis using s(2) by (intro bexI[of _ "?f s"]) simp_all
qed

lemma Refresh_takes:
  assumes run: "Refresh svc now token w = (Inr c, w1)"
  obtains a b w0 where "iw_db w0 = iw_db w" "id_validToken token ''orr_''"
    "refresh_transaction svc now token a b w0 = (Inr (Refresh_Valid c), w1)"
  using run by (auto simp: Refresh_def runs refresh_outcome_runs dest!: untouchedD[OF untouched_values(3)])

lemma Refresh_exchanges:
  assumes run: "Refresh svc now token w = (Inr c, w1)" and inv: "id_inv (iw_db w)"
  shows "id_validToken token ''orr_'' \<and>
    (\<exists>r \<in> set (refresh_credentials (iw_db w1)). \<exists>s \<in> set (sessions (iw_db w1)). r_TokenHash r = hashToken svc token \<and>
      r_UsedAt r \<noteq> None \<and> s_ID s = r_SessionID r \<and> s_RevokedAt s = None \<and> s_AccessTokenHash s = hashToken svc (cd_AccessToken c))"
proof -
  obtain w0 a b where w0: "iw_db w0 = iw_db w" and valid: "id_validToken token ''orr_''"
    and run: "refresh_transaction svc now token a b w0 = (Inr (Refresh_Valid c), w1)"
    by (rule Refresh_takes[OF run])
  obtain r s u w2 w3 w4 ev v where r: "r \<in> set (refresh_credentials (iw_db w))" "r_TokenHash r = hashToken svc token" "r_UsedAt r = None"
    and s: "s \<in> set (sessions (iw_db w0))" "s_ID s = r_SessionID r" "s_RevokedAt s = None"
    and m: "MarkRefreshCredentialUsed (r_TokenHash r) now w0 = (Inr (), w2)"
    and t: "RotateSessionAccess (s_ID s) (hashToken svc a) (now + accessLifetime svc) now w2 = (Inr (), w3)"
    and n: "CreateRefreshCredential v w3 = (Inr (), w4)"
    and e: "IdAppendAuditEvent ev w4 = (Inr (), w1)" and c: "cd_AccessToken c = a"
    by (rule refresh_valid_steps[OF run]) (simp add: w0)
  have "r\<lparr>r_UsedAt := Some now\<rparr> \<in> set (refresh_credentials (iw_db w2))"
    using m r map_updated[of r "refresh_credentials (iw_db w)"]
    by (auto simp: MarkRefreshCredentialUsed_def Let_def runs one_row_Inr w0 dest!: update_rowsD)
  then have "r\<lparr>r_UsedAt := Some now\<rparr> \<in> set (refresh_credentials (iw_db w1))"
    using t n e by (auto simp: RotateSessionAccess_def Let_def CreateRefreshCredential_def IdAppendAuditEvent_def runs create_row_Inr split: if_splits)
  moreover have "\<exists>q \<in> set (sessions (iw_db w1)). s_ID q = s_ID s \<and> s_RevokedAt q = None \<and> s_AccessTokenHash q = hashToken svc a"
    using refresh_renews[OF s(1,3) m t n e] by blast
  ultimately show ?thesis
    using valid r(2) s(2) c by (intro conjI bexI[of _ "r\<lparr>r_UsedAt := Some now\<rparr>"]) auto
qed

text \<open>
  C24: a refresh token is exchanged once.  Presenting it again, however much later, is refused, and leaves
  the session the first exchange renewed revoked.  (Each request draws two tokens first, hence the 64 bytes.)
\<close>

theorem refresh_token_single_use:
  assumes "id_reachable svc t w" and run: "Refresh svc now token w = (Inr c, w1)" and later: "id_runs svc (now, w1) (now', w')"
    and bytes: "64 \<le> length (iw_random w')"
  shows "\<exists>s \<in> set (sessions (iw_db w1)). \<exists>w2. s_AccessTokenHash s = hashToken svc (cd_AccessToken c) \<and>
    Refresh svc now' token w' = (Inl IdInvalidRefresh, w2) \<and>
    (\<forall>q \<in> set (sessions (iw_db w2)). s_ID q = s_ID s \<longrightarrow> s_RevokedAt q \<noteq> None)"
proof -
  note inv = id_reachable_inv[OF assms(1)]
  have inv1: "id_inv (iw_db w1)"
    using Refresh_leaves[of w svc now token] inv by (auto simp: run id_leaves_def dest: id_good_inv)
  have inv': "id_inv (iw_db w')" using id_runs_good[OF later inv1] by (simp add: id_good_def)
  note ev = id_runs_evolves[OF later inv1]
  obtain r s where valid: "id_validToken token ''orr_''"
    and r: "r \<in> set (refresh_credentials (iw_db w1))" "r_TokenHash r = hashToken svc token" "r_UsedAt r \<noteq> None"
    and s: "s \<in> set (sessions (iw_db w1))" "s_ID s = r_SessionID r" "s_AccessTokenHash s = hashToken svc (cd_AccessToken c)"
    using Refresh_exchanges[OF run inv] by blast
  obtain s' where s': "s' \<in> set (sessions (iw_db w'))" "s_ID s' = s_ID s"
    using evolved_session[OF ev s(1)] by (auto simp: session_le_def)
  show ?thesis
    using reused_refresh[OF inv' used_refresh_final[OF ev r(1,3)] r(2,3) s'(1) _ valid bytes, of now'] s s' by auto
qed

theorem refresh_token_single_use_witness:
  "fst (Refresh ex_id_service 3 (ex_token ''orr_'' (CHR ''B'')) (ex_id_world ex_id_db3 (CHR ''D'') ex_mails)) = Inl IdInvalidRefresh"
proof -
  let ?w1 = "(ex_id_world ex_id_db3 (CHR ''C'') ex_mails)\<lparr>iw_random := ex_bytes 36 (CHR ''C'')\<rparr>"
  have "id_step ex_id_service (3, ?w1) (3, ?w1\<lparr>iw_random := ex_bytes 100 (CHR ''D''), iw_salts := ex_bytes 16 (CHR ''D'')\<rparr>)"
    by (rule arrival) simp
  then have "id_runs ex_id_service (3, ?w1) (3, ex_id_world ex_id_db3 (CHR ''D'') ex_mails)"
    by (simp add: id_runs_def ex_id_world_def)
  from refresh_token_single_use[OF ex_id_reachable(3) ex_refresh_run this] show ?thesis by auto
qed

section \<open>Sessions that ended\<close>

lemma revoked_never_authenticates:
  assumes "id_inv (iw_db w)" and "s \<in> set (sessions (iw_db w))" "s_RevokedAt s \<noteq> None"
  shows "AuthenticateAccess svc now token w = (Inr p, w2) \<Longrightarrow> ap_SessionID p \<noteq> s_ID s"
    and "fst (AuthorizeSession now u (s_ID s) w) = Inl IdUnauthorized"
proof -
  have dead: "\<And>q. q \<in> set (sessions (iw_db w)) \<Longrightarrow> s_ID q = s_ID s \<Longrightarrow> s_RevokedAt q \<noteq> None"
    using same_session[OF assms(1)] assms(2,3) by metis
  then show "AuthenticateAccess svc now token w = (Inr p, w2) \<Longrightarrow> ap_SessionID p \<noteq> s_ID s"
    by (fastforce simp: AuthenticateAccess_def runs dest!: principal_row)
  have "filter (\<lambda>(v, q). ac_ID v = s_UserID q \<and> s_ID q = s_ID s \<and> s_UserID q = u \<and> s_RevokedAt q = None \<and>
      now < s_AccessTokenExpiresAt q \<and> ac_Status v = AccountStatusActive) (List.product (users (iw_db w)) (sessions (iw_db w))) = []"
    using dead by (auto simp: filter_empty_conv)
  then show "fst (AuthorizeSession now u (s_ID s) w) = Inl IdUnauthorized"
    by (simp add: AuthorizeSession_def fail_def on_error_def ActiveSessionByID_def id_query_def)
qed

lemma revoked_never_refreshes:
  assumes inv: "id_inv (iw_db w)" and s: "s \<in> set (sessions (iw_db w))" "s_RevokedAt s \<noteq> None"
    and r: "r \<in> set (refresh_credentials (iw_db w))" "r_TokenHash r = hashToken svc token" "r_SessionID r = s_ID s"
  shows "fst (Refresh svc now token w) \<noteq> Inr c"
proof
  assume "fst (Refresh svc now token w) = Inr c"
  then have "Refresh svc now token w = (Inr c, snd (Refresh svc now token w))" by (simp add: prod_eq_iff)
  then obtain a b w0 where w0: "iw_db w0 = iw_db w"
    and run: "refresh_transaction svc now token a b w0 = (Inr (Refresh_Valid c), snd (Refresh svc now token w))"
    by (rule Refresh_takes)
  obtain q p where q: "q \<in> set (refresh_credentials (iw_db w))" "r_TokenHash q = hashToken svc token"
    and p: "p \<in> set (sessions (iw_db w))" "s_ID p = r_SessionID q" "s_RevokedAt p = None"
    by (rule refresh_valid_steps[OF run]) (simp add: w0)
  have "q = r" using refresh_table.wf_key[OF id_invD(4)[OF inv] q(1) r(1)] q(2) r(2) by simp
  then have "p = s" using same_session[OF inv p(1) s(1)] p(2) r(3) by simp
  then show False using p(3) s(2) by simp
qed

text \<open>
  C25: signing out ends the session for good.  From then on no access token authenticates it, no refresh
  token of it is exchanged (neither the one it was signed out with nor any other), its holder is refused by
  the check the relay uses, and it was announced to the relay exactly when this call ended it.
\<close>

theorem logout_is_final:
  assumes "id_reachable svc t w" and run: "Logout svc now token w = (Inr (), w1)"
    and valid: "id_validToken token ''orr_''" and r: "r \<in> set (refresh_credentials (iw_db w))" "r_TokenHash r = hashToken svc token"
    and later: "id_runs svc (now, w1) (now', w')"
  shows "(\<forall>access p w2. AuthenticateAccess svc now' access w' = (Inr p, w2) \<longrightarrow> ap_SessionID p \<noteq> r_SessionID r) \<and>
    (\<forall>c. fst (Refresh svc now' token w') \<noteq> Inr c) \<and>
    (\<forall>refresh c. \<forall>q \<in> set (refresh_credentials (iw_db w')).
       r_TokenHash q = hashToken svc refresh \<and> r_SessionID q = r_SessionID r \<longrightarrow> fst (Refresh svc now' refresh w') \<noteq> Inr c) \<and>
    (\<forall>u. fst (AuthorizeSession now' u (r_SessionID r) w') = Inl IdUnauthorized) \<and>
    (\<exists>s \<in> set (sessions (iw_db w)). s_ID s = r_SessionID r \<and>
       iw_revoked w1 = iw_revoked w @ (if s_RevokedAt s = None then [(s_UserID s, s_ID s, False)] else []))"
proof -
  note inv = id_reachable_inv[OF assms(1)]
  have inv1: "id_inv (iw_db w1)" and ev1: "id_evolves (iw_db w) (iw_db w1)"
    using Logout_leaves[of w svc now token] inv by (auto simp: run id_leaves_def id_good_def id_evolves_refl)
  have inv': "id_inv (iw_db w')" using id_runs_good[OF later inv1] by (simp add: id_good_def)
  note ev = id_runs_evolves[OF later inv1]
  obtain s where s: "s \<in> set (sessions (iw_db w))" "s_ID s = r_SessionID r"
    using inv r(1) by (auto simp: id_inv_def refresh_grounded_def)
  have found: "first_row r_TokenHash (\<lambda>q. r_TokenHash q = hashToken svc token) (refresh_credentials (iw_db w)) = Inr r"
    "first_row s_ID (\<lambda>q. s_ID q = r_SessionID r) (sessions (iw_db w)) = Inr s"
    using find_refresh[OF inv r(1)] find_session[OF inv s(1)] r(2) s(2) by simp_all
  have ended: "(\<exists>q \<in> set (sessions (iw_db w1)). s_ID q = s_ID s \<and> s_RevokedAt q \<noteq> None) \<and>
    iw_revoked w1 = iw_revoked w @ (if s_RevokedAt s = None then [(s_UserID s, s_ID s, False)] else [])"
  proof (cases "s_RevokedAt s = None")
    case True
    let ?sessions = "map (end_session (s_ID s) now) (sessions (iw_db w))"
    let ?w1 = "w\<lparr>iw_db := (iw_db w)\<lparr>sessions := ?sessions\<rparr>\<rparr>"
    have "activated (iw_db w) (s_UserID s)" using inv s(1) by (simp add: id_inv_def)
    then have "user_row (iw_db ?w1) (s_UserID s)" by (auto simp: activated_def user_row_def)
    moreover have "session_row (iw_db ?w1) (s_ID s)" using s(1) by (auto simp: session_row_def)
    ultimately have "logout_transaction svc now token w = (Inr (Some s), ?w1\<lparr>iw_db := (iw_db ?w1)\<lparr>id_audit_events :=
        id_audit_events (iw_db ?w1) @ [auditEvent ''auth.logout_succeeded'' (s_UserID s) (s_ID s) now]\<rparr>\<rparr>)"
      using True unfolding logout_transaction_def RefreshCredentialForUpdate_def SessionForUpdate_def
      by (simp add: id_evals found run_then revoke_eval[OF inv] audit_eval)
    then have "iw_revoked w1 = iw_revoked w @ [(s_UserID s, s_ID s, False)]" and sess: "sessions (iw_db w1) = ?sessions"
      using run valid by (auto simp: Logout_def transaction_run(1) onSessionRevoked_def)
    moreover have "\<exists>q \<in> set (sessions (iw_db w1)). s_ID q = s_ID s \<and> s_RevokedAt q \<noteq> None"
      unfolding sess using s(1) end_session_ends[of s] by (intro bexI[of _ "end_session (s_ID s) now s"]) auto
    ultimately show ?thesis using True by simp
  next
    case False
    then have "logout_transaction svc now token w = (Inr None, w)"
      unfolding logout_transaction_def RefreshCredentialForUpdate_def SessionForUpdate_def
      by (auto simp: id_evals found)
    then have "w1 = w" using run valid by (simp add: Logout_def transaction_run(1) ret_def)
    then show ?thesis using False s(1) by auto
  qed
  obtain q where q: "q \<in> set (sessions (iw_db w1))" "s_ID q = s_ID s" "s_RevokedAt q \<noteq> None" using ended by blast
  note final = revoked_session_final[OF ev q(1,3)]
  note dead = revoked_never_authenticates[OF inv' final q(3), unfolded q(2) s(2)]
  note unrefreshed = revoked_never_refreshes[OF inv' final q(3), unfolded q(2) s(2)]
  obtain r' where "r' \<in> set (refresh_credentials (iw_db w'))" "refresh_le r r'"
    using evolved_refresh[OF id_evolves_trans[OF ev1 ev] r(1)] by blast
  then have "fst (Refresh svc now' token w') \<noteq> Inr c" for c
    using unrefreshed[of r' svc token] r(2) by (simp add: refresh_le_def)
  then show ?thesis using dead unrefreshed ended s by blast
qed

theorem logout_is_final_witness:
  "fst (AuthorizeSession 4 (ex_id ''usr_'' (CHR ''A'')) (ex_id ''asn_'' (CHR ''B''))
     (snd (Logout ex_id_service 4 (ex_token ''orr_'' (CHR ''C'')) (ex_id_world ex_id_db3 (CHR ''A'') ex_mails)))) = Inl IdUnauthorized"
proof -
  let ?w1 = "(ex_id_world ex_id_db4 (CHR ''A'') ex_mails)\<lparr>iw_revoked := [(ex_id ''usr_'' (CHR ''A''), ex_id ''asn_'' (CHR ''B''), False)]\<rparr>"
  have r: "ex_refresh (CHR ''C'') 3 None \<in> set (refresh_credentials (iw_db (ex_id_world ex_id_db3 (CHR ''A'') ex_mails)))"
    by (simp add: ex_id_db3_def)
  have h: "r_TokenHash (ex_refresh (CHR ''C'') 3 None) = hashToken ex_id_service (ex_token ''orr_'' (CHR ''C''))"
    by (simp add: hashToken_def)
  have "id_runs ex_id_service (4, ?w1) (4, ?w1)" by (simp add: id_runs_def)
  from logout_is_final[OF ex_id_reachable(4) ex_logout_run ex_tokens_valid(1) r h this] show ?thesis
    by (simp add: ex_logout_run)
qed

section \<open>The invariant\<close>

lemma distinct_columns:
  assumes "id_schema_ok db"
  shows "distinct (map ac_ID (users db))" "distinct (map u_NormalizedEmail (users db))"
    "distinct (map s_ID (sessions db))" "distinct (map s_AccessTokenHash (sessions db))"
    "distinct (map r_TokenHash (refresh_credentials db))"
    "distinct (map (\<lambda>f. (fi_Provider f, fi_Subject f)) (federated_identities db))"
    "distinct (map (\<lambda>f. (fi_Provider f, fi_UserID f)) (federated_identities db))"
    "distinct (map e_UserID (email_verifications db))" "distinct (map e_TicketHash (email_verifications db))"
  using assms unfolding id_schema_ok_def
  by (auto intro!: rows_ok_distinct simp: user_clash_def session_clash_def refresh_clash_def federated_clash_def
    federated_key_def verification_clash_def)

text \<open>
  C26: the identity module's records fit together in every reachable state.  Account identifiers and addresses,
  session identifiers and access tokens, refresh tokens, Google subjects and tickets are each unique; every
  session and every Google identity belongs to an account, and a session to one that has left the pending state;
  a mailed code belongs to an account and an account has at most one; a refresh token belongs to a session, ends
  when it does, and at most one of a session is unused; and a mailed code takes at most eight guesses and lives
  less than ten and a half minutes (ten, and the half minute within which a sign-in prolongs it once more).
\<close>

theorem identity_invariant:
  assumes "id_reachable svc t w"
  shows "distinct (map ac_ID (users (iw_db w))) \<and> distinct (map u_NormalizedEmail (users (iw_db w))) \<and>
    distinct (map s_ID (sessions (iw_db w))) \<and> distinct (map s_AccessTokenHash (sessions (iw_db w))) \<and>
    distinct (map r_TokenHash (refresh_credentials (iw_db w))) \<and>
    distinct (map (\<lambda>f. (fi_Provider f, fi_Subject f)) (federated_identities (iw_db w))) \<and>
    distinct (map (\<lambda>f. (fi_Provider f, fi_UserID f)) (federated_identities (iw_db w))) \<and>
    distinct (map e_UserID (email_verifications (iw_db w))) \<and> distinct (map e_TicketHash (email_verifications (iw_db w))) \<and>
    (\<forall>f \<in> set (federated_identities (iw_db w)). \<exists>u \<in> set (users (iw_db w)). ac_ID u = fi_UserID f) \<and>
    (\<forall>e \<in> set (email_verifications (iw_db w)). \<exists>u \<in> set (users (iw_db w)). ac_ID u = e_UserID e) \<and>
    (\<forall>s \<in> set (sessions (iw_db w)). \<exists>u \<in> set (users (iw_db w)).
      ac_ID u = s_UserID s \<and> ac_Status u \<noteq> AccountStatusPending) \<and>
    (\<forall>r \<in> set (refresh_credentials (iw_db w)). \<exists>s \<in> set (sessions (iw_db w)).
      s_ID s = r_SessionID r \<and> s_RefreshExpiresAt s = r_ExpiresAt r) \<and>
    (\<forall>r \<in> set (refresh_credentials (iw_db w)). \<forall>q \<in> set (refresh_credentials (iw_db w)).
      r_SessionID r = r_SessionID q \<longrightarrow> r_UsedAt r = None \<longrightarrow> r_UsedAt q = None \<longrightarrow> r = q) \<and>
    (\<forall>e \<in> set (email_verifications (iw_db w)). 0 \<le> e_Attempts e \<and> e_Attempts e \<le> 8 \<and>
      e_ExpiresAt e < e_CreatedAt e + 630 * second)"
proof -
  note inv = id_reachable_inv[OF assms]
  have ok: "id_schema_ok (iw_db w)" using inv by (simp add: id_inv_def)
  let ?db = "iw_db w"
  have owners: "\<forall>f \<in> set (federated_identities ?db). \<exists>u \<in> set (users ?db). ac_ID u = fi_UserID f"
    "\<forall>e \<in> set (email_verifications ?db). \<exists>u \<in> set (users ?db). ac_ID u = e_UserID e"
    using ok unfolding id_schema_ok_def user_row_def by blast+
  have sessions: "\<forall>s \<in> set (sessions ?db). \<exists>u \<in> set (users ?db). ac_ID u = s_UserID s \<and> ac_Status u \<noteq> AccountStatusPending"
    "\<forall>r \<in> set (refresh_credentials ?db). \<exists>s \<in> set (sessions ?db). s_ID s = r_SessionID r \<and> s_RefreshExpiresAt s = r_ExpiresAt r"
    using inv unfolding id_inv_def activated_def refresh_grounded_def by blast+
  have unused: "\<forall>r \<in> set (refresh_credentials ?db). \<forall>q \<in> set (refresh_credentials ?db).
      r_SessionID r = r_SessionID q \<longrightarrow> r_UsedAt r = None \<longrightarrow> r_UsedAt q = None \<longrightarrow> r = q"
    using inv unfolding id_inv_def one_unused_def by blast
  have "code_lifetime = 630 * second"
    by (simp add: code_lifetime_def verificationCodeLifetime_def minimumResendInterval_def minute_def)
  then have bounds: "\<forall>e \<in> set (email_verifications ?db). 0 \<le> e_Attempts e \<and> e_Attempts e \<le> 8 \<and> e_ExpiresAt e < e_CreatedAt e + 630 * second"
    using inv unfolding id_inv_def verification_bounded_def maxVerificationAttempts_def by simp
  show ?thesis
    by (intro conjI distinct_columns[OF ok] owners sessions unused bounds)
qed

theorem identity_invariant_witness:
  "(\<exists>u \<in> set (users ex_id_db3). ac_ID u = ex_id ''usr_'' (CHR ''A'') \<and> ac_Status u \<noteq> AccountStatusPending)
   \<and> (\<exists>u \<in> set (users ex_id_db1). ac_ID u = e_UserID ex_verification)
   \<and> e_ExpiresAt ex_verification < e_CreatedAt ex_verification + 630 * second"
proof -
  have db: "iw_db (ex_id_world db c m) = db" for db c m by (simp add: ex_id_world_def)
  have "\<forall>s \<in> set (sessions ex_id_db3). \<exists>u \<in> set (users ex_id_db3). ac_ID u = s_UserID s \<and> ac_Status u \<noteq> AccountStatusPending"
    using identity_invariant[OF ex_id_reachable(4)] unfolding db by (elim conjE) assumption
  moreover have "\<forall>e \<in> set (email_verifications ex_id_db1). \<exists>u \<in> set (users ex_id_db1). ac_ID u = e_UserID e"
    "\<forall>e \<in> set (email_verifications ex_id_db1). 0 \<le> e_Attempts e \<and> e_Attempts e \<le> 8 \<and> e_ExpiresAt e < e_CreatedAt e + 630 * second"
    using identity_invariant[OF ex_id_reachable(2)] unfolding db by - (elim conjE, assumption)+
  moreover have "ex_session (CHR ''C'') 3 None \<in> set (sessions ex_id_db3)" "s_UserID (ex_session (CHR ''C'') 3 None) = ex_id ''usr_'' (CHR ''A'')"
    "ex_verification \<in> set (email_verifications ex_id_db1)"
    by (simp_all add: ex_id_db3_def ex_id_db1_def ex_session_def)
  ultimately show ?thesis by metis
qed

end
