(* ===== verification/Id_Codes.thy ===== *)
theory Id_Codes
  imports Id_Sessions
begin

text \<open>
  Verification codes: each six-digit code is drawn with the same probability, a code takes at most eight
  wrong guesses, and registering says nothing about whether an address is taken.
\<close>

unbundle bit_operations_syntax

section \<open>Uniform codes\<close>

lemma nat_byte_inject: "a < 256 \<Longrightarrow> b < 256 \<Longrightarrow> nat_byte a = nat_byte b \<longleftrightarrow> a = b"
  by (metis byte_nat_nat_byte)

lemma digits_inject:
  assumes "m < 10 ^ k" "n < 10 ^ k" and "\<And>i. i < k \<Longrightarrow> m div 10 ^ i mod 10 = n div 10 ^ i mod 10"
  shows "m = (n :: nat)"
  using assms
proof (induction k arbitrary: m n)
  case (Suc k)
  have "m div 10 < 10 ^ k" "n div 10 < 10 ^ k" using Suc.prems(1,2) by auto
  moreover have "m div 10 div 10 ^ i mod 10 = n div 10 div 10 ^ i mod 10" if "i < k" for i
    using Suc.prems(3)[of "Suc i"] that by (simp add: div_mult2_eq)
  ultimately have "m div 10 = n div 10" by (rule Suc.IH)
  moreover have "m mod 10 = n mod 10" using Suc.prems(3)[of 0] by simp
  ultimately show ?case by (metis div_mult_mod_eq)
qed simp

lemma six_digits_inject: "m < 1000000 \<Longrightarrow> n < 1000000 \<Longrightarrow> six_digits m = six_digits n \<longleftrightarrow> m = n"
proof
  assume less: "m < 1000000" "n < 1000000" and eq: "six_digits m = six_digits n"
  have d: "m div 10 ^ i mod 10 = n div 10 ^ i mod 10" if "i \<in> {5, 4, 3, 2, 1, 0}" for i
  proof -
    have "nat_byte (48 + m div 10 ^ i mod 10) = nat_byte (48 + n div 10 ^ i mod 10)"
      using eq that by (auto simp: six_digits_def)
    then show ?thesis by (subst (asm) nat_byte_inject) auto
  qed
  show "m = n"
  proof (rule digits_inject[of _ 6])
    fix i :: nat assume "i < 6"
    then have "i \<in> {5, 4, 3, 2, 1, 0}" by auto
    then show "m div 10 ^ i mod 10 = n div 10 ^ i mod 10" by (rule d)
  qed (use less in simp_all)
qed simp

lemma code_limit_nat: "unat code_limit = 4294000000"
  by (simp add: code_limit_def verificationCodeSpace_def)

lemma code_of_nat: "code_of w = six_digits (unat w mod 1000000)"
  by (simp add: code_of_def verificationCodeSpace_def unat_mod)

lemma accepted_draws:
  "\<forall>n < 1000000. card {drawn :: 32 word. drawn < code_limit \<and> code_of drawn = six_digits n} = 4294"
proof (intro allI impI)
  fix n :: nat assume n: "n < 1000000"
  let ?S = "{drawn :: 32 word. drawn < code_limit \<and> code_of drawn = six_digits n}"
  let ?f = "\<lambda>k. word_of_nat (k * 1000000 + n) :: 32 word"
  have u: "unat (?f k) = k * 1000000 + n" if "k < 4294" for k
    using that n by (simp only: unsigned_of_nat take_bit_eq_mod) simp
  have inj: "inj_on ?f {..<4294}"
    by (rule inj_onI) (metis u add_right_cancel lessThan_iff mult_right_cancel zero_neq_numeral)
  have image: "?f ` {..<4294} = ?S"
  proof (intro equalityI subsetI)
    fix w assume "w \<in> ?f ` {..<4294}"
    then obtain k where k: "k < 4294" "w = ?f k" by blast
    have "unat w = k * 1000000 + n" unfolding k(2) by (rule u[OF k(1)])
    then show "w \<in> ?S" using n k(1) by (simp add: word_less_nat_alt code_limit_nat code_of_nat)
  next
    fix w :: "32 word" assume "w \<in> ?S"
    then have w: "unat w < 4294000000" "unat w mod 1000000 = n"
      using n six_digits_inject[of "unat w mod 1000000" n] by (simp_all add: word_less_nat_alt code_limit_nat code_of_nat)
    then have "unat w = (unat w div 1000000) * 1000000 + n" by (metis div_mult_mod_eq)
    moreover have k: "unat w div 1000000 < 4294" using w(1) by simp
    ultimately have "unat w = unat (?f (unat w div 1000000))" using u[OF k] by metis
    then have "w = ?f (unat w div 1000000)" by (rule unsigned_word_eqI)
    moreover note k
    ultimately show "w \<in> ?f ` {..<4294}" by blast
  qed
  show "card ?S = 4294"
    using card_image[OF inj] by (simp only: image card_lessThan)
qed


text \<open>Four bytes are one 32-bit value.\<close>

lemma unat_word_byte: "b < 256 \<Longrightarrow> k \<le> 24 \<Longrightarrow> unat (push_bit k (word_of_nat b :: 32 word)) = push_bit k b"
proof -
  assume b: "b < 256" "k \<le> 24"
  then have "(2::nat) ^ k \<le> 2 ^ 24" by (intro power_increasing) auto
  then have "b * 2 ^ k \<le> 255 * 2 ^ 24" using b by (intro mult_mono) auto
  then have "push_bit k b < 2 ^ 32" by (simp add: push_bit_eq_mult)
  then show ?thesis using b by (simp add: unsigned_push_bit_eq unsigned_of_nat take_bit_nat_eq_self)
qed

lemma length_4E: "length bs = 4 \<Longrightarrow> \<exists>a b c d. bs = [a, b, c, d]"
  by (auto simp: numeral_eq_Suc length_Suc_conv)

lemma unat_Uint32:
  "unat (BigEndian_Uint32 [a, b, c, d]) = ((byte_nat a * 256 + byte_nat b) * 256 + byte_nat c) * 256 + byte_nat d"
proof -
  let ?a = "byte_nat a" and ?b = "byte_nat b" and ?c = "byte_nat c" and ?d = "byte_nat d"
  have less: "byte_nat x \<le> 255" for x using byte_nat_less[of x] by linarith
  have "unat (word_of_nat ?d :: 32 word) = ?d" using unat_word_byte[of ?d 0] by simp
  moreover have "push_bit 8 ?c OR ?d = ?c * 2 ^ 8 + ?d" by (intro or_low) simp
  moreover have "push_bit 16 ?b OR (?c * 2 ^ 8 + ?d) = ?b * 2 ^ 16 + (?c * 2 ^ 8 + ?d)"
    using less[of c] less[of d] by (intro or_low) simp
  moreover have "push_bit 24 ?a OR (?b * 2 ^ 16 + (?c * 2 ^ 8 + ?d)) = ?a * 2 ^ 24 + (?b * 2 ^ 16 + (?c * 2 ^ 8 + ?d))"
    using less[of b] less[of c] less[of d] by (intro or_low) simp
  moreover have "BigEndian_Uint32 [a, b, c, d] = push_bit 24 (word_of_nat ?a) OR (push_bit 16 (word_of_nat ?b) OR
      (push_bit 8 (word_of_nat ?c) OR word_of_nat ?d))"
    by (simp add: BigEndian_Uint32_def or.commute or.left_commute)
  ultimately show ?thesis by (simp only: unsigned_or_eq unat_word_byte byte_nat_less) simp
qed

lemma Uint32_bij: "bij_betw BigEndian_Uint32 {bs :: bytes. length bs = 4} UNIV"
proof -
  have inj: "inj_on BigEndian_Uint32 {bs :: bytes. length bs = 4}"
  proof (rule inj_onI)
    fix x y :: bytes assume "x \<in> {bs. length bs = 4}" "y \<in> {bs. length bs = 4}" and eq: "BigEndian_Uint32 x = BigEndian_Uint32 y"
    then obtain a b c d a' b' c' d' where xy: "x = [a, b, c, d]" "y = [a', b', c', d']"
      using length_4E[of x] length_4E[of y] by auto
    note eq[THEN arg_cong[of _ _ unat], unfolded xy unat_Uint32]
    then show "x = y" unfolding xy using radix_256 by (metis byte_nat_inject byte_nat_less)
  qed
  have "card {bs :: bytes. length bs = 4} = 256 ^ 4"
    using card_lists_length_eq[of "UNIV :: char set" 4] by (simp add: card_UNIV_char)
  then have "card (BigEndian_Uint32 ` {bs :: bytes. length bs = 4}) = card (UNIV :: 32 word set)"
    by (simp add: card_image[OF inj] card_word)
  then have "BigEndian_Uint32 ` {bs :: bytes. length bs = 4} = UNIV" by (intro card_subset_eq) auto
  then show ?thesis using inj by (simp add: bij_betw_def)
qed

lemma card_draws: "card {bs :: bytes. length bs = 4 \<and> P (BigEndian_Uint32 bs)} = card {drawn. P drawn}"
proof -
  have "bij_betw BigEndian_Uint32 {bs :: bytes. length bs = 4 \<and> P (BigEndian_Uint32 bs)} {drawn. P drawn}"
    using bij_betw_subset[OF Uint32_bij, of "{bs. length bs = 4 \<and> P (BigEndian_Uint32 bs)}" "{drawn. P drawn}"]
      Uint32_bij by (force simp: bij_betw_def)
  then show ?thesis by (rule bij_betw_same_card)
qed

lemma card_rejected: "card {drawn :: 32 word. \<not> drawn < code_limit} = 967296"
proof -
  have "{drawn :: 32 word. drawn < code_limit} = word_of_nat ` {..<4294000000}"
  proof (intro equalityI subsetI)
    fix w :: "32 word" assume "w \<in> {drawn. drawn < code_limit}"
    then have "unat w < 4294000000" by (simp add: word_less_nat_alt code_limit_nat)
    then show "w \<in> word_of_nat ` {..<4294000000}" by (intro image_eqI[of _ _ "unat w"]) simp_all
  next
    fix w :: "32 word" assume "w \<in> word_of_nat ` {..<4294000000}"
    then obtain k where k: "k < 4294000000" "w = word_of_nat k" by blast
    then have "unat w = k" by (simp add: unsigned_of_nat take_bit_nat_eq_self)
    then show "w \<in> {drawn. drawn < code_limit}" using k(1) by (simp add: word_less_nat_alt code_limit_nat)
  qed
  moreover have "inj_on (word_of_nat :: nat \<Rightarrow> 32 word) {..<4294000000}"
    by (rule inj_on_inverseI[of _ unat]) (simp add: unsigned_of_nat take_bit_nat_eq_self)
  ultimately have "card {drawn :: 32 word. drawn < code_limit} = 4294000000" by (simp add: card_image)
  moreover have "card (UNIV :: 32 word set) = 4294967296" by (simp add: card_word)
  moreover have "{drawn :: 32 word. \<not> drawn < code_limit} = UNIV - {drawn. drawn < code_limit}" by auto
  ultimately show ?thesis by (simp add: card_Diff_subset)
qed

text \<open>One round, on a source that starts with four bytes.\<close>

lemma code_round:
  assumes "length a = 4"
  shows "fst (code_rounds (Suc k) (w\<lparr>iw_random := a @ b\<rparr>)) =
    (if BigEndian_Uint32 a < code_limit then Inr (code_of (BigEndian_Uint32 a)) else fst (code_rounds k (w\<lparr>iw_random := b\<rparr>)))"
  using assms by (simp add: seq_def id_draw_def ReadFull_def ret_def Let_def)

definition streams_for :: "id_world \<Rightarrow> nat \<Rightarrow> id_error + string \<Rightarrow> bytes set" where
  "streams_for w k r = {bs. length bs = 4 * k \<and> fst (code_rounds k (w\<lparr>iw_random := bs\<rparr>)) = r}"

lemma finite_lists: "finite {bs :: bytes. length bs = m \<and> P bs}"
  by (rule finite_subset[OF _ finite_lists_length_eq[of UNIV m]]) auto

lemma streams_Suc:
  "streams_for w (Suc k) r = (\<lambda>(a, b). a @ b) `
     ({a. length a = 4 \<and> BigEndian_Uint32 a < code_limit \<and> Inr (code_of (BigEndian_Uint32 a)) = r} \<times> {b. length b = 4 * k}
      \<union> {a. length a = 4 \<and> \<not> BigEndian_Uint32 a < code_limit} \<times> streams_for w k r)" (is "?l = ?f ` ?r")
proof (intro equalityI subsetI)
  fix bs assume bs: "bs \<in> ?l"
  let ?a = "take 4 bs" and ?b = "drop 4 bs"
  have len: "length ?a = 4" "length ?b = 4 * k" using bs by (simp_all add: streams_for_def)
  have "fst (code_rounds (Suc k) (w\<lparr>iw_random := ?a @ ?b\<rparr>)) = r" using bs by (simp only: append_take_drop_id) (simp only: streams_for_def mem_Collect_eq)
  then have "(?a, ?b) \<in> ?r" using len unfolding code_round[OF len(1)] by (auto simp: streams_for_def split: if_splits)
  then show "bs \<in> ?f ` ?r" by (rule rev_image_eqI) simp
next
  fix bs assume "bs \<in> ?f ` ?r"
  then obtain a b where ab: "bs = a @ b" "(a, b) \<in> ?r" by auto
  then have "length a = 4" by auto
  then show "bs \<in> ?l" using ab(2) unfolding ab(1) streams_for_def mem_Collect_eq code_round[OF \<open>length a = 4\<close>]
    by (auto simp: streams_for_def)
qed

lemma card_streams_Suc:
  "card (streams_for w (Suc k) r) =
     card {drawn. drawn < code_limit \<and> Inr (code_of drawn) = r} * 256 ^ (4 * k) + 967296 * card (streams_for w k r)"
proof -
  let ?A = "{a :: bytes. length a = 4 \<and> BigEndian_Uint32 a < code_limit \<and> Inr (code_of (BigEndian_Uint32 a)) = r}"
  let ?B = "{b :: bytes. length b = 4 * k}" and ?C = "{a :: bytes. length a = 4 \<and> \<not> BigEndian_Uint32 a < code_limit}"
  have "inj_on (\<lambda>(a, b). a @ b) ({a :: bytes. length a = 4} \<times> UNIV)"
    by (rule inj_onI) clarsimp
  then have inj: "inj_on (\<lambda>(a, b). a @ b) (?A \<times> ?B \<union> ?C \<times> streams_for w k r)"
    by (rule inj_on_subset) blast
  have fin: "finite ?A" "finite ?B" "finite ?C" "finite (streams_for w k r)"
    using finite_lists[of "4 * k" "\<lambda>_. True"] by (simp_all add: finite_lists streams_for_def)
  have "card (streams_for w (Suc k) r) = card (?A \<times> ?B \<union> ?C \<times> streams_for w k r)"
    unfolding streams_Suc by (rule card_image[OF inj])
  also have "\<dots> = card ?A * card ?B + card ?C * card (streams_for w k r)"
    using fin by (subst card_Un_disjoint) (auto simp: card_cartesian_product)
  also have "card ?B = 256 ^ (4 * k)"
    using card_lists_length_eq[of "UNIV :: char set" "4 * k"] by (simp add: card_UNIV_char)
  also have "card ?C = 967296" using card_draws[of "\<lambda>d. \<not> d < code_limit"] card_rejected by simp
  also have "card ?A = card {drawn. drawn < code_limit \<and> Inr (code_of drawn) = r}"
    using card_draws[of "\<lambda>d. d < code_limit \<and> Inr (code_of d) = r"] by simp
  finally show ?thesis .
qed

lemma streams_counted:
  assumes "n < 1000000"
  shows "1000000 * card (streams_for w k (Inr (six_digits n))) + 967296 ^ k = 256 ^ (4 * k)"
proof (induction k)
  case 0
  have "streams_for w 0 (Inr (six_digits n)) = {}" by (auto simp: streams_for_def fail_def)
  then show ?case by simp
next
  case (Suc k)
  have "card {drawn. drawn < code_limit \<and> Inr (code_of drawn) = (Inr (six_digits n) :: id_error + string)} = 4294"
    using accepted_draws assms by simp
  then have "card (streams_for w (Suc k) (Inr (six_digits n))) =
      4294 * 256 ^ (4 * k) + 967296 * card (streams_for w k (Inr (six_digits n)))"
    by (simp only: card_streams_Suc)
  moreover have "(256 :: nat) ^ (4 * Suc k) = 4294967296 * 256 ^ (4 * k)" "(967296 :: nat) ^ Suc k = 967296 * 967296 ^ k"
    by (simp_all add: power_add)
  ultimately show ?case using Suc by linarith
qed

lemma code_is_six_digits: "code_rounds k w = (Inr c, w') \<Longrightarrow> \<exists>n < 1000000. c = six_digits n"
proof (induction k arbitrary: w)
  case (Suc k)
  obtain val v where "BigEndian_Uint32 val < code_limit \<and> c = code_of (BigEndian_Uint32 val) \<or> code_rounds k v = (Inr c, w')"
    using Suc.prems by (auto simp: seq_def Let_def ret_def split: prod.splits sum.splits if_splits)
  then show ?case
  proof
    assume "BigEndian_Uint32 val < code_limit \<and> c = code_of (BigEndian_Uint32 val)"
    then have "c = six_digits (unat (BigEndian_Uint32 val) mod 1000000)" by (simp add: code_of_nat)
    then show ?thesis by (rule exI[of _ "unat (BigEndian_Uint32 val) mod 1000000", OF conjI[rotated]]) simp
  qed (rule Suc.IH)
qed (simp add: fail_def)

text \<open>
  C27: verification codes are uniform.  Of the sources of 256 random bytes, what the sampler can draw at most,
  exactly as many lead to one code of six digits as to any other: what is left of all of them, shared among
  the million codes, once the 967296 ^ 64 in which each of the sixty-four draws is rejected are set aside;
  and no other text is ever a code.
\<close>

theorem codes_are_uniform:
  assumes "n < 1000000"
  shows "1000000 * card {bs :: bytes. length bs = 256 \<and> fst (issueVerificationCode (w\<lparr>iw_random := bs\<rparr>)) = Inr (six_digits n)}
      + 967296 ^ 64 = 256 ^ 256
    \<and> (\<forall>v c v'. issueVerificationCode v = (Inr c, v') \<longrightarrow> (\<exists>m < 1000000. c = six_digits m))"
  using streams_counted[OF assms, of w 64] code_is_six_digits[of 64]
  by (simp add: issueVerificationCode_def streams_for_def del: code_rounds.simps power_Suc)

theorem codes_are_uniform_witness:
  "1000000 * card {bs :: bytes. length bs = 256 \<and> fst (issueVerificationCode ((ex_id_world empty_id_db (CHR ''A'') [])\<lparr>iw_random := bs\<rparr>)) = Inr (six_digits 795585)}
      + 967296 ^ 64 = 256 ^ 256"
  using codes_are_uniform[of 795585] by simp

section \<open>Guessing\<close>

lemma one_match:
  assumes "sorted_wrt (\<lambda>a b. k a \<noteq> k b) rows" and "e \<in> set rows"
  shows "length (filter (\<lambda>q. k q = k e) rows) = 1"
  using assms
proof (induction rows)
  case (Cons a rows)
  show ?case
  proof (cases "k a = k e")
    case True
    then have "filter (\<lambda>q. k q = k e) rows = []" using Cons.prems(1) by (auto simp: filter_empty_conv)
    then show ?thesis using True by simp
  next
    case False
    then show ?thesis using Cons by auto
  qed
qed simp

text \<open>The database after a list of guesses with one ticket, each made at its own instant.\<close>

definition guess :: "id_service \<Rightarrow> string \<Rightarrow> instant \<times> string \<Rightarrow> id_world \<Rightarrow> id_world" where
  "guess svc ticket g w = snd (VerifyEmail svc (fst g) \<lparr> vi_Ticket = ticket, vi_Code = snd g \<rparr> w)"

definition counted :: "id_service \<Rightarrow> email_verification \<Rightarrow> instant \<times> string \<Rightarrow> bool" where
  "counted svc e g \<longleftrightarrow> fst g < e_ExpiresAt e \<and> validVerificationCode (snd g) \<and> hashToken svc (snd g) \<noteq> e_CodeHash e"

lemma find_verification:
  assumes "id_inv db" and "e \<in> set (email_verifications db)"
  shows "first_row e_UserID (\<lambda>q. e_TicketHash q = e_TicketHash e) (email_verifications db) = Inr e"
  by (rule verification_table.first_row_unique[OF id_invD(5)[OF assms(1)] assms(2)]) (simp_all add: verification_clash_def)

lemma id_evals_seq:
  "seq (attempt (id_query f)) h w = (case f (iw_db w) of Inl e \<Rightarrow> h (Inl (id_translateError e)) w | Inr x \<Rightarrow> h (Inr x) w)"
  by (simp add: id_evals)

lemma spent_code_refused:
  assumes "id_inv (iw_db w)" and "e \<in> set (email_verifications (iw_db w))" "e_TicketHash e = hashToken svc ticket"
    and "maxVerificationAttempts \<le> e_Attempts e"
  shows "VerifyEmail svc now \<lparr> vi_Ticket = ticket, vi_Code = code \<rparr> w = (Inl IdInvalidVerificationCode, w)"
proof -
  have "verify_transaction svc now \<lparr> vi_Ticket = ticket, vi_Code = code \<rparr> w = (Inr None, w)"
    using find_verification[OF assms(1,2)] assms(3,4)
    by (simp add: verify_transaction_def EmailVerificationForUpdate_def id_evals)
  then show ?thesis by (simp add: VerifyEmail_def fail_def transaction_run(1))
qed

text \<open>Counting a wrong guess: the row with one more attempt, and nothing else.\<close>

lemma wrong_guess_counts:
  assumes inv: "id_inv (iw_db w)" and e: "e \<in> set (email_verifications (iw_db w))" "e_TicketHash e = hashToken svc ticket"
    and valid: "id_validToken ticket ''vft_''" and g: "counted svc e g" and left: "e_Attempts e < maxVerificationAttempts"
  shows "e\<lparr>e_Attempts := e_Attempts e + 1\<rparr> \<in> set (email_verifications (iw_db (guess svc ticket g w)))"
    and "fst (VerifyEmail svc (fst g) \<lparr> vi_Ticket = ticket, vi_Code = snd g \<rparr> w) = Inl IdInvalidVerificationCode"
proof -
  let ?p = "\<lambda>q. e_UserID q = e_UserID e" and ?f = "\<lambda>q. q\<lparr>e_Attempts := e_Attempts q + 1\<rparr>"
  let ?rows = "email_verifications (iw_db w)"
  let ?rows' = "map (\<lambda>q. if ?p q then ?f q else q) ?rows"
  note ok = id_invD(5)[OF inv]
  have "verification_valid (?f q)" if "q \<in> set ?rows" for q
    using verification_table.wf_valid[OF ok that] by (simp add: verification_valid_def)
  moreover have "\<not> verification_clash a b" if ab: "a \<in> set ?rows'" "b \<in> set ?rows'" "e_UserID a \<noteq> e_UserID b" for a b
  proof -
    obtain x y where x: "x \<in> set ?rows" "a = (if ?p x then ?f x else x)" and y: "y \<in> set ?rows" "b = (if ?p y then ?f y else y)"
      using ab(1,2) unfolding set_map by blast
    then have "verification_clash a b \<longleftrightarrow> verification_clash x y" "e_UserID a = e_UserID x" "e_UserID b = e_UserID y"
      by (auto simp: verification_clash_def)
    then show ?thesis using verification_table.wf_unique[OF ok x(1) y(1)] ab(3) by metis
  qed
  ultimately have up: "update_rows e_UserID verification_clash verification_valid ?p ?f ?rows = Inr ?rows'"
    unfolding update_rows_Inr by blast
  have one: "length (filter ?p ?rows) = 1"
    using ok e(1) verification_table.clash_key
    by (intro one_match) (auto simp: rows_ok_def elim: sorted_wrt_mono_rel[rotated])
  have inc: "IncrementEmailVerificationAttempts (e_UserID e) w = (Inr (), w\<lparr>iw_db := (iw_db w)\<lparr>email_verifications := ?rows'\<rparr>\<rparr>)"
    by (simp add: IncrementEmailVerificationAttempts_def store_run one_row_def up one)
  have "verify_transaction svc (fst g) \<lparr> vi_Ticket = ticket, vi_Code = snd g \<rparr> w =
      (Inr None, w\<lparr>iw_db := (iw_db w)\<lparr>email_verifications := ?rows'\<rparr>\<rparr>)"
    using find_verification[OF inv e(1)] e(2) g left
    by (auto simp: verify_transaction_def EmailVerificationForUpdate_def id_evals counted_def hmac_Equal_def run_then inc)
  then have run: "VerifyEmail svc (fst g) \<lparr> vi_Ticket = ticket, vi_Code = snd g \<rparr> w =
      (Inl IdInvalidVerificationCode, w\<lparr>iw_db := (iw_db w)\<lparr>email_verifications := ?rows'\<rparr>\<rparr>)"
    using valid g by (simp add: VerifyEmail_def fail_def transaction_run(1) counted_def)
  show "fst (VerifyEmail svc (fst g) \<lparr> vi_Ticket = ticket, vi_Code = snd g \<rparr> w) = Inl IdInvalidVerificationCode"
    by (simp add: run)
  show "?f e \<in> set (email_verifications (iw_db (guess svc ticket g w)))"
    using map_updated[OF e(1), of ?p ?f] by (simp add: guess_def run)
qed

lemma guess_inv: "id_inv (iw_db w) \<Longrightarrow> id_inv (iw_db (guess svc ticket g w))"
  using VerifyEmail_leaves[of w svc "fst g" "\<lparr> vi_Ticket = ticket, vi_Code = snd g \<rparr>"]
  by (auto simp: guess_def id_leaves_def dest: id_good_inv)

lemma guesses_run_out:
  assumes "id_inv (iw_db w)" and "e \<in> set (email_verifications (iw_db w))" "e_TicketHash e = hashToken svc ticket"
    and "id_validToken ticket ''vft_''" and "\<forall>g \<in> set gs. counted svc e g"
    and "maxVerificationAttempts \<le> e_Attempts e + int (length gs)"
  shows "VerifyEmail svc now \<lparr> vi_Ticket = ticket, vi_Code = code \<rparr> (fold (guess svc ticket) gs w) =
    (Inl IdInvalidVerificationCode, fold (guess svc ticket) gs w)"
  using assms
proof (induction gs arbitrary: w e)
  case Nil
  then show ?case using spent_code_refused[OF Nil(1-3)] by simp
next
  case (Cons g gs)
  show ?case
  proof (cases "maxVerificationAttempts \<le> e_Attempts e")
    case True
    have "guess svc ticket g' w = w" for g'
      using spent_code_refused[OF Cons.prems(1-3) True] by (simp add: guess_def)
    then have "fold (guess svc ticket) gs' w = w" for gs' by (induction gs') simp_all
    then show ?thesis using spent_code_refused[OF Cons.prems(1-3) True] by metis
  next
    case False
    let ?e = "e\<lparr>e_Attempts := e_Attempts e + 1\<rparr>"
    have "?e \<in> set (email_verifications (iw_db (guess svc ticket g w)))"
      using wrong_guess_counts(1)[OF Cons.prems(1-4)] Cons.prems(5) False by simp
    then have "VerifyEmail svc now \<lparr> vi_Ticket = ticket, vi_Code = code \<rparr> (fold (guess svc ticket) gs (guess svc ticket g w)) =
      (Inl IdInvalidVerificationCode, fold (guess svc ticket) gs (guess svc ticket g w))"
      using Cons.prems by (intro Cons.IH[of "guess svc ticket g w" ?e] guess_inv) (auto simp: counted_def)
    then show ?thesis by simp
  qed
qed

text \<open>
  C28: a mailed code takes eight wrong guesses.  After them every further guess with its ticket is refused,
  the right code included, and changes nothing.
\<close>

theorem code_guesses_run_out:
  assumes "id_reachable svc t w" and "e \<in> set (email_verifications (iw_db w))" "e_TicketHash e = hashToken svc ticket"
    and "id_validToken ticket ''vft_''"
    and "\<forall>g \<in> set gs. fst g < e_ExpiresAt e \<and> validVerificationCode (snd g) \<and> hashToken svc (snd g) \<noteq> e_CodeHash e"
    and "8 \<le> length gs"
  shows "VerifyEmail svc now \<lparr> vi_Ticket = ticket, vi_Code = code \<rparr> (fold (guess svc ticket) gs w) =
    (Inl IdInvalidVerificationCode, fold (guess svc ticket) gs w)"
proof -
  note inv = id_reachable_inv[OF assms(1)]
  have "0 \<le> e_Attempts e" using verification_row[OF inv assms(2)] by (simp add: verification_bounded_def)
  then show ?thesis
    using assms(6) guesses_run_out[OF inv assms(2-4)] assms(5) by (simp add: counted_def maxVerificationAttempts_def)
qed

definition ex_guesses :: "(instant \<times> string) list" where
  "ex_guesses = map (\<lambda>c. (2, [c, c, c, c, c, c])) ''01234567''"

theorem code_guesses_run_out_witness:
  "fst (VerifyEmail ex_id_service 3 ex_verify
     (fold (guess ex_id_service (ex_token ''vft_'' (CHR ''A''))) ex_guesses (ex_id_world ex_id_db1 (CHR ''B'') ex_mails))) =
   Inl IdInvalidVerificationCode"
proof -
  have e: "ex_verification \<in> set (email_verifications (iw_db (ex_id_world ex_id_db1 (CHR ''B'') ex_mails)))"
    by (simp add: ex_id_db1_def)
  have h: "e_TicketHash ex_verification = hashToken ex_id_service (ex_token ''vft_'' (CHR ''A''))"
    by (simp add: ex_verification_def hashToken_def)
  have "list_all (\<lambda>g. fst g = 2 \<and> validVerificationCode (snd g) \<and> ex_id_sha256 (snd g) \<noteq> ex_id_sha256 ex_code) ex_guesses"
    by code_simp
  then have g: "\<forall>g \<in> set ex_guesses. fst g < e_ExpiresAt ex_verification \<and> validVerificationCode (snd g) \<and>
      hashToken ex_id_service (snd g) \<noteq> e_CodeHash ex_verification"
    by (auto simp: list_all_iff hashToken_def verificationCodeLifetime_def duration_defs)
  have "8 \<le> length ex_guesses" by (simp add: ex_guesses_def)
  from code_guesses_run_out[OF ex_id_reachable(2) e h ex_tokens_valid(1) g this, of 3 ex_code] show ?thesis
    by (simp add: ex_verify_def)
qed

section \<open>Registration\<close>

text \<open>The shape of a challenge, as far as its receiver sees it.\<close>

definition fresh_challenge :: "string \<Rightarrow> instant \<Rightarrow> verification_challenge \<Rightarrow> bool" where
  "fresh_challenge email now ch \<longleftrightarrow>
     (\<exists>i k. length i = identifierRandomLength \<and> length k = tokenRandomLength \<and>
        ch = \<lparr> vc_Account = \<lparr> ac_ID = ''usr_'' @ EncodeToString i, ac_Email = email, ac_Status = AccountStatusPending,
             ac_EmailVerifiedAt = None, ac_EmailBouncedAt = None, ac_CreatedAt = now \<rparr>,
           vc_Ticket = ''vft_'' @ EncodeToString k, vc_TicketExpiresAt = now + verificationCodeLifetime \<rparr>)"

lemma id_draw_runs [runs]:
  "id_draw n w = (Inr x, w') \<longleftrightarrow> n \<le> length (iw_random w) \<and> x = take n (iw_random w) \<and>
     w' = w\<lparr>iw_random := drop n (iw_random w)\<rparr>"
  by (auto simp: id_draw_def ReadFull_def split: prod.splits if_splits)

lemma issued:
  "id_issueToken p w = (Inr x, w') \<Longrightarrow> \<exists>k. length k = tokenRandomLength \<and> x = p @ EncodeToString k"
  "id_issueIdentifier p w = (Inr x, w') \<Longrightarrow> \<exists>k. length k = identifierRandomLength \<and> x = p @ EncodeToString k"
  by (auto simp: id_issueToken_def id_issueIdentifier_def issueRandomValue_def runs)

text \<open>Mail and the bounce flag leave sessions, tokens and codes alone.\<close>

definition sign_in_state :: "id_db \<Rightarrow> session list \<times> refresh_credential list \<times> federated_identity list" where
  "sign_in_state db = (sessions db, refresh_credentials db, federated_identities db)"

lemma bounced_state: "sign_in_state (iw_db (snd (SetEmailBounced i at w))) = sign_in_state (iw_db w)"
  by (simp add: SetEmailBounced_def id_store_def sign_in_state_def split: sum.splits)

lemma delivery_state:
  "sign_in_state (iw_db (snd (recordDelivery sent i e w))) = sign_in_state (iw_db w)"
  "recordDelivery sent i e w = (Inr x, w') \<Longrightarrow> sign_in_state (iw_db w') = sign_in_state (iw_db w)"
proof -
  show s: "sign_in_state (iw_db (snd (recordDelivery sent i e w))) = sign_in_state (iw_db w)"
    using bounced_state[of i None w] bounced_state[of i "Some sent" w]
    by (auto simp: recordDelivery_def seq_def attempt_def ret_def split: option.splits prod.splits)
  show "recordDelivery sent i e w = (Inr x, w') \<Longrightarrow> sign_in_state (iw_db w') = sign_in_state (iw_db w)"
    using s by simp
qed

lemma deliver_state:
  "deliverVerificationCode svc sent i a c w = (Inr x, w') \<Longrightarrow> sign_in_state (iw_db w') = sign_in_state (iw_db w)"
  "deliverRegistrationNotice svc sent n a w = (Inr x, w') \<Longrightarrow> sign_in_state (iw_db w') = sign_in_state (iw_db w)"
  by (auto simp: deliverVerificationCode_def deliverRegistrationNotice_def runs send_mail_def
    dest!: delivery_state(2) untouchedD[OF untouched_finds(1)])

lemma decoy_answer:
  assumes "decoyRegistration svc now sent email n w = (Inr out, w')"
  shows "\<exists>ch. out = MustVerify ch \<and> fresh_challenge email now ch \<and> sign_in_state (iw_db w') = sign_in_state (iw_db w)"
proof -
  obtain ticket i w1 w2 w3 where t: "id_issueToken ''vft_'' w = (Inr ticket, w1)" and i: "id_issueIdentifier ''usr_'' w1 = (Inr i, w2)"
    and a: "IdAppendAuditEvent (anonymousAuditEvent ''auth.registration_conflict'' now) w2 = (Inr (), w3)"
    and d: "deliverRegistrationNotice svc sent n email w3 = (Inr (), w')"
    and out: "out = MustVerify \<lparr> vc_Account = \<lparr> ac_ID = i, ac_Email = email, ac_Status = AccountStatusPending,
         ac_EmailVerifiedAt = None, ac_EmailBouncedAt = None, ac_CreatedAt = now \<rparr>,
       vc_Ticket = ticket, vc_TicketExpiresAt = now + verificationCodeLifetime \<rparr>"
    using assms by (auto simp: decoyRegistration_def runs)
  have "sign_in_state (iw_db w3) = sign_in_state (iw_db w)"
    using a untouchedD[OF untouched_values(3) t] untouchedD[OF untouched_values(2) i]
    by (auto simp: IdAppendAuditEvent_def runs sign_in_state_def anonymousAuditEvent_def)
  then show ?thesis
    using deliver_state(2)[OF d] issued(1)[OF t] issued(2)[OF i] unfolding out fresh_challenge_def by auto
qed

lemma register_transaction_state:
  "register_transaction now user record w = (Inr x, w') \<Longrightarrow> sign_in_state (iw_db w') = sign_in_state (iw_db w)"
  by (auto simp: register_transaction_def CreateUser_def CreateEmailVerification_def IdAppendAuditEvent_def runs sign_in_state_def
    split: if_splits)

lemma material_challenge:
  "newVerificationMaterial svc account c now w = (Inr m, w') \<Longrightarrow>
   \<exists>k. length k = tokenRandomLength \<and> vm_challenge m = \<lparr> vc_Account = account, vc_Ticket = ''vft_'' @ EncodeToString k,
     vc_TicketExpiresAt = now + verificationCodeLifetime \<rparr>"
  by (auto simp: newVerificationMaterial_def runs Let_def dest!: issued(1))

text \<open>What a registration that is answered returns and leaves.\<close>

lemma registration_answer:
  assumes run: "Register svc now sent input w = (Inr out, w')"
  shows "\<exists>ch. out = MustVerify ch \<and> fresh_challenge (TrimSpace (ri_Email input)) now ch \<and>
    sign_in_state (iw_db w') = sign_in_state (iw_db w)"
proof -
  let ?user = "\<lambda>i email n h. \<lparr> ac_ID = i, ac_Email = email, ac_Status = AccountStatusPending, ac_EmailVerifiedAt = None,
        ac_EmailBouncedAt = None, ac_CreatedAt = now, u_NormalizedEmail = n, u_PasswordHash = Some h \<rparr>"
  let ?tx = "\<lambda>i email n h m. register_transaction now (?user i email n h) (vm_record m)"
  have keeps: "iw_db w3 = iw_db w" if "hash_password svc p w = (Inr h, w1)" "id_issueIdentifier ''usr_'' w1 = (Inr i, w2)"
    "newVerificationMaterial svc a c now w2 = (Inr m, w3)" for p h w1 i w2 a c m w3
    using untouchedD[OF untouched_draws(2) that(1)] untouchedD[OF untouched_values(2) that(2)]
      untouchedD[OF untouched_values(6) that(3)] by simp
  have email: "email = TrimSpace (ri_Email input)" if "normalizeEmail svc (ri_Email input) = Some (email, n)" for email n
    using that by (auto simp: normalizeEmail_def Let_def split: if_splits)
  from run consider (created) email n c h i m w1 w2 w3 w4 where "normalizeEmail svc (ri_Email input) = Some (email, n)"
      "hash_password svc (ri_Password input) w = (Inr h, w1)" "id_issueIdentifier ''usr_'' w1 = (Inr i, w2)"
      "newVerificationMaterial svc (user_account (?user i email n h)) c now w2 = (Inr m, w3)"
      "?tx i email n h m w3 = (Inr (), w4)" "deliverVerificationCode svc sent i email (vm_code m) w4 = (Inr (), w')"
      "out = MustVerify (vm_challenge m)"
    | (taken) email n c h i m w1 w2 w3 w4 where "normalizeEmail svc (ri_Email input) = Some (email, n)"
      "hash_password svc (ri_Password input) w = (Inr h, w1)" "id_issueIdentifier ''usr_'' w1 = (Inr i, w2)"
      "newVerificationMaterial svc (user_account (?user i email n h)) c now w2 = (Inr m, w3)"
      "IdWithinTransaction (?tx i email n h m) w3 = (Inl IdConflict, w4)" "decoyRegistration svc now sent email n w4 = (Inr out, w')"
    unfolding Register_def Let_def by (auto simp: runs split: option.splits if_splits)
  then show ?thesis
  proof cases
    case (created email n c h i m w1 w2 w3 w4)
    have "fresh_challenge email now (vm_challenge m)"
      using material_challenge[OF created(4)] issued(2)[OF created(3)]
      by (auto simp: fresh_challenge_def user_account_def account.defs)
    then show ?thesis
      using register_transaction_state[OF created(5)] deliver_state(1)[OF created(6)] keeps[OF created(2-4)] created(7)
        email[OF created(1)] by simp
  next
    case (taken email n c h i m w1 w2 w3 w4)
    then show ?thesis
      using IdWithinTransaction_rollback[OF taken(5)] keeps[OF taken(2-4)] decoy_answer[OF taken(6)] email[OF taken(1)] by simp
  qed
qed

text \<open>What each step of a registration draws and returns.\<close>

lemma id_issueIdentifier_eval:
  "18 \<le> length (iw_random w) \<Longrightarrow>
   id_issueIdentifier p w = (Inr (p @ EncodeToString (take 18 (iw_random w))), w\<lparr>iw_random := drop 18 (iw_random w)\<rparr>)"
  by (simp add: id_issueIdentifier_def issueRandomValue_def id_draw_def ReadFull_def seq_def ret_def identifierRandomLength_def)

lemma hash_password_eval:
  "hash_password svc p w = (if 16 \<le> length (iw_salts w)
     then (Inr (id_hash_password svc p (take 16 (iw_salts w))), w\<lparr>iw_salts := drop 16 (iw_salts w)\<rparr>)
     else (Inl IdOther, w\<lparr>iw_salts := []\<rparr>))"
  by (simp add: hash_password_def ReadFull_def saltLength_def)

lemma code_rounds_eval:
  "4 * k \<le> length (iw_random w) \<Longrightarrow> \<exists>rest. code_rounds k w = (fst (code_rounds k (v\<lparr>iw_random := iw_random w\<rparr>)), w\<lparr>iw_random := rest\<rparr>)
     \<and> length (iw_random w) \<le> length rest + 4 * k"
proof (induction k arbitrary: w v)
  case 0
  show ?case by (rule exI[of _ "iw_random w"]) (simp add: fail_def)
next
  case (Suc k)
  let ?w = "w\<lparr>iw_random := drop 4 (iw_random w)\<rparr>"
  have prems: "4 * k \<le> length (iw_random ?w)" using Suc.prems by simp
  obtain rest where "code_rounds k ?w = (fst (code_rounds k (v\<lparr>iw_random := iw_random ?w\<rparr>)), ?w\<lparr>iw_random := rest\<rparr>)"
    "length (iw_random ?w) \<le> length rest + 4 * k"
    using Suc.IH[OF prems, of v] by (elim exE conjE) simp
  then show ?case
    using Suc.prems
    by (intro exI[of _ "if BigEndian_Uint32 (take 4 (iw_random w)) < code_limit then drop 4 (iw_random w) else rest"])
      (auto simp: seq_def id_draw_def ReadFull_def Let_def ret_def)
qed

lemma fail_then: "m w = (Inl e, w1) \<Longrightarrow> seq m f w = (Inl e, w1)"
  by (simp add: seq_def)

text \<open>The two writes and the event of a registration go through, or a unique value is taken.\<close>

lemma register_transaction_cases:
  assumes "20 \<le> length (ac_ID user)" and "e_UserID e = ac_ID user" "verification_valid e"
  shows "\<exists>r w'. register_transaction now user e w = (r, w') \<and> iw_random w' = iw_random w \<and> (r = Inr () \<or> r = Inl IdConflict)"
  using assms
  by (auto simp: register_transaction_def store_run CreateUser_def CreateEmailVerification_def IdAppendAuditEvent_def
    create_row_def user_valid_def user_row_def accountAuditEvent_def split: sum.splits)

lemma delivered:
  "\<exists>w'. recordDelivery sent i e w = (Inr (), w')"
  "\<exists>w'. deliverVerificationCode svc sent i a c w = (Inr (), w')"
  "\<exists>w'. deliverRegistrationNotice svc sent n a w = (Inr (), w')"
proof -
  show r: "\<exists>w'. recordDelivery sent i e w = (Inr (), w')" for i e w
    by (auto simp: recordDelivery_def seq_def attempt_def ret_def split: option.splits prod.splits)
  show "\<exists>w'. deliverVerificationCode svc sent i a c w = (Inr (), w')"
    using r by (simp add: deliverVerificationCode_def seq_def send_mail_def)
  show "\<exists>w'. deliverRegistrationNotice svc sent n a w = (Inr (), w')"
    using r by (simp add: deliverRegistrationNotice_def seq_def send_mail_def attempt_def split: prod.splits)
qed

lemma decoy_returns:
  assumes "50 \<le> length (iw_random w)"
  shows "\<exists>out w'. decoyRegistration svc now sent email n w = (Inr out, w')"
proof -
  let ?w = "w\<lparr>iw_random := drop 18 (drop 32 (iw_random w)), iw_db := (iw_db w)\<lparr>id_audit_events :=
    id_audit_events (iw_db w) @ [anonymousAuditEvent ''auth.registration_conflict'' now]\<rparr>\<rparr>"
  obtain w' where "deliverRegistrationNotice svc sent n email ?w = (Inr (), w')" using delivered(3) by blast
  then show ?thesis
    using assms
    by (auto simp: decoyRegistration_def seq_def id_issueToken_eval id_issueIdentifier_eval IdWithinTransaction_def
      IdAppendAuditEvent_def id_store_def anonymousAuditEvent_def ret_def)
qed

text \<open>A registration on fresh randomness, by whether its code was drawn.\<close>

lemma register_draws:
  assumes "normalizeEmail svc (ri_Email input) = Some (email, n)" and "validRegistrationPassword (ri_Password input)"
    and "\<not> (case id_is_disposable svc of None \<Rightarrow> False | Some disposable \<Rightarrow> disposable email)"
    and "normalizeClientName (ri_ClientName input) = Some c" and "16 \<le> length (iw_salts w)" and "356 \<le> length (iw_random w)"
    and sha: "\<And>s. length (id_sha256 svc s) = 32"
  shows "case fst (issueVerificationCode (v\<lparr>iw_random := drop 50 (iw_random w)\<rparr>)) of
      Inl e \<Rightarrow> fst (Register svc now sent input w) = Inl e
    | Inr _ \<Rightarrow> \<exists>out w'. Register svc now sent input w = (Inr out, w')"
proof -
  let ?code = "fst (issueVerificationCode (v\<lparr>iw_random := drop 50 (iw_random w)\<rparr>))"
  let ?h = "id_hash_password svc (ri_Password input) (take 16 (iw_salts w))"
  let ?i = "''usr_'' @ EncodeToString (take 18 (iw_random w))"
  let ?t = "''vft_'' @ EncodeToString (take 32 (drop 18 (iw_random w)))"
  let ?w = "w\<lparr>iw_salts := drop 16 (iw_salts w), iw_random := drop 50 (iw_random w)\<rparr>"
  let ?user = "\<lparr> ac_ID = ?i, ac_Email = email, ac_Status = AccountStatusPending, ac_EmailVerifiedAt = None,
        ac_EmailBouncedAt = None, ac_CreatedAt = now, u_NormalizedEmail = n, u_PasswordHash = Some ?h \<rparr>"
  let ?finish = "\<lambda>material. seq (attempt (IdWithinTransaction (register_transaction now ?user (vm_record material)))) (\<lambda>result.
      case result of
        Inl e \<Rightarrow> if e = IdConflict then decoyRegistration svc now sent email n else fail e
      | Inr _ \<Rightarrow>
          seq (deliverVerificationCode svc sent ?i email (vm_code material)) (\<lambda>_.
          ret (MustVerify (vm_challenge material))))"
  let ?material = "\<lambda>code. \<lparr> vm_challenge = \<lparr> vc_Account = user_account ?user, vc_Ticket = ?t, vc_TicketExpiresAt = now + verificationCodeLifetime \<rparr>,
           vm_record = \<lparr> e_UserID = ac_ID (user_account ?user), e_TicketHash = hashToken svc ?t, e_CodeHash = hashToken svc code,
             e_ClientName = c, e_Attempts = 0, e_ExpiresAt = now + verificationCodeLifetime, e_CreatedAt = now \<rparr>,
           vm_code = code \<rparr>"
  have bytes: "4 * 64 \<le> length (iw_random ?w)" using assms(6) by simp
  obtain rest where code: "issueVerificationCode ?w = (?code, ?w\<lparr>iw_random := rest\<rparr>)" and rest: "50 \<le> length rest"
    using code_rounds_eval[OF bytes, of v] assms(6) by (elim exE conjE) (simp add: issueVerificationCode_def del: code_rounds.simps)
  let ?salted = "w\<lparr>iw_salts := drop 16 (iw_salts w)\<rparr>"
  let ?named = "?salted\<lparr>iw_random := drop 18 (iw_random w)\<rparr>"
  have hash: "hash_password svc (ri_Password input) w = (Inr ?h, ?salted)" using assms(5) by (simp add: hash_password_eval)
  have name: "id_issueIdentifier ''usr_'' ?salted = (Inr ?i, ?named)" using assms(6) by (simp add: id_issueIdentifier_eval)
  have ticket: "id_issueToken ''vft_'' ?named = (Inr ?t, ?w)" using assms(6) by (simp add: id_issueToken_eval)
  note then_hash = run_then[where m = "hash_password svc (ri_Password input)" and w = w, OF hash]
  note then_name = run_then[where m = "id_issueIdentifier ''usr_''" and w = ?salted, OF name]
  note then_ticket = run_then[where m = "id_issueToken ''vft_''" and w = ?named, OF ticket]
  have run: "Register svc now sent input w = seq (newVerificationMaterial svc (user_account ?user) c now) ?finish ?named"
    using assms(1-4) by (simp add: Register_def then_hash then_name Let_def cong: sum.case_cong)
  show ?thesis
  proof (cases ?code)
    case (Inl e)
    then have "newVerificationMaterial svc (user_account ?user) c now ?named = (Inl e, ?w\<lparr>iw_random := rest\<rparr>)"
      unfolding newVerificationMaterial_def then_ticket using code by (intro fail_then) simp
    then show ?thesis using run Inl by (simp add: fail_then)
  next
    case (Inr drawn)
    then have "issueVerificationCode ?w = (Inr drawn, ?w\<lparr>iw_random := rest\<rparr>)" using code by simp
    note then_code = run_then[where m = issueVerificationCode and w = ?w, OF this]
    have material: "newVerificationMaterial svc (user_account ?user) c now ?named = (Inr (?material drawn), ?w\<lparr>iw_random := rest\<rparr>)"
      unfolding newVerificationMaterial_def then_ticket then_code by (simp add: Let_def ret_def)
    obtain r w4 where tx: "register_transaction now ?user (vm_record (?material drawn)) (?w\<lparr>iw_random := rest\<rparr>) = (r, w4)"
        "iw_random w4 = rest" "r = Inr () \<or> r = Inl IdConflict"
      using register_transaction_cases[of ?user "vm_record (?material drawn)" now "?w\<lparr>iw_random := rest\<rparr>"] assms(6) sha
      by (auto simp: length_EncodeToString user_account_def account.defs verification_valid_def hashToken_def
        verificationCodeLifetime_def duration_defs)
    then have "\<exists>out w'. ?finish (?material drawn) (?w\<lparr>iw_random := rest\<rparr>) = (Inr out, w')"
    proof (cases "r = Inr ()")
      case True
      then show ?thesis
        using tx(1) delivered(2)[of svc sent ?i email drawn w4]
        by (auto simp: seq_def attempt_def IdWithinTransaction_def ret_def)
    next
      case False
      then show ?thesis
        using tx rest decoy_returns[of "w4\<lparr>iw_db := iw_db w\<rparr>" svc now sent email n]
        by (auto simp: seq_def attempt_def IdWithinTransaction_def)
    qed
    then show ?thesis using run run_then[where m = "newVerificationMaterial svc (user_account ?user) c now" and w = ?named and f = ?finish, OF material]
      Inr by simp
  qed
qed

text \<open>
  C29: registering answers the same whether or not the address is taken.  With enough random bytes, the input
  and the randomness alone decide: either the request is refused with the same error whatever the accounts
  are, or, whatever they are, it is answered with a challenge of the same shape, for a pending account under
  the address as typed, and no session, token or link comes of it.  A well-formed request is answered.
\<close>

theorem registration_tells_nothing:
  assumes "\<And>s. length (id_sha256 svc s) = 32" and "356 \<le> length (iw_random w)"
  shows "if (\<exists>email n c. normalizeEmail svc (ri_Email input) = Some (email, n) \<and> validRegistrationPassword (ri_Password input)
        \<and> \<not> (case id_is_disposable svc of None \<Rightarrow> False | Some disposable \<Rightarrow> disposable email)
        \<and> normalizeClientName (ri_ClientName input) = Some c) \<and> 16 \<le> length (iw_salts w)
        \<and> (\<exists>code. fst (issueVerificationCode (w\<lparr>iw_random := drop 50 (iw_random w)\<rparr>)) = Inr code)
    then \<forall>db. \<exists>ch w'. Register svc now sent input (w\<lparr>iw_db := db\<rparr>) = (Inr (MustVerify ch), w')
        \<and> fresh_challenge (TrimSpace (ri_Email input)) now ch \<and> sign_in_state (iw_db w') = sign_in_state db
    else \<exists>e. \<forall>db. fst (Register svc now sent input (w\<lparr>iw_db := db\<rparr>)) = Inl e"
proof (cases "\<exists>email n c. normalizeEmail svc (ri_Email input) = Some (email, n) \<and> validRegistrationPassword (ri_Password input)
        \<and> \<not> (case id_is_disposable svc of None \<Rightarrow> False | Some disposable \<Rightarrow> disposable email)
        \<and> normalizeClientName (ri_ClientName input) = Some c")
  case False
  then have "\<exists>e. \<forall>db. fst (Register svc now sent input (w\<lparr>iw_db := db\<rparr>)) = Inl e"
    by (auto simp: Register_def fail_def split: option.splits)
  then show ?thesis using False by auto
next
  case True
  then obtain email n c where input: "normalizeEmail svc (ri_Email input) = Some (email, n)"
    "validRegistrationPassword (ri_Password input)" "normalizeClientName (ri_ClientName input) = Some c"
    "\<not> (case id_is_disposable svc of None \<Rightarrow> False | Some disposable \<Rightarrow> disposable email)" by blast
  show ?thesis
  proof (cases "16 \<le> length (iw_salts w)")
    case False
    then have "fst (Register svc now sent input (w\<lparr>iw_db := db\<rparr>)) = Inl IdOther" for db
      using input by (simp add: Register_def seq_def hash_password_eval)
    then show ?thesis using False by auto
  next
    case salts: True
    have draws: "case fst (issueVerificationCode (w\<lparr>iw_random := drop 50 (iw_random w)\<rparr>)) of
        Inl e \<Rightarrow> fst (Register svc now sent input (w\<lparr>iw_db := db\<rparr>)) = Inl e
      | Inr _ \<Rightarrow> \<exists>out w'. Register svc now sent input (w\<lparr>iw_db := db\<rparr>) = (Inr out, w')" for db
      using register_draws[OF input(1,2,4,3), where w = "w\<lparr>iw_db := db\<rparr>" and v = w and now = now and sent = sent] salts assms by simp
    have answered: "\<exists>ch w'. Register svc now sent input (w\<lparr>iw_db := db\<rparr>) = (Inr (MustVerify ch), w')
        \<and> fresh_challenge (TrimSpace (ri_Email input)) now ch \<and> sign_in_state (iw_db w') = sign_in_state db"
      if "Register svc now sent input (w\<lparr>iw_db := db\<rparr>) = (Inr out, w')" for db out w'
      using registration_answer[OF that] that by auto
    show ?thesis
    proof (cases "fst (issueVerificationCode (w\<lparr>iw_random := drop 50 (iw_random w)\<rparr>))")
      case (Inl e)
      then show ?thesis using draws by auto
    next
      case (Inr code)
      then have "\<exists>out w'. Register svc now sent input (w\<lparr>iw_db := db\<rparr>) = (Inr out, w')" for db using draws[of db] by simp
      then have "\<forall>db. \<exists>ch w'. Register svc now sent input (w\<lparr>iw_db := db\<rparr>) = (Inr (MustVerify ch), w')
          \<and> fresh_challenge (TrimSpace (ri_Email input)) now ch \<and> sign_in_state (iw_db w') = sign_in_state db"
        using answered by blast
      then show ?thesis using True salts Inr by simp
    qed
  qed
qed

text \<open>The same request where its address is free and where it is taken.\<close>

definition ex_fresh_world :: id_world where
  "ex_fresh_world = (ex_id_world empty_id_db (CHR ''A'') [])\<lparr>iw_random := ex_bytes 356 (CHR ''A'')\<rparr>"

lemma ex_fresh_code: "fst (issueVerificationCode (ex_fresh_world\<lparr>iw_random := drop 50 (iw_random ex_fresh_world)\<rparr>)) = Inr ex_code"
  using ex_code_run[of "ex_fresh_world\<lparr>iw_random := drop 50 (iw_random ex_fresh_world)\<rparr>" 306 ret]
  by (auto simp: ex_fresh_world_def seq_def ret_def split: prod.splits sum.splits)

theorem registration_tells_nothing_witness:
  "(\<exists>ch. fst (Register ex_id_service 1 1 ex_register (ex_fresh_world\<lparr>iw_db := empty_id_db\<rparr>)) = Inr (MustVerify ch) \<and>
     fresh_challenge (TrimSpace ''ann@x.org'') 1 ch)
   \<and> u_NormalizedEmail (hd (users ex_id_db3)) = ''ann@x.org''
   \<and> (\<exists>ch w'. Register ex_id_service 1 1 ex_register (ex_fresh_world\<lparr>iw_db := ex_id_db3\<rparr>) = (Inr (MustVerify ch), w') \<and>
     fresh_challenge (TrimSpace ''ann@x.org'') 1 ch \<and> sign_in_state (iw_db w') = sign_in_state ex_id_db3)"
proof -
  have "length (id_sha256 ex_id_service s) = 32" for s by (simp add: ex_id_service_def ex_id_hash)
  moreover have "356 \<le> length (iw_random ex_fresh_world)" "16 \<le> length (iw_salts ex_fresh_world)"
    by (simp_all add: ex_fresh_world_def ex_id_world_def)
  moreover have "ri_Email ex_register = ''ann@x.org''" "ri_Password ex_register = ''correct horse''" "ri_ClientName ex_register = ''web''"
      "id_is_disposable ex_id_service = None"
    by (simp_all add: ex_register_def ex_id_service_def)
  moreover have taken: "u_NormalizedEmail (hd (users ex_id_db3)) = ''ann@x.org''" by (simp add: ex_id_db3_def ex_ann_def)
  ultimately have answers: "\<forall>db. \<exists>ch w'. Register ex_id_service 1 1 ex_register (ex_fresh_world\<lparr>iw_db := db\<rparr>) = (Inr (MustVerify ch), w')
      \<and> fresh_challenge (TrimSpace ''ann@x.org'') 1 ch \<and> sign_in_state (iw_db w') = sign_in_state db"
    using registration_tells_nothing[of ex_id_service ex_fresh_world ex_register 1 1] ex_fresh_code ex_inputs(1-3) by simp
  then obtain ch w' where "Register ex_id_service 1 1 ex_register (ex_fresh_world\<lparr>iw_db := empty_id_db\<rparr>) = (Inr (MustVerify ch), w')"
    "fresh_challenge (TrimSpace ''ann@x.org'') 1 ch" by blast
  then show ?thesis using answers taken by auto
qed

end
