(* ===== verification/Id_Linking.thy ===== *)
theory Id_Linking
  imports Id_Codes
begin

text \<open>
  How an account can be signed in to: with the password it holds, or through the Google account linked to
  it.  An address nobody proved is never linked, and a password nobody proved does not survive a link.
\<close>

section \<open>Signing in with a password\<close>

lemma account_status_runs:
  "(case v of AccountStatusPending \<Rightarrow> a | AccountStatusActive \<Rightarrow> b | AccountStatusDisabled \<Rightarrow> c) w = r \<longleftrightarrow>
     (v = AccountStatusPending \<and> a w = r \<or> v = AccountStatusActive \<and> b w = r \<or> v = AccountStatusDisabled \<and> c w = r)"
  by (cases v) auto

lemma reissue_no_session: "reissueVerification svc now sent user c w \<noteq> (Inr (Authenticated x), w')"
  by (auto simp: reissueVerification_def runs)

lemma login_row:
  assumes run: "Login svc now sent input w = (Inr (Authenticated c), w')"
  shows "\<exists>u \<in> set (users (iw_db w)). \<exists>email w1. ac_Status u = AccountStatusActive \<and> HasPassword u \<and>
    normalizeEmail svc (li_Email input) = Some (email, u_NormalizedEmail u) \<and>
    verify_password svc (li_Password input) (the (u_PasswordHash u)) w = (Inr True, w1) \<and> cd_Account c = user_account u"
proof -
  obtain email n name u w1 m w2 where email: "normalizeEmail svc (li_Email input) = Some (email, n)"
    and u: "UserByNormalizedEmail n w = (Inr u, w)" "HasPassword u" "ac_Status u = AccountStatusActive"
    and v: "verify_password svc (li_Password input) (the (u_PasswordHash u)) w = (Inr True, w1)"
    and m: "newSessionMaterial svc (user_account u) name now w1 = (Inr m, w2)" "c = sm_credentials m"
    using run reissue_no_session unfolding Login_def
    by (auto simp: runs account_status_runs UserByNormalizedEmail_def split: option.splits)
  have "u \<in> set (users (iw_db w))" "u_NormalizedEmail u = n"
    using u(1) by (auto simp: UserByNormalizedEmail_def runs dest!: first_rowD)
  then show ?thesis
    using email u(2,3) v newSessionMaterial_for[OF m(1)] m(2) by (intro bexI[of _ u]) auto
qed

text \<open>
  C31: a password sign-in yields a session only for the active account under the given address, and only
  with a password its stored hash accepts.
\<close>

theorem login_needs_the_password:
  assumes run: "Login svc now sent input w = (Inr (Authenticated c), w')"
  shows "\<exists>u \<in> set (users (iw_db w)). \<exists>email h. normalizeEmail svc (li_Email input) = Some (email, u_NormalizedEmail u) \<and>
    ac_Status u = AccountStatusActive \<and> u_PasswordHash u = Some h \<and> h \<noteq> [] \<and>
    id_verify_password svc (li_Password input) h = Inr True \<and> cd_Account c = user_account u"
proof -
  from login_row[OF run] obtain u email w1 where "u \<in> set (users (iw_db w))" "ac_Status u = AccountStatusActive" "HasPassword u"
      "normalizeEmail svc (li_Email input) = Some (email, u_NormalizedEmail u)"
      "verify_password svc (li_Password input) (the (u_PasswordHash u)) w = (Inr True, w1)" "cd_Account c = user_account u"
    by blast
  then show ?thesis
    by (intro bexI[of _ u]) (auto simp: HasPassword_def verify_password_def)
qed

definition ex_login :: login_input where
  "ex_login = \<lparr> li_Email = ''ann@x.org'', li_Password = ''correct horse'', li_ClientName = ''web'' \<rparr>"

definition ex_db_signed_out :: "instant option \<Rightarrow> id_db" where
  "ex_db_signed_out verified = empty_id_db\<lparr>users := [ex_ann AccountStatusActive verified]\<rparr>"

lemma ex_new_session:
  "iw_random w = ex_bytes 100 (CHR ''B'') \<Longrightarrow>
   seq (newSessionMaterial ex_id_service (user_account (ex_ann AccountStatusActive (Some 2))) ''web'' 2) f w =
     f \<lparr> sm_session = ex_session (CHR ''B'') 2 None, sm_refresh = ex_refresh (CHR ''B'') 2 None, sm_credentials = ex_credentials (CHR ''B'') 2 \<rparr>
      (w\<lparr>iw_random := ex_bytes 18 (CHR ''B'')\<rparr>)"
  by (simp add: newSessionMaterial_def issue_run Let_def seq_assoc ex_id_defs ex_later_defs hashToken_def user_account_def account.defs id_evals)

lemma ex_start_session:
  assumes "iw_db w = ex_db_signed_out (Some 2)"
  shows "\<exists>w'. start_session_transaction ''auth.login_succeeded'' 2 (ex_id ''usr_'' (CHR ''A'')) \<lparr> sm_session = ex_session (CHR ''B'') 2 None,
    sm_refresh = ex_refresh (CHR ''B'') 2 None, sm_credentials = c \<rparr> w = (Inr (), w')"
  using assms by (simp add: start_session_transaction_def persistSessionMaterial_def seq_assoc ex_steps ex_db_signed_out_def empty_id_db_def)

lemma ex_login_run:
  "\<exists>w'. Login ex_id_service 2 2 ex_login (ex_id_world (ex_db_signed_out (Some 2)) (CHR ''B'') []) =
     (Inr (Authenticated (ex_credentials (CHR ''B'') 2)), w')"
proof -
  let ?w = "ex_id_world (ex_db_signed_out (Some 2)) (CHR ''B'') []"
  have find: "seq (attempt (UserByNormalizedEmail ''ann@x.org'')) k ?w = k (Inr (ex_ann AccountStatusActive (Some 2))) ?w" for k
    by (simp add: ex_steps ex_db_signed_out_def)
  have pass: "HasPassword (ex_ann AccountStatusActive (Some 2))"
    "u_PasswordHash (ex_ann AccountStatusActive (Some 2)) = Some (ex_bytes 16 (CHR ''A'') @ ''correct horse'')"
    by (simp_all add: HasPassword_def ex_ann_def)
  have check: "seq (verify_password ex_id_service ''correct horse'' (ex_bytes 16 (CHR ''A'') @ ''correct horse'')) k ?w = k True ?w" for k
    by (simp add: verify_password_def seq_def saltLength_def ex_bytes_def)
  obtain w' where "start_session_transaction ''auth.login_succeeded'' 2 (ex_id ''usr_'' (CHR ''A'')) \<lparr> sm_session = ex_session (CHR ''B'') 2 None,
      sm_refresh = ex_refresh (CHR ''B'') 2 None, sm_credentials = ex_credentials (CHR ''B'') 2 \<rparr> (?w\<lparr>iw_random := ex_bytes 18 (CHR ''B'')\<rparr>) = (Inr (), w')"
    using ex_start_session[of "?w\<lparr>iw_random := ex_bytes 18 (CHR ''B'')\<rparr>"] by auto
  then show ?thesis
    unfolding Login_def ex_login_def
    by (simp add: ex_inputs find pass check ex_new_session transaction_run(1) ret_def)
qed

theorem login_needs_the_password_witness:
  "\<exists>u \<in> set (users (ex_db_signed_out (Some 2))). ac_Status u = AccountStatusActive \<and>
     cd_Account (ex_credentials (CHR ''B'') 2) = user_account u"
proof -
  obtain w' where "Login ex_id_service 2 2 ex_login (ex_id_world (ex_db_signed_out (Some 2)) (CHR ''B'') []) =
     (Inr (Authenticated (ex_credentials (CHR ''B'') 2)), w')" using ex_login_run by blast
  from login_needs_the_password[OF this] show ?thesis by auto
qed

section \<open>Addresses nobody proved\<close>

lemma find_user:
  assumes "id_inv db" and "u \<in> set (users db)"
  shows "first_row ac_ID (\<lambda>v. u_NormalizedEmail v = u_NormalizedEmail u) (users db) = Inr u"
  by (rule user_table.first_row_unique[OF id_invD(1)[OF assms(1)] assms(2)]) (simp_all add: user_clash_def)

text \<open>
  C32: Google is never linked to an active account whose own address nobody proved.  The sign-in is refused,
  and the only trace is the audit event that says so.
\<close>

theorem google_never_links_unproved:
  assumes "id_inv (iw_db w)" and "id_google_verifier svc = Some verify" and "normalizeClientName (gi_ClientName input) = Some name"
    and "verify (gi_IDToken input) = Inr g" "g_EmailVerified g" "normalizeEmail svc (g_Email g) = Some (email, u_NormalizedEmail u)"
    and u: "u \<in> set (users (iw_db w))" "ac_Status u = AccountStatusActive" "ac_EmailVerifiedAt u = None"
    and new: "\<forall>f \<in> set (federated_identities (iw_db w)). \<not> (fi_Provider f = ProviderGoogle \<and> fi_Subject f = g_Subject g)"
  shows "AuthenticateWithGoogle svc clock input w = Some (Inl IdAccountLinkRequired,
    w\<lparr>iw_db := (iw_db w)\<lparr>id_audit_events := id_audit_events (iw_db w) @
      [accountAuditEvent ''auth.google_link_required'' (ac_ID u) (clock 0)]\<rparr>\<rparr>)"
proof -
  let ?w = "w\<lparr>iw_db := (iw_db w)\<lparr>id_audit_events := id_audit_events (iw_db w) @
      [accountAuditEvent ''auth.google_link_required'' (ac_ID u) (clock 0)]\<rparr>\<rparr>"
  have no: "first_row federated_key (\<lambda>f. fi_Provider f = ProviderGoogle \<and> fi_Subject f = g_Subject g)
      (federated_identities (iw_db w)) = Inl ErrRecordNotFound"
    using new by (simp add: first_row_Inl)
  have "user_row (iw_db w) (ac_ID u)" using u(1) by (auto simp: user_row_def)
  then have "google_transaction svc (g_Subject g) email (u_NormalizedEmail u) name (clock 0) w = (Inr (Google_Refused IdAccountLinkRequired), ?w)"
    using u(2,3) unfolding google_transaction_def FederatedIdentityForUpdate_def UserByNormalizedEmailForUpdate_def
    by (simp add: id_evals no find_user[OF assms(1) u(1)] googleLinkExisting_def Let_def googleRefusal_def IdAppendAuditEvent_def
      store_run accountAuditEvent_def)
  then have "googleSignIn svc (clock 0) (g_Subject g) email (u_NormalizedEmail u) name w = (Inr (Google_Refused IdAccountLinkRequired), ?w)"
    by (simp add: googleSignIn_def IdWithinTransaction_def)
  then show ?thesis
    using assms(2-6) by (simp add: AuthenticateWithGoogle_def google_loop_rounds google_answer_def)
qed

definition ex_google :: id_service where
  "ex_google = ex_id_service\<lparr>id_google_verifier :=
     Some (\<lambda>_. Inr \<lparr> g_Subject = ''subject'', g_Email = ''ann@x.org'', g_EmailVerified = True \<rparr>)\<rparr>"

theorem google_never_links_unproved_witness:
  "map_option fst (AuthenticateWithGoogle ex_google (\<lambda>_. 2) \<lparr> gi_IDToken = ''jwt'', gi_ClientName = ''web'' \<rparr>
     (ex_id_world (ex_db_signed_out None) (CHR ''B'') [])) = Some (Inl IdAccountLinkRequired)"
proof -
  have inv: "id_inv (iw_db (ex_id_world (ex_db_signed_out None) (CHR ''B'') []))"
    by (simp add: ex_db_signed_out_def empty_id_db_def id_inv_def id_schema_ok_def rows_ok_def one_unused_def
      user_valid_def ex_tokens_valid)
  have email: "normalizeEmail ex_google ''ann@x.org'' = Some (''ann@x.org'', u_NormalizedEmail (ex_ann AccountStatusActive None))"
  proof -
    have "normalizeEmail ex_google ''ann@x.org'' = normalizeEmail ex_id_service ''ann@x.org''"
      by (simp add: normalizeEmail_def ex_google_def Let_def)
    then show ?thesis by (simp add: ex_inputs ex_ann_def)
  qed
  then have address: "normalizeEmail ex_google ''ann@x.org'' = Some (''ann@x.org'', ''ann@x.org'')"
    by (simp add: ex_ann_def)
  have verifier: "id_google_verifier ex_google = Some (\<lambda>_. Inr \<lparr> g_Subject = ''subject'', g_Email = ''ann@x.org'', g_EmailVerified = True \<rparr>)"
    by (simp add: ex_google_def)
  show ?thesis
    by (subst google_never_links_unproved[OF inv verifier, of _ "''web''" _ "''ann@x.org''" "ex_ann AccountStatusActive None"])
      (simp_all add: ex_inputs email ex_db_signed_out_def empty_id_db_def, simp_all add: ex_ann_def address)
qed

section \<open>An address Google proved\<close>

text \<open>The account exists and holds no password.\<close>

definition passwordless :: "id_db \<Rightarrow> string \<Rightarrow> bool" where
  "passwordless db i \<longleftrightarrow> (\<exists>v \<in> set (users db). ac_ID v = i \<and> u_PasswordHash v = None)"

lemma passwordless_kept: "id_evolves db db' \<Longrightarrow> passwordless db i \<Longrightarrow> passwordless db' i"
proof -
  assume "id_evolves db db'" and "passwordless db i"
  then obtain v v' where "ac_ID v = i" "u_PasswordHash v = None" "v' \<in> set (users db')" "user_le v v'"
    by (auto simp: id_evolves_def passwordless_def dest: evolves_old)
  then show ?thesis by (auto simp: passwordless_def user_le_def)
qed

lemma ActivateFederatedUser_drops:
  assumes "ActivateFederatedUser i at w = (Inr x, w')" shows "passwordless (iw_db w') i"
proof -
  let ?p = "\<lambda>u. ac_ID u = i \<and> ac_Status u = AccountStatusPending"
  let ?f = "\<lambda>u. u\<lparr>ac_Status := AccountStatusActive, ac_EmailVerifiedAt := Some at, u_PasswordHash := None\<rparr>"
  have rows: "users (iw_db w') = map (\<lambda>r. if ?p r then ?f r else r) (users (iw_db w))"
    and one: "length (filter ?p (users (iw_db w))) = 1"
    using assms by (auto simp: ActivateFederatedUser_def Let_def runs one_row_Inr update_rows_Inr)
  from one have "filter ?p (users (iw_db w)) \<noteq> []" by auto
  then obtain u where "u \<in> set (users (iw_db w))" "?p u" by (auto simp: filter_empty_conv)
  then have "?f u \<in> set (users (iw_db w'))" by (force simp: rows)
  moreover have "ac_ID (?f u) = i" "u_PasswordHash (?f u) = None" using \<open>?p u\<close> by simp_all
  ultimately show ?thesis unfolding passwordless_def by blast
qed

lemma startGoogleSession_account:
  "startGoogleSession svc account name now ev w = (Inr c, w') \<Longrightarrow> cd_Account c = account"
  by (auto simp: startGoogleSession_def runs dest: newSessionMaterial_for)

lemma google_link_account:
  assumes "google_link svc account subject email name now w = (Inr (Google_SignedIn c), w')"
  shows "cd_Account c = account"
proof -
  from assms obtain w1 where "startGoogleSession svc account name now ''auth.google_identity_linked'' w1 = (Inr c, w')"
    unfolding google_link_def FederatedIdentityByUserForUpdate_def by (auto simp: runs googleRefusal_def)
  then show ?thesis by (rule startGoogleSession_account)
qed

text \<open>A pending account is signed in to by Google only through the branch that drops its password.\<close>

lemma google_pending_passwordless:
  assumes inv: "id_inv (iw_db w)" and u: "u \<in> set (users (iw_db w))" "ac_Status u = AccountStatusPending"
    and run: "google_transaction svc subject email n name now w = (Inr (Google_SignedIn c), w')"
    and c: "ac_ID (cd_Account c) = ac_ID u"
  shows "passwordless (iw_db w') (ac_ID u)"
proof -
  have id: "ac_ID (user_account v) = ac_ID v" for v by (simp add: user_account_def account.defs)
  from run consider (again) link :: federated_identity where "googleReturningUser svc link email name now w = (Inr c, w')"
    | (old) v :: user where "v \<in> set (users (iw_db w))" "googleLinkExisting svc v subject email name now w = (Inr (Google_SignedIn c), w')"
    | (fresh) "googleNewAccount svc subject email n name now w = (Inr c, w')"
    unfolding google_transaction_def FederatedIdentityForUpdate_def UserByNormalizedEmailForUpdate_def
    by (auto simp: runs split: sum.splits if_splits dest!: first_rowD)
  then show ?thesis
  proof cases
    case again
    then obtain v where "v \<in> set (users (iw_db w))" "ac_Status v = AccountStatusActive" "ac_ID (cd_Account c) = ac_ID v"
      by (auto simp: googleReturningUser_def UserByID_def runs id dest!: first_rowD startGoogleSession_account)
    then show ?thesis using same_user[OF inv u(1), of v] c u(2) by auto
  next
    case (old v)
    let ?a = "(user_account v)\<lparr>ac_Status := AccountStatusActive, ac_EmailVerifiedAt := Some now\<rparr>"
    from old(2) consider w1 w2 where "ActivateFederatedUser (ac_ID v) now w = (Inr (), w1)"
        "DeleteEmailVerification (ac_ID v) w1 = (Inr (), w2)" "google_link svc ?a subject email name now w2 = (Inr (Google_SignedIn c), w')"
      | "ac_Status v = AccountStatusActive" "google_link svc (user_account v) subject email name now w = (Inr (Google_SignedIn c), w')"
      | ev i e where "googleRefusal ev i now e w = (Inr (Google_SignedIn c), w')"
      unfolding googleLinkExisting_def Let_def by (auto simp: runs id)
    then show ?thesis
    proof cases
      case (1 w1 w2)
      have "ac_ID u = ac_ID v" using c unfolding google_link_account[OF 1(3)] by (simp add: id)
      from same_user[OF inv u(1) old(1) this] have v: "v = u" by (rule sym)
      note g1 = ActivateFederatedUser_good[OF 1(1) inv]
      note g2 = DeleteEmailVerification_good[OF 1(2) id_good_inv[OF g1(1)]]
      have "activated (iw_db w2) (ac_ID ?a)" using id_good_activated[OF g2 g1(2)] by (simp add: id)
      from google_link_good[OF 1(3) id_good_inv[OF g2] this] g2
      have "id_evolves (iw_db w1) (iw_db w')" by (auto simp: id_good_def intro: id_evolves_trans)
      then show ?thesis using passwordless_kept ActivateFederatedUser_drops[OF 1(1)] by (simp add: v)
    next
      case 2
      have "ac_ID u = ac_ID v" using c unfolding google_link_account[OF 2(2)] by (simp add: id)
      then show ?thesis using same_user[OF inv u(1) old(1)] 2(1) u(2) by auto
    next
      case 3 then show ?thesis by (auto simp: googleRefusal_def runs)
    qed
  next
    case fresh
    then obtain i w1 w2 where d: "id_issueIdentifier ''usr_'' w = (Inr i, w1)"
        and v: "CreateUser \<lparr> ac_ID = i, ac_Email = email, ac_Status = AccountStatusActive, ac_EmailVerifiedAt = Some now,
          ac_EmailBouncedAt = None, ac_CreatedAt = now, u_NormalizedEmail = n, u_PasswordHash = None \<rparr> w1 = (Inr (), w2)"
        and a: "ac_ID (cd_Account c) = i"
      unfolding googleNewAccount_def Let_def
      by (auto simp: runs account.defs dest!: startGoogleSession_account)
    then have "i \<noteq> ac_ID u"
      using u(1) untouchedD[OF untouched_values(2) d]
      by (auto simp: CreateUser_def runs create_row_Inr user_clash_def)
    then show ?thesis using c a by simp
  qed
qed

lemma AuthenticateWithGoogle_transaction:
  assumes "AuthenticateWithGoogle svc clock input w = Some (Inr c, w')"
  shows "\<exists>verify g email n name now w0. id_google_verifier svc = Some verify \<and> verify (gi_IDToken input) = Inr g \<and>
    iw_db w0 = iw_db w \<and> google_transaction svc (g_Subject g) email n name now w0 = (Inr (Google_SignedIn c), w')"
proof -
  have same: "iw_db w1 = iw_db w0" if "googleSignIn svc now subject email n name w0 = (Inl e, w1)" for now subject email n name w0 w1 e
    using that by (auto simp: googleSignIn_def IdWithinTransaction_def split: prod.splits sum.splits)
  have signed: "google_transaction svc subject email n name now w0 = (Inr (Google_SignedIn c), w')"
    if "google_answer (googleSignIn svc now subject email n name w0) = (Inr c, w')" for now subject email n name w0
    using that by (auto simp: google_answer_def googleSignIn_def IdWithinTransaction_def split: prod.splits sum.splits google_outcome.splits)
  obtain verify g email n name where verified: "id_google_verifier svc = Some verify" "verify (gi_IDToken input) = Inr g"
    and run: "google_answer (case googleSignIn svc (clock 0) (g_Subject g) email n name w of (r, w1) \<Rightarrow>
      if r = Inl IdConflict then googleSignIn svc (clock 1) (g_Subject g) email n name w1 else (r, w1)) = (Inr c, w')"
    using assms by (auto simp: AuthenticateWithGoogle_def google_loop_rounds split: option.splits sum.splits if_splits)
  show ?thesis
  proof (cases "fst (googleSignIn svc (clock 0) (g_Subject g) email n name w) = Inl IdConflict")
    case True
    then obtain w1 where "googleSignIn svc (clock 0) (g_Subject g) email n name w = (Inl IdConflict, w1)" by (metis fst_eqD surj_pair)
    then have "iw_db w1 = iw_db w" "google_transaction svc (g_Subject g) email n name (clock 1) w1 = (Inr (Google_SignedIn c), w')"
      using run by (auto intro: same signed)
    then show ?thesis using verified by blast
  next
    case False
    then have "google_answer (googleSignIn svc (clock 0) (g_Subject g) email n name w) = (Inr c, w')"
      using run by (cases "googleSignIn svc (clock 0) (g_Subject g) email n name w") simp
    then show ?thesis using signed verified by blast
  qed
qed


lemma ex_google_fields:
  "newSessionMaterial ex_google = newSessionMaterial ex_id_service" "normalizeEmail ex_google = normalizeEmail ex_id_service"
  by (simp_all add: fun_eq_iff newSessionMaterial_def normalizeEmail_def hashToken_def ex_google_def Let_def ex_id_service_def)

lemma ex_google_tx:
  "\<exists>w'. google_transaction ex_google ''subject'' ''ann@x.org'' ''ann@x.org'' ''web'' 2 (ex_id_world ex_id_db1 (CHR ''B'') []) =
     (Inr (Google_SignedIn (ex_credentials (CHR ''B'') 2)), w')"
proof -
  let ?w = "ex_id_world ex_id_db1 (CHR ''B'') []"
  let ?a = "(user_account (ex_ann AccountStatusPending None))\<lparr>ac_Status := AccountStatusActive, ac_EmailVerifiedAt := Some 2\<rparr>"
  let ?u = "(ex_ann AccountStatusActive (Some 2))\<lparr>u_PasswordHash := None\<rparr>"
  let ?f = "\<lparr> fi_Provider = ProviderGoogle, fi_Subject = ''subject'', fi_UserID = ex_id ''usr_'' (CHR ''A''), fi_Email = ''ann@x.org'',
    fi_CreatedAt = 2, fi_LastAuthenticatedAt = 2 \<rparr>"
  let ?db = "ex_id_db1\<lparr>users := [?u], email_verifications := []\<rparr>"
  let ?db1 = "?db\<lparr>federated_identities := [?f], sessions := [ex_session (CHR ''B'') 2 None],
    refresh_credentials := [ex_refresh (CHR ''B'') 2 None]\<rparr>"
  have id: "ac_ID ?a = ex_id ''usr_'' (CHR ''A'')" by (simp add: user_account_def account.defs)
  have link: "\<exists>w'. google_link ex_google ?a ''subject'' ''ann@x.org'' ''web'' 2 w =
      (Inr (Google_SignedIn (ex_credentials (CHR ''B'') 2)), w')"
    if w: "iw_db w = ?db" "iw_random w = ex_bytes 100 (CHR ''B'')" for w
  proof -
    have s1: "seq (attempt (FederatedIdentityByUserForUpdate ProviderGoogle (ex_id ''usr_'' (CHR ''A'')))) k w = k (Inl IdNotFound) w" for k
      by (simp add: w ex_steps)
    have s2: "seq (CreateFederatedIdentity ?f) k w = k () (w\<lparr>iw_db := ?db\<lparr>federated_identities := [?f]\<rparr>\<rparr>)" for k
      by (simp add: w ex_steps federated_valid_def federated_clash_def)
    have s3: "seq (persistSessionMaterial \<lparr> sm_session = ex_session (CHR ''B'') 2 None, sm_refresh = ex_refresh (CHR ''B'') 2 None,
        sm_credentials = ex_credentials (CHR ''B'') 2 \<rparr>) k w1 = k () (w1\<lparr>iw_db := ?db1\<rparr>)"
      if "iw_db w1 = ?db\<lparr>federated_identities := [?f]\<rparr>" for k w1
      by (simp add: that persistSessionMaterial_def seq_assoc ex_steps)
    have s4: "seq (IdAppendAuditEvent (auditEvent ev (ex_id ''usr_'' (CHR ''A'')) (ex_id ''asn_'' (CHR ''B'')) 2)) k w1 =
        k () (w1\<lparr>iw_db := ?db1\<lparr>id_audit_events := id_audit_events ?db1 @ [ex_event ev True 2]\<rparr>\<rparr>)"
      if "iw_db w1 = ?db1" for k w1 ev
      by (simp add: that ex_steps)
    show ?thesis
      by (simp add: s1 s2 s3 s4 google_link_def startGoogleSession_def ex_google_fields id ex_session_material seq_assoc w ret_def, simp add: seq_def)
  qed
  have t1: "seq (attempt (FederatedIdentityForUpdate ProviderGoogle ''subject'')) k ?w = k (Inl IdNotFound) ?w" for k
    by (simp add: ex_steps)
  have t2: "seq (attempt (UserByNormalizedEmailForUpdate ''ann@x.org'')) k ?w = k (Inr (ex_ann AccountStatusPending None)) ?w" for k
    by (simp add: ex_steps)
  have t3: "seq (ActivateFederatedUser (ex_id ''usr_'' (CHR ''A'')) 2) k ?w =
      k () (?w\<lparr>iw_db := ex_id_db1\<lparr>users := [?u]\<rparr>\<rparr>)" for k
    by (simp add: ex_steps)
  have t4: "seq (DeleteEmailVerification (ex_id ''usr_'' (CHR ''A''))) k (?w\<lparr>iw_db := ex_id_db1\<lparr>users := [?u]\<rparr>\<rparr>) =
      k () (?w\<lparr>iw_db := ex_id_db1\<lparr>users := [?u], email_verifications := []\<rparr>\<rparr>)" for k
    by (simp add: ex_steps)
  obtain w' where t5: "google_link ex_google ?a ''subject'' ''ann@x.org'' ''web'' 2
      (?w\<lparr>iw_db := ex_id_db1\<lparr>users := [?u], email_verifications := []\<rparr>\<rparr>) = (Inr (Google_SignedIn (ex_credentials (CHR ''B'') 2)), w')"
    using link[of "?w\<lparr>iw_db := ex_id_db1\<lparr>users := [?u], email_verifications := []\<rparr>\<rparr>"] by auto
  show ?thesis
    by (simp add: t1 t2 t3 t4 t5 google_transaction_def googleLinkExisting_def Let_def)
qed

lemma ex_google_run:
  "\<exists>w'. AuthenticateWithGoogle ex_google (\<lambda>_. 2) \<lparr> gi_IDToken = ''jwt'', gi_ClientName = ''web'' \<rparr>
     (ex_id_world ex_id_db1 (CHR ''B'') []) = Some (Inr (ex_credentials (CHR ''B'') 2), w')"
proof -
  have "id_google_verifier ex_google = Some (\<lambda>_. Inr \<lparr> g_Subject = ''subject'', g_Email = ''ann@x.org'', g_EmailVerified = True \<rparr>)"
    by (simp add: ex_google_def)
  with ex_google_tx show ?thesis
    by (auto simp: AuthenticateWithGoogle_def google_loop_rounds google_answer_def googleSignIn_def IdWithinTransaction_def
      ex_google_fields ex_inputs)
qed


end
