(* ===== verification/Id_Atomic.thy ===== *)
theory Id_Atomic
  imports Id_Linking
begin

text \<open>
  Errors leave no trace in the identity database, except where the code commits on purpose: a wrong code is
  counted, a refresh token used twice or too late ends its session, and a refused Google sign-in is on
  record.  The retry of a Google sign-in ends.
\<close>

section \<open>What cannot fail, and what changes nothing\<close>

lemma infallible_delivery:
  "infallible (recordDelivery sent i e)" "infallible (deliverVerificationCode svc sent i a c)"
  "infallible (deliverRegistrationNotice svc sent n a)"
  by (auto simp: infallible_def recordDelivery_def deliverVerificationCode_def deliverRegistrationNotice_def send_mail_def
    attempt_def ret_def seq_def split: prod.splits option.splits sum.splits)

lemma infallible_ret: "infallible (ret x)" "infallible (onSessionRevoked u s i)"
  by (simp_all add: infallible_def ret_def onSessionRevoked_def)

lemma infallible_then_ret:
  assumes "infallible m" shows "infallible (seq m (\<lambda>x. ret (g x)))"
  unfolding infallible_def
proof
  fix w
  obtain x w' where "m w = (Inr x, w')" using assms unfolding infallible_def by blast
  then show "\<exists>y w'. seq m (\<lambda>x. ret (g x)) w = (Inr y, w')" by (simp add: seq_def ret_def)
qed

lemma atomic_id_transaction [atomics]: "atomic_in iw_db (IdWithinTransaction m)"
  by (auto simp: atomic_in_def IdWithinTransaction_def split: prod.splits sum.splits)

lemma atomic_reading: "untouched db m \<Longrightarrow> atomic_in db m"
  by (auto simp: atomic_in_def untouched_def) (metis snd_conv)

lemma Register_atomic: "atomic_in iw_db (Register svc now sent input)"
proof -
  have decoy: "atomic_in iw_db (decoyRegistration svc now sent a n)" for a n
    unfolding decoyRegistration_def
    by (intro atomic_untouched[OF untouched_values(3)] atomic_untouched[OF untouched_values(2)] atomic_then atomics
      infallible_then_ret infallible_delivery)
  have inner: "atomic_in iw_db (seq (newVerificationMaterial svc a c now) (\<lambda>material.
      seq (attempt (IdWithinTransaction (register_transaction now user (vm_record material)))) (\<lambda>result.
      case result of
        Inl e \<Rightarrow> if e = IdConflict then decoyRegistration svc now sent email n else fail e
      | Inr _ \<Rightarrow> seq (deliverVerificationCode svc sent i email (vm_code material)) (\<lambda>_.
          ret (MustVerify (vm_challenge material))))))" for a c user email n i
    by (intro atomic_untouched[OF untouched_values(6)] atomic_attempt)
      (auto intro: atomics decoy infallible_then_ret infallible_delivery)
  show ?thesis
    by (auto simp: Register_def Let_def intro!: atomic_fail atomic_untouched[OF untouched_draws(2)]
      atomic_untouched[OF untouched_values(2)] inner split: option.split)
qed

lemma Login_atomic: "atomic_in iw_db (Login svc now sent input)"
proof -
  have reissue: "atomic_in iw_db (reissueVerification svc now sent user c)" for user c
    unfolding reissueVerification_def
    by (intro atomic_untouched[OF untouched_values(6)] atomic_then atomics infallible_then_ret)
      (auto simp: infallible_delivery infallible_ret)
  show ?thesis
    unfolding Login_def
    by (auto intro!: atomics atomic_untouched[OF untouched_attempt[OF untouched_finds(1)]]
      atomic_untouched[OF untouched_attempt[OF untouched_draws(3)]] atomic_untouched[OF untouched_draws(3)]
      atomic_untouched[OF untouched_values(5)] reissue split: option.split sum.split account_status.split)
qed

lemma reading_atomic:
  "atomic_in iw_db (CurrentAccount svc now t)" "atomic_in iw_db (AuthenticateAccess svc now t)"
  "atomic_in iw_db (AuthorizeAccount i)" "atomic_in iw_db (AuthorizeSession now i j)"
  by (auto simp: CurrentAccount_def AuthenticateAccess_def AuthorizeAccount_def AuthorizeSession_def
    intro!: atomic_reading untoucheds)

lemma Logout_atomic: "atomic_in iw_db (Logout svc now t)"
  unfolding Logout_def
  by (auto intro!: atomic_ret atomic_id_transaction atomic_then infallible_ret split: option.split)

section \<open>Errors answered after a commit\<close>

lemma committed_error:
  assumes "seq (IdWithinTransaction m) f w = (Inl e, w')"
  shows "iw_db w' = iw_db w \<or> (\<exists>x w1. m w = (Inr x, w1) \<and> f x w1 = (Inl e, w'))"
  using assms by (auto simp: seq_def IdWithinTransaction_def split: prod.splits sum.splits)

lemma drawn_error:
  assumes "untouched iw_db m" and "seq m f w = (Inl e, w')"
  shows "iw_db w' = iw_db w \<or> (\<exists>x w1. f x w1 = (Inl e, w') \<and> iw_db w1 = iw_db w)"
proof (cases "m w")
  case (Pair r w1)
  then have "iw_db w1 = iw_db w" by (rule untouchedD[OF assms(1)])
  then show ?thesis using assms(2) Pair by (cases r) (auto simp: seq_def)
qed

lemma VerifyEmail_error:
  "VerifyEmail svc now input w = (Inl e, w') \<Longrightarrow> e \<noteq> IdInvalidVerificationCode \<Longrightarrow> iw_db w' = iw_db w"
  by (auto simp: VerifyEmail_def fail_def ret_def split: if_splits option.splits dest!: committed_error)

lemma Refresh_error:
  assumes "Refresh svc now t w = (Inl e, w')" and "e \<noteq> IdInvalidRefresh"
  shows "iw_db w' = iw_db w"
proof -
  have inner: "iw_db w2 = iw_db w1" if "seq (IdWithinTransaction (refresh_transaction svc now t a r)) (\<lambda>outcome.
      case outcome of
        Refresh_Nothing \<Rightarrow> fail IdInvalidRefresh
      | Refresh_Revoked session b \<Rightarrow> seq (onSessionRevoked (s_UserID session) (s_ID session) b) (\<lambda>_. fail IdInvalidRefresh)
      | Refresh_Valid c \<Rightarrow> ret c) w1 = (Inl e, w2)" for a r w1 w2
    using committed_error[OF that]
  proof (elim disjE exE conjE)
    fix x w3
    assume "(case x of Refresh_Nothing \<Rightarrow> fail IdInvalidRefresh
      | Refresh_Revoked session b \<Rightarrow> seq (onSessionRevoked (s_UserID session) (s_ID session) b) (\<lambda>_. fail IdInvalidRefresh)
      | Refresh_Valid c \<Rightarrow> ret c) w3 = (Inl e, w2)"
    then show ?thesis
      using assms(2) by (cases x) (auto simp: seq_def fail_def ret_def onSessionRevoked_def)
  qed
  show ?thesis
  proof (cases "id_validToken t ''orr_''")
    case True
    from assms(1)[unfolded Refresh_def] True show ?thesis
      by (auto dest!: drawn_error[OF untouched_values(3)] inner)
  qed (use assms in \<open>simp add: Refresh_def fail_def\<close>)
qed

lemma resend_nothing:
  "resend_transaction svc now t w = (Inr Resend_Nothing, w') \<Longrightarrow> iw_db w' = iw_db w"
  "resend_transaction svc now t w = (Inr Resend_Throttled, w') \<Longrightarrow> iw_db w' = iw_db w"
  by (auto simp: resend_transaction_def EmailVerificationForUpdate_def UserByID_def runs)

lemma Resend_error:
  assumes "ResendVerification svc now sent t w = (Inl e, w')" shows "iw_db w' = iw_db w"
proof (cases "id_validToken t ''vft_''")
  case True
  then have "seq (IdWithinTransaction (resend_transaction svc now t)) (\<lambda>outcome.
        case outcome of
          Resend_Throttled \<Rightarrow> fail IdVerificationThrottled
        | Resend_Nothing \<Rightarrow> fail IdInvalidVerificationCode
        | Resend_Reissued material email userID \<Rightarrow>
            seq (deliverVerificationCode svc sent userID email (vm_code material)) (\<lambda>_. ret (vm_challenge material))) w = (Inl e, w')"
    using assms by (simp add: ResendVerification_def)
  from committed_error[OF this] show ?thesis
  proof (elim disjE exE conjE)
    fix x w3
    assume run: "resend_transaction svc now t w = (Inr x, w3)" and answer: "(case x of
          Resend_Throttled \<Rightarrow> fail IdVerificationThrottled
        | Resend_Nothing \<Rightarrow> fail IdInvalidVerificationCode
        | Resend_Reissued material email userID \<Rightarrow>
            seq (deliverVerificationCode svc sent userID email (vm_code material)) (\<lambda>_. ret (vm_challenge material))) w3 = (Inl e, w')"
    show ?thesis
    proof (cases x)
      case (Resend_Reissued material email i)
      have "infallible (seq (deliverVerificationCode svc sent i email (vm_code material)) (\<lambda>_. ret (vm_challenge material)))"
        by (rule infallible_then_ret[OF infallible_delivery(2)])
      then obtain y w4 where "seq (deliverVerificationCode svc sent i email (vm_code material)) (\<lambda>_. ret (vm_challenge material)) w3 = (Inr y, w4)"
        unfolding infallible_def by blast
      then show ?thesis using answer Resend_Reissued by simp
    qed (use run answer resend_nothing in \<open>auto simp: fail_def\<close>)
  qed
qed (use assms in \<open>simp add: ResendVerification_def fail_def\<close>)

lemma google_refusal_kinds:
  "google_transaction svc subject email n name now w = (Inr (Google_Refused e), w') \<Longrightarrow>
     e = IdAccountLinkRequired \<or> e = IdIdentityAlreadyLinked"
  unfolding google_transaction_def googleLinkExisting_def google_link_def googleRefusal_def Let_def
    FederatedIdentityForUpdate_def UserByNormalizedEmailForUpdate_def FederatedIdentityByUserForUpdate_def
  by (auto simp: runs)

lemma googleSignIn_error:
  assumes "google_answer (googleSignIn svc now subject email n name w) = (Inl e, w')"
    and "e \<noteq> IdAccountLinkRequired" "e \<noteq> IdIdentityAlreadyLinked"
  shows "iw_db w' = iw_db w"
  using assms
  by (auto dest!: google_refusal_kinds simp: google_answer_def googleSignIn_def IdWithinTransaction_def split: prod.splits sum.splits google_outcome.splits)

lemma AuthenticateWithGoogle_error:
  assumes run: "AuthenticateWithGoogle svc clock input w = Some (Inl e, w')"
    and e: "e \<noteq> IdAccountLinkRequired" "e \<noteq> IdIdentityAlreadyLinked"
  shows "iw_db w' = iw_db w"
proof -
  have rounds: "iw_db w' = iw_db w"
    if "google_answer (case googleSignIn svc (clock 0) subject email n name w of (r, w1) \<Rightarrow>
      if r = Inl IdConflict then googleSignIn svc (clock 1) subject email n name w1 else (r, w1)) = (Inl e, w')" for subject email n name
  proof (cases "fst (googleSignIn svc (clock 0) subject email n name w) = Inl IdConflict")
    case True
    then obtain w1 where first: "googleSignIn svc (clock 0) subject email n name w = (Inl IdConflict, w1)" by (metis fst_eqD surj_pair)
    then have "google_answer (googleSignIn svc (clock 0) subject email n name w) = (Inl IdConflict, w1)"
      by (simp add: google_answer_def)
    then have "iw_db w1 = iw_db w" by (rule googleSignIn_error) simp_all
    moreover have "iw_db w' = iw_db w1" using that first by (intro googleSignIn_error[OF _ e]) simp
    ultimately show ?thesis by simp
  next
    case False
    then have "google_answer (googleSignIn svc (clock 0) subject email n name w) = (Inl e, w')"
      using that by (cases "googleSignIn svc (clock 0) subject email n name w") simp
    then show ?thesis by (rule googleSignIn_error[OF _ e])
  qed
  then show ?thesis
    using run by (auto simp: AuthenticateWithGoogle_def google_loop_rounds split: option.splits sum.splits if_splits)
qed

text \<open>The errors that are answered after a commit.\<close>

definition id_commits_error :: "id_request \<Rightarrow> id_error \<Rightarrow> bool" where
  "id_commits_error req e \<longleftrightarrow> (case req of
     Req_VerifyEmail _ \<Rightarrow> e = IdInvalidVerificationCode
   | Req_Refresh _ \<Rightarrow> e = IdInvalidRefresh
   | Req_AuthenticateWithGoogle _ \<Rightarrow> e = IdAccountLinkRequired \<or> e = IdIdentityAlreadyLinked
   | _ \<Rightarrow> False)"

lemmas id_operation_error = Register_atomic[unfolded atomic_in_def, rule_format] Login_atomic[unfolded atomic_in_def, rule_format]
  Logout_atomic[unfolded atomic_in_def, rule_format] reading_atomic[unfolded atomic_in_def, rule_format]
  Resend_error VerifyEmail_error Refresh_error

text \<open>
  C34: an identity request that answers an error leaves the database exactly as it was; the only exceptions
  are the wrong code that is counted, the refresh token that ends its session, and the refused Google link.
\<close>

theorem id_failed_request_keeps_database:
  assumes "id_handle svc now sent req w = (Some e, w')" and "\<not> id_commits_error req e"
  shows "iw_db w' = iw_db w"
proof (cases req)
  case (Req_AuthenticateWithGoogle input)
  obtain r where "AuthenticateWithGoogle svc (\<lambda>tries. if tries = 0 then now else sent) input w = Some r"
    using AuthenticateWithGoogle_returns by blast
  then show ?thesis
    using assms Req_AuthenticateWithGoogle by (auto simp: id_commits_error_def dest: AuthenticateWithGoogle_error)
qed (use assms in \<open>auto simp: id_commits_error_def dest: id_operation_error\<close>)

lemma ex_resend_run:
  "ResendVerification ex_id_service 2 2 (ex_token ''vft_'' (CHR ''A'')) (ex_id_world ex_id_db1 (CHR ''B'') []) =
     (Inl IdVerificationThrottled, ex_id_world ex_id_db1 (CHR ''B'') [])"
proof -
  have "resend_transaction ex_id_service 2 (ex_token ''vft_'' (CHR ''A'')) (ex_id_world ex_id_db1 (CHR ''B'') []) =
      (Inr Resend_Throttled, ex_id_world ex_id_db1 (CHR ''B'') [])"
    by (simp add: resend_transaction_def hashToken_def ex_verify_steps ex_verification_def minimumResendInterval_def duration_defs ret_def)
  moreover have "id_validToken (ex_token ''vft_'' (CHR ''A'')) ''vft_''" by (simp add: ex_tokens_valid)
  ultimately show ?thesis by (simp add: ResendVerification_def transaction_run(1) fail_def)
qed

theorem id_failed_request_keeps_database_witness:
  "fst (id_handle ex_id_service 2 2 (Req_ResendVerification (ex_token ''vft_'' (CHR ''A''))) (ex_id_world ex_id_db1 (CHR ''B'') [])) =
     Some IdVerificationThrottled \<and>
   iw_db (snd (id_handle ex_id_service 2 2 (Req_ResendVerification (ex_token ''vft_'' (CHR ''A''))) (ex_id_world ex_id_db1 (CHR ''B'') []))) =
     ex_id_db1"
proof -
  have run: "id_handle ex_id_service 2 2 (Req_ResendVerification (ex_token ''vft_'' (CHR ''A''))) (ex_id_world ex_id_db1 (CHR ''B'') []) =
      (Some IdVerificationThrottled, ex_id_world ex_id_db1 (CHR ''B'') [])"
    by (simp add: ex_resend_run)
  from id_failed_request_keeps_database[OF run] show ?thesis
    unfolding run by (simp add: id_commits_error_def)
qed

text \<open>
  C35: the unbounded retry of a Google sign-in always ends, and what it answers depends on the instants of
  its first two rounds only: it never goes round a third time.
\<close>

theorem google_sign_in_returns:
  "\<exists>r. AuthenticateWithGoogle svc clock input w = Some r \<and>
     AuthenticateWithGoogle svc (\<lambda>n. if n = 0 then clock 0 else clock 1) input w = Some r"
  by (simp add: AuthenticateWithGoogle_def google_loop_rounds split: option.split sum.split)

end
