(* ===== verification/Id_Password.thy ===== *)
theory Id_Password
  imports Go_Net
begin

text \<open>
  The password hasher (\<open>internal/identity/password.go\<close>): the encoded form of a hash, its parser, and the
  round trip between them.  Argon2 itself is a parameter.  \<open>Sscanf\<close> is written out as the two formats use
  it: white space is skipped before a number, a newline there is an error, and what follows the last
  number is not looked at.  The worker semaphore and cancellation are not modelled.
\<close>

section \<open>Standard base64 and formatted scanning\<close>

text \<open>The two alphabets differ in their last two characters.\<close>

definition to_std :: "char \<Rightarrow> char" where
  "to_std c = (if c = CHR ''-'' then CHR ''+'' else if c = CHR ''_'' then CHR ''/'' else c)"

definition of_std :: "char \<Rightarrow> char" where
  "of_std c = (if c = CHR ''+'' then CHR ''-'' else if c = CHR ''/'' then CHR ''_'' else c)"

definition RawStdEncode :: "bytes \<Rightarrow> string" where
  "RawStdEncode bs = map to_std (EncodeToString bs)"

definition RawStdDecode :: "bool \<Rightarrow> string \<Rightarrow> bytes option" where
  "RawStdDecode strict s =
     (if CHR ''-'' \<in> set s \<or> CHR ''_'' \<in> set s then None else DecodeString strict (map of_std s))"

definition decimal_char :: "nat \<Rightarrow> char" where "decimal_char n = nat_byte (48 + n)"

fun decimal :: "nat \<Rightarrow> string" where
  "decimal n = (if n < 10 then [decimal_char n] else decimal (n div 10) @ [decimal_char (n mod 10)])"

declare decimal.simps [simp del]

definition scan_space :: "string \<Rightarrow> string option" where
  "scan_space s = (let bs = map byte_nat s; rest = trim_left bs in
     if 10 \<in> set (take (length bs - length rest) bs) then None else Some (map nat_byte rest))"

definition scan_literal :: "string \<Rightarrow> string \<Rightarrow> string option" where
  "scan_literal literal s = (if HasPrefix s literal then Some (drop (length literal) s) else None)"

definition scan_digits :: "string \<Rightarrow> (nat \<times> string) option" where
  "scan_digits s = (let ds = takeWhile decimal_digit s in
     if ds = [] then None else Some (decimal_value ds, dropWhile decimal_digit s))"

text \<open>\<open>%d\<close> into an unsigned integer of a width, and into an \<open>int\<close>.\<close>

definition scan_uint :: "nat \<Rightarrow> string \<Rightarrow> (nat \<times> string) option" where
  "scan_uint bits s = (case scan_space s of None \<Rightarrow> None | Some s \<Rightarrow>
     case scan_digits s of None \<Rightarrow> None | Some (n, rest) \<Rightarrow> if n < 2 ^ bits then Some (n, rest) else None)"

definition scan_int :: "string \<Rightarrow> (int \<times> string) option" where
  "scan_int s = (case scan_space s of None \<Rightarrow> None | Some s \<Rightarrow>
     let negative = (s \<noteq> [] \<and> hd s = CHR ''-''); signed = (s \<noteq> [] \<and> (hd s = CHR ''-'' \<or> hd s = CHR ''+'')) in
     case scan_digits (if signed then tl s else s) of None \<Rightarrow> None | Some (n, rest) \<Rightarrow>
       let v = (if negative then - int n else int n) in
       if - (2 ^ 63) \<le> v \<and> v < 2 ^ 63 then Some (v, rest) else None)"

section \<open>The hasher\<close>

record password_hasher =
  ph_time :: "32 word"
  ph_memory :: "32 word"
  ph_parallelism :: "8 word"
  ph_saltLength :: "32 word"
  ph_keyLength :: "32 word"

record argon_parameters =
  ap_time :: "32 word"
  ap_memory :: "32 word"
  ap_parallelism :: "8 word"

type_synonym argon = "bytes \<Rightarrow> bytes \<Rightarrow> 32 word \<Rightarrow> 32 word \<Rightarrow> 8 word \<Rightarrow> 32 word \<Rightarrow> bytes"

definition argon2_Version :: int where "argon2_Version = 19"
definition maximumStoredMemory :: nat where "maximumStoredMemory = 256 * 1024"

definition NewPasswordHasher :: password_hasher where
  "NewPasswordHasher = \<lparr> ph_time = 3, ph_memory = 64 * 1024, ph_parallelism = 4, ph_saltLength = 16, ph_keyLength = 32 \<rparr>"

definition encode_hash :: "password_hasher \<Rightarrow> bytes \<Rightarrow> bytes \<Rightarrow> string" where
  "encode_hash hasher salt key =
     ''$argon2id$v='' @ decimal (nat argon2_Version) @ ''$m='' @ decimal (unat (ph_memory hasher)) @
     '',t='' @ decimal (unat (ph_time hasher)) @ '',p='' @ decimal (unat (ph_parallelism hasher)) @
     ''$'' @ RawStdEncode salt @ ''$'' @ RawStdEncode key"

text \<open>The salt is what \<open>io.ReadFull\<close> read; \<open>None\<close> is its error.\<close>

definition Hash :: "argon \<Rightarrow> password_hasher \<Rightarrow> string \<Rightarrow> bytes \<Rightarrow> string option \<times> bytes" where
  "Hash IDKey hasher password random =
     (case ReadFull (unat (ph_saltLength hasher)) random of (salt, rest) \<Rightarrow>
       (case salt of None \<Rightarrow> None
        | Some salt \<Rightarrow> Some (encode_hash hasher salt
            (IDKey password salt (ph_time hasher) (ph_memory hasher) (ph_parallelism hasher) (ph_keyLength hasher))), rest))"

definition parse_version :: "string \<Rightarrow> int option" where
  "parse_version s = (case scan_literal ''v='' s of None \<Rightarrow> None | Some s \<Rightarrow> map_option fst (scan_int s))"

definition parse_parameters :: "string \<Rightarrow> argon_parameters option" where
  "parse_parameters s =
     (case scan_literal ''m='' s of None \<Rightarrow> None | Some s \<Rightarrow>
      case scan_uint 32 s of None \<Rightarrow> None | Some (memory, s) \<Rightarrow>
      case scan_literal '',t='' s of None \<Rightarrow> None | Some s \<Rightarrow>
      case scan_uint 32 s of None \<Rightarrow> None | Some (time, s) \<Rightarrow>
      case scan_literal '',p='' s of None \<Rightarrow> None | Some s \<Rightarrow>
      case scan_uint 8 s of None \<Rightarrow> None | Some (parallelism, _) \<Rightarrow>
        Some \<lparr> ap_time = word_of_nat time, ap_memory = word_of_nat memory, ap_parallelism = word_of_nat parallelism \<rparr>)"

definition parameters_ok :: "argon_parameters \<Rightarrow> bool" where
  "parameters_ok p \<longleftrightarrow> \<not> (ap_memory p < 8 * 1024 \<or> ap_memory p > word_of_nat maximumStoredMemory \<or>
     ap_time p = 0 \<or> ap_time p > 10 \<or> ap_parallelism p = 0 \<or> ap_parallelism p > 32)"

definition parsePasswordHash :: "string \<Rightarrow> (argon_parameters \<times> bytes \<times> bytes) option" where
  "parsePasswordHash encodedHash = (let parts = Split CHR ''$'' encodedHash in
     if length parts \<noteq> 6 \<or> parts ! 0 \<noteq> [] \<or> parts ! 1 \<noteq> ''argon2id'' then None
     else if parse_version (parts ! 2) \<noteq> Some argon2_Version then None
     else case parse_parameters (parts ! 3) of None \<Rightarrow> None | Some parameters \<Rightarrow>
       if \<not> parameters_ok parameters then None
       else case RawStdDecode True (parts ! 4) of None \<Rightarrow> None | Some salt \<Rightarrow>
         if length salt < 16 \<or> length salt > 64 then None
         else case RawStdDecode True (parts ! 5) of None \<Rightarrow> None | Some key \<Rightarrow>
           if length key < 16 \<or> length key > 64 then None
           else Some (parameters, salt, key))"

definition Verify :: "argon \<Rightarrow> string \<Rightarrow> string \<Rightarrow> bool option" where
  "Verify IDKey password encodedHash =
     (case parsePasswordHash encodedHash of None \<Rightarrow> None
      | Some (parameters, salt, expectedKey) \<Rightarrow>
          Some (hmac_Equal (IDKey password salt (ap_time parameters) (ap_memory parameters) (ap_parallelism parameters)
            (word_of_nat (length expectedKey))) expectedKey))"

section \<open>The round trip\<close>

lemma to_of_std: "CHR ''+'' \<noteq> c \<and> CHR ''/'' \<noteq> c \<Longrightarrow> of_std (to_std c) = c"
  by (auto simp: to_std_def of_std_def)

lemma std_not_url: "CHR ''+'' \<notin> set base64URLAlphabet" "CHR ''/'' \<notin> set base64URLAlphabet"
  by (simp_all add: base64URLAlphabet_def)

lemma RawStd_roundtrip [simp]: "RawStdDecode strict (RawStdEncode bs) = Some bs"
proof -
  have "map of_std (map to_std (EncodeToString bs)) = EncodeToString bs"
    unfolding map_map using set_EncodeToString[of bs] std_not_url
    by (intro map_idI) (auto intro!: to_of_std)
  moreover have "CHR ''-'' \<notin> to_std ` S" "CHR ''_'' \<notin> to_std ` S" for S
    by (auto simp: to_std_def split: if_splits)
  ultimately show ?thesis by (simp add: RawStdDecode_def RawStdEncode_def)
qed

lemma decimal_digits: "c \<in> set (decimal n) \<Longrightarrow> decimal_digit c"
  by (induction n rule: decimal.induct)
    (subst (asm) (2) decimal.simps, auto simp: decimal_digit_def decimal_char_def split: if_splits)

lemma decimal_nonempty [simp]: "decimal n \<noteq> []"
  by (subst decimal.simps) simp

lemma decimal_value_decimal [simp]: "decimal_value (decimal n) = n"
proof (induction n rule: decimal.induct)
  case (1 n)
  then show ?case
    by (subst decimal.simps) (auto simp: decimal_value_def decimal_char_def)
qed

lemma scan_digits_decimal:
  assumes "r = [] \<or> \<not> decimal_digit (hd r)"
  shows "scan_digits (decimal n @ r) = Some (n, r)"
proof -
  have "takeWhile decimal_digit (decimal n @ r) = decimal n" "dropWhile decimal_digit (decimal n @ r) = r"
    using assms decimal_digits[of _ n] by (cases r; simp add: takeWhile_append dropWhile_append)+
  then show ?thesis by (simp add: scan_digits_def)
qed

lemma scan_space_decimal: "scan_space (decimal n @ r) = Some (decimal n @ r)"
proof -
  let ?bs = "map byte_nat (decimal n @ r)"
  have "decimal_digit (hd (decimal n @ r))"
    using decimal_digits[of "hd (decimal n)" n] by simp
  then have "trim_left ?bs = ?bs"
    by (intro trim_left_plain) (simp add: hd_map decimal_digit_def ascii_space_def)
  then show ?thesis by (simp add: scan_space_def Let_def comp_def)
qed

lemma scan_uint_decimal:
  "n < 2 ^ bits \<Longrightarrow> r = [] \<or> \<not> decimal_digit (hd r) \<Longrightarrow> scan_uint bits (decimal n @ r) = Some (n, r)"
  by (simp add: scan_uint_def scan_space_decimal scan_digits_decimal)

lemma scan_literal_append [simp]: "scan_literal p (p @ r) = Some r"
  by (simp add: scan_literal_def)

lemma parse_version_printed: "parse_version (''v='' @ decimal (nat argon2_Version)) = Some argon2_Version"
  by (simp add: argon2_Version_def) code_simp

lemma parse_parameters_printed:
  "parse_parameters (''m='' @ decimal (unat (ph_memory h)) @ '',t='' @ decimal (unat (ph_time h)) @
     '',p='' @ decimal (unat (ph_parallelism h))) =
   Some \<lparr> ap_time = ph_time h, ap_memory = ph_memory h, ap_parallelism = ph_parallelism h \<rparr>"
proof -
  have no: "\<not> decimal_digit CHR '',''" by (simp add: decimal_digit_def byte_nat_def)
  have s32: "scan_uint 32 (decimal (unat x) @ CHR '','' # r) = Some (unat x, CHR '','' # r)" for x :: "32 word" and r
    by (rule scan_uint_decimal) (use unsigned_less[of x] no in simp_all)
  have p: "scan_uint 8 (decimal (unat (ph_parallelism h))) = Some (unat (ph_parallelism h), [])"
    using scan_uint_decimal[of "unat (ph_parallelism h)" 8 "[]"] unsigned_less[of "ph_parallelism h"] by simp
  have t: "scan_literal '',t='' (CHR '','' # CHR ''t'' # CHR ''='' # r) = Some r"
    "scan_literal '',p='' (CHR '','' # CHR ''p'' # CHR ''='' # r) = Some r"
    "scan_literal ''m='' (CHR ''m'' # CHR ''='' # r) = Some r" for r
    by (simp_all add: scan_literal_def HasPrefix_def)
  show ?thesis
    unfolding parse_parameters_def by (simp add: s32 p t)
qed

text \<open>The parts of an encoded hash hold no dollar sign.\<close>

lemma std_no_dollar: "CHR ''$'' \<notin> set (RawStdEncode bs)"
proof -
  have "CHR ''$'' \<notin> set base64URLAlphabet" by (simp add: base64URLAlphabet_def)
  then show ?thesis
    using set_EncodeToString[of bs] by (auto simp: RawStdEncode_def to_std_def split: if_splits)
qed

lemma decimal_no_dollar: "CHR ''$'' \<notin> set (decimal n)"
  using decimal_digits[of "CHR ''$''" n] by (auto simp: decimal_digit_def byte_nat_def)

lemma Split_join: "CHR ''$'' \<notin> set p \<Longrightarrow> Split CHR ''$'' (p @ CHR ''$'' # s) = p # Split CHR ''$'' s"
  by (simp add: Split_append Split_plain)

lemma Split_encoded:
  "Split CHR ''$'' (encode_hash h salt key) =
     [[], ''argon2id'', ''v='' @ decimal (nat argon2_Version),
      ''m='' @ decimal (unat (ph_memory h)) @ '',t='' @ decimal (unat (ph_time h)) @
      '',p='' @ decimal (unat (ph_parallelism h)), RawStdEncode salt, RawStdEncode key]"
proof -
  let ?v = "''v='' @ decimal (nat argon2_Version)"
  let ?m = "''m='' @ decimal (unat (ph_memory h)) @ '',t='' @ decimal (unat (ph_time h)) @
      '',p='' @ decimal (unat (ph_parallelism h))"
  have "encode_hash h salt key = [] @ CHR ''$'' # ''argon2id'' @ CHR ''$'' # ?v @ CHR ''$'' # ?m @ CHR ''$'' #
      RawStdEncode salt @ CHR ''$'' # RawStdEncode key"
    by (simp add: encode_hash_def)
  moreover have "CHR ''$'' \<notin> set ?v" "CHR ''$'' \<notin> set ?m" "CHR ''$'' \<notin> set ''argon2id''"
    by (simp_all add: decimal_no_dollar)
  ultimately show ?thesis
    by (simp only: Split_join Split_plain std_no_dollar list.set empty_iff not_False_eq_True)
qed

text \<open>The parameters the parser accepts back.\<close>

definition hasher_ok :: "password_hasher \<Rightarrow> bool" where
  "hasher_ok h \<longleftrightarrow> parameters_ok \<lparr> ap_time = ph_time h, ap_memory = ph_memory h, ap_parallelism = ph_parallelism h \<rparr> \<and>
     16 \<le> ph_saltLength h \<and> ph_saltLength h \<le> 64 \<and> 16 \<le> ph_keyLength h \<and> ph_keyLength h \<le> 64"

lemma NewPasswordHasher_ok: "hasher_ok NewPasswordHasher"
  by (simp add: hasher_ok_def NewPasswordHasher_def parameters_ok_def maximumStoredMemory_def)

lemma parse_encoded:
  assumes "hasher_ok h" and "length salt = unat (ph_saltLength h)" and "length key = unat (ph_keyLength h)"
  shows "parsePasswordHash (encode_hash h salt key) =
    Some (\<lparr> ap_time = ph_time h, ap_memory = ph_memory h, ap_parallelism = ph_parallelism h \<rparr>, salt, key)"
proof -
  have "16 \<le> length salt" "length salt \<le> 64" "16 \<le> length key" "length key \<le> 64"
    using assms unfolding hasher_ok_def word_le_nat_alt by simp_all
  then show ?thesis
    using assms(1) unfolding parsePasswordHash_def Split_encoded hasher_ok_def
    by (simp del: append.simps add: parse_version_printed parse_parameters_printed)
qed

text \<open>
  C30: a password verifies against an encoded hash exactly when Argon2 gives it the key that the hashed
  password has under the same salt and parameters; in particular the hashed password itself verifies.
  Hypothesis: Argon2 answers a key of the length it is asked for.
\<close>

theorem hash_verifies:
  assumes "hasher_ok hasher" and "\<And>p s t m l k. length (IDKey p s t m l k) = unat k"
    and "Hash IDKey hasher password random = (Some encoded, rest)"
  shows "\<exists>salt. random = salt @ rest \<and> length salt = unat (ph_saltLength hasher) \<and>
    (\<forall>attempt. Verify IDKey attempt encoded =
      Some (let key = (\<lambda>p. IDKey p salt (ph_time hasher) (ph_memory hasher) (ph_parallelism hasher) (ph_keyLength hasher))
            in key attempt = key password))"
proof -
  obtain salt where salt: "random = salt @ rest" "length salt = unat (ph_saltLength hasher)"
    and encoded: "encoded = encode_hash hasher salt
      (IDKey password salt (ph_time hasher) (ph_memory hasher) (ph_parallelism hasher) (ph_keyLength hasher))"
    using assms(3) by (auto simp: Hash_def split: prod.splits option.splits dest!: ReadFull_Some)
  show ?thesis
    using salt by (intro exI[of _ salt])
      (simp add: Verify_def encoded parse_encoded assms(1,2) hmac_Equal_def Let_def)
qed

text \<open>A key derivation with the documented length, to try the theorem on.\<close>

definition ex_IDKey :: argon where
  "ex_IDKey password salt t m l k = take (unat k) (password @ salt @ replicate (unat k) CHR 0x00)"

theorem hash_verifies_witness:
  "\<exists>encoded. fst (Hash ex_IDKey NewPasswordHasher ''correct horse battery'' (replicate 16 CHR 0x07)) = Some encoded \<and>
     Verify ex_IDKey ''correct horse battery'' encoded = Some True \<and>
     Verify ex_IDKey ''wrong password'' encoded = Some False"
proof -
  have salt: "ReadFull 16 (replicate 16 CHR 0x07) = (Some (replicate 16 CHR 0x07), [])"
    by (simp add: ReadFull_def)
  obtain encoded where e: "Hash ex_IDKey NewPasswordHasher ''correct horse battery'' (replicate 16 CHR 0x07) = (Some encoded, [])"
    by (auto simp: Hash_def salt NewPasswordHasher_def)
  have len: "length (ex_IDKey p s t m l k) = unat k" for p s t m l k
    by (simp add: ex_IDKey_def)
  have "ex_IDKey ''wrong password'' s t m l 32 \<noteq> ex_IDKey ''correct horse battery'' s t m l 32" for s t m l
    by (simp add: ex_IDKey_def)
  then show ?thesis
    using hash_verifies[OF NewPasswordHasher_ok len e]
    by (intro exI[of _ encoded] conjI) (simp add: e, auto simp: Let_def NewPasswordHasher_def)
qed

end
