(* ===== verification/Http_Lib.thy ===== *)
theory Http_Lib
  imports Client_Address Rate_Limit Id_Password
begin

text \<open>
  What the two HTTP modules share (the helpers at the end of \<open>internal/connectors/httpapi/handler.go\<close>,
  which \<open>internal/identity/httpapi/handler.go\<close> repeats).  A request carries the values of each header under
  its canonical name, its cookies, the named parts of its path and its body; a response, the headers and
  cookies set so far and, once written, its status and its document.  A document is the value handed to the
  JSON encoder.  Decoding a body is a parameter, over what \<open>http.MaxBytesReader\<close> lets through.
\<close>

section \<open>Requests\<close>

record web_request = http_request +
  rq_header :: "string \<Rightarrow> string list"
  rq_cookies :: "(string \<times> string) list"
  rq_path_value :: "string \<Rightarrow> string"
  rq_body :: bytes

definition Header_Get :: "web_request \<Rightarrow> string \<Rightarrow> string" where
  "Header_Get request key = (case rq_header request key of [] \<Rightarrow> [] | value # _ \<Rightarrow> value)"

text \<open>\<open>strings.Fields\<close>: the words between runs of white space, as \<open>TrimSpace\<close> knows it.\<close>

definition flush :: "nat list \<Rightarrow> nat list list \<Rightarrow> nat list list" where
  "flush word words = (if word = [] then words else word # words)"

fun fields_from :: "nat list \<Rightarrow> nat list \<Rightarrow> nat list list" where
  "fields_from word (a # b # c # r) =
     (if ascii_space a then flush word (fields_from [] (b # c # r))
      else if a = 194 \<and> (b = 133 \<or> b = 160) then flush word (fields_from [] (c # r))
      else if space3 a b c then flush word (fields_from [] r)
      else fields_from (word @ [a]) (b # c # r))"
| "fields_from word [a, b] =
     (if ascii_space a then flush word (fields_from [] [b])
      else if a = 194 \<and> (b = 133 \<or> b = 160) then flush word []
      else fields_from (word @ [a]) [b])"
| "fields_from word [a] = (if ascii_space a then flush word [] else [word @ [a]])"
| "fields_from word [] = flush word []"

definition Fields :: "string \<Rightarrow> string list" where
  "Fields s = map (map nat_byte) (fields_from [] (map byte_nat s))"

text \<open>
  \<open>strings.EqualFold\<close> against the two schemes the code uses, none of whose letters folds to a rune outside
  ASCII.
\<close>

definition EqualFold :: "string \<Rightarrow> string \<Rightarrow> bool" where
  "EqualFold s scheme \<longleftrightarrow> map lower_byte s = map lower_byte scheme"

definition authorizationToken :: "web_request \<Rightarrow> string \<Rightarrow> string option" where
  "authorizationToken request scheme =
     (case rq_header request ''Authorization'' of
        [value] \<Rightarrow> (case Fields value of
            [given, token] \<Rightarrow> if EqualFold given scheme then Some token else None
          | _ \<Rightarrow> None)
      | _ \<Rightarrow> None)"

section \<open>Responses\<close>

record cookie =
  ck_Name :: string
  ck_Value :: string
  ck_Path :: string
  ck_Expires :: instant
  ck_MaxAge :: int
  ck_HttpOnly :: bool
  ck_Secure :: bool
  ck_SameSiteStrict :: bool

datatype 'd document = ErrorDocument (error_code: string) (error_message: string) | Document 'd

record 'd response =
  rs_header :: "(string \<times> string) list"
  rs_cookies :: "cookie list"
  rs_status :: "int option"
  rs_document :: "'d document option"

definition header_Set :: "string \<Rightarrow> string \<Rightarrow> 'd response \<Rightarrow> 'd response" where
  "header_Set key value response =
     response\<lparr>rs_header := filter (\<lambda>(k, _). k \<noteq> key) (rs_header response) @ [(key, value)]\<rparr>"

definition header_Add :: "string \<Rightarrow> string \<Rightarrow> 'd response \<Rightarrow> 'd response" where
  "header_Add key value response = response\<lparr>rs_header := rs_header response @ [(key, value)]\<rparr>"

definition SetCookie :: "cookie \<Rightarrow> 'd response \<Rightarrow> 'd response" where
  "SetCookie c response = response\<lparr>rs_cookies := rs_cookies response @ [c]\<rparr>"

definition WriteHeader :: "int \<Rightarrow> 'd response \<Rightarrow> 'd response" where
  "WriteHeader status response = response\<lparr>rs_status := Some status\<rparr>"

definition write_document :: "int \<Rightarrow> 'd document \<Rightarrow> 'd response \<Rightarrow> 'd response" where
  "write_document status document response =
     (WriteHeader status (header_Set ''Content-Type'' ''application/json'' response))\<lparr>rs_document := Some document\<rparr>"

definition writeJSON :: "int \<Rightarrow> 'd \<Rightarrow> 'd response \<Rightarrow> 'd response" where
  "writeJSON status document = write_document status (Document document)"

definition writeError :: "int \<Rightarrow> string \<Rightarrow> string \<Rightarrow> 'd response \<Rightarrow> 'd response" where
  "writeError status code message = write_document status (ErrorDocument code message)"

text \<open>A response nothing has been written to.\<close>

definition empty_response :: "'d response" where
  "empty_response = \<lparr> rs_header = [], rs_cookies = [], rs_status = None, rs_document = None \<rparr>"

lemmas response_defs = header_Set_def header_Add_def SetCookie_def WriteHeader_def write_document_def writeJSON_def writeError_def

definition retry_seconds :: "duration \<Rightarrow> int" where
  "retry_seconds retryAfter = max 1 (go_div (retryAfter + second - 1) second)"

definition Itoa :: "int \<Rightarrow> string" where
  "Itoa n = (if n < 0 then ''-'' @ decimal (nat (- n)) else decimal (nat n))"

text \<open>
  \<open>max(1, int(expiresAt.Sub(now).Seconds()))\<close>; the rounding of \<open>Seconds\<close> to a float of 53 bits is left out.
\<close>

definition cookie_age :: "instant \<Rightarrow> instant \<Rightarrow> int" where
  "cookie_age expiresAt now = max 1 (go_div (expiresAt - now) second)"

section \<open>Bodies\<close>

definition maximumBodySize :: nat where "maximumBodySize = 16 * 1024"

record json_reader =
  jr_rest :: bytes
  jr_exceeded :: bool

datatype json_fault = Json_EOF | Json_TooLarge | Json_Invalid

type_synonym 'a json_decoder = "json_reader \<Rightarrow> (json_fault + 'a) \<times> json_reader"

text \<open>\<open>mime.ParseMediaType\<close> without its parameters, and the decoding of an empty object.\<close>

record json_library =
  ParseMediaType :: "string \<Rightarrow> string option"
  decode_empty :: "unit json_decoder"

datatype decode_error = UnsupportedMediaType | TrailingJSON | BodyFault json_fault

definition MaxBytesReader :: "bytes \<Rightarrow> json_reader" where
  "MaxBytesReader body = \<lparr> jr_rest = take maximumBodySize body, jr_exceeded = (maximumBodySize < length body) \<rparr>"

definition decodeJSON :: "json_library \<Rightarrow> 'a json_decoder \<Rightarrow> web_request \<Rightarrow> decode_error + 'a" where
  "decodeJSON json decode request =
     (if ParseMediaType json (Header_Get request ''Content-Type'') \<noteq> Some ''application/json'' then Inl UnsupportedMediaType
      else case decode (MaxBytesReader (rq_body request)) of
        (Inl e, _) \<Rightarrow> Inl (BodyFault e)
      | (Inr value, reader) \<Rightarrow> (case fst (decode_empty json reader) of Inl Json_EOF \<Rightarrow> Inr value | _ \<Rightarrow> Inl TrailingJSON))"

definition writeDecodeError :: "decode_error \<Rightarrow> 'd response \<Rightarrow> 'd response" where
  "writeDecodeError e =
     (if e = UnsupportedMediaType then writeError 415 ''unsupported_media_type'' ''Content-Type must be application/json''
      else if e = BodyFault Json_TooLarge then writeError 413 ''request_too_large'' ''Request body is too large''
      else writeError 400 ''invalid_json'' ''Request body must be one valid JSON object'')"

section \<open>Gates\<close>

type_synonym ('d, 'w) handler = "web_request \<Rightarrow> 'd response \<Rightarrow> 'w \<Rightarrow> 'd response \<times> 'w"

text \<open>The origin check: what it leaves of the response, and whether the request may go on.\<close>

definition allowedBrowserOrigin :: "string list \<Rightarrow> web_request \<Rightarrow> 'd response \<Rightarrow> bool \<times> 'd response" where
  "allowedBrowserOrigin allowedOrigins request response =
     (let origin = Header_Get request ''Origin'';
          forbidden = writeError 403 ''origin_not_allowed'' ''Request origin is not allowed'' in
      if origin \<noteq> [] then
        let response = header_Add ''Vary'' ''Origin'' response in
        if origin \<in> set allowedOrigins then (True, response) else (False, forbidden response)
      else if Header_Get request ''Sec-Fetch-Site'' \<noteq> ''cross-site'' then (True, response)
      else (False, forbidden response))"

text \<open>
  A limiter inside the state is a pair of a reader and a writer.  A panic of the limiter would be recovered
  by the router (\<open>internal/platform/httpserver/router.go\<close>) into a bare 500.
\<close>

definition rateLimited ::
  "ip_net list \<Rightarrow> instant \<Rightarrow> ('w \<Rightarrow> rate_limiter) \<times> (rate_limiter \<Rightarrow> 'w \<Rightarrow> 'w) \<Rightarrow> ('d, 'w) handler \<Rightarrow> ('d, 'w) handler" where
  "rateLimited trustedProxies now limiter next_handler request response w =
     (case Allow (RateLimitKey (http_request.truncate request) trustedProxies) now (fst limiter w) of
        None \<Rightarrow> (WriteHeader 500 response, w)
      | Some ((allowed, retryAfter), l) \<Rightarrow>
          let w = snd limiter l w in
          if \<not> allowed then
            (writeError 429 ''rate_limited'' ''Too many requests''
               (header_Set ''Retry-After'' (Itoa (retry_seconds retryAfter)) response), w)
          else next_handler request response w)"

end
