(* ===== verification/Conn_Http.thy ===== *)
theory Conn_Http
  imports Http_Lib Conn_Atomic Id_Machine
begin

text \<open>
  The connectors' HTTP surface (\<open>internal/connectors/httpapi/handler.go\<close>): the gates in front of each
  route, the handlers, what they answer and which cookie they set.  A handler works on the state of both
  modules, because it authenticates a browser against the identity service; \<open>reading\<close> holds the instants
  one request reads, by who reads them.
\<close>

section \<open>The handler\<close>

record conn_documents =
  json_of :: json_library
  dec_begin :: "begin_pairing_input json_decoder"
  dec_claim :: "(string \<times> string \<times> public_identity \<times> identity_proof) json_decoder"
  dec_device_id :: "string json_decoder"
  dec_device_key :: "string json_decoder"
  dec_name :: "string json_decoder"

record conn_handler =
  h_authentication :: id_service
  h_connectors :: conn_service
  h_documents :: conn_documents
  h_allowedOrigins :: "string list"
  h_trustedProxies :: "ip_net list"
  h_cookieSecure :: bool
  h_cookieName :: string
  h_cookiePath :: string

record conn_web =
  cw_conn :: conn_world
  cw_identity :: id_world
  cw_begin :: rate_limiter
  cw_claim :: rate_limiter
  cw_poll :: rate_limiter
  cw_ticket :: rate_limiter

record reading =
  at_limiter :: instant
  at_access :: instant
  at_service :: instant
  at_cookie :: instant

definition secureDeviceCookieName :: string where "secureDeviceCookieName = ''__Host-opencode_remote_device''"
definition developmentDeviceCookieName :: string where "developmentDeviceCookieName = ''opencode_remote_device''"

record conn_http_config =
  hc_AllowedOrigins :: "string list"
  hc_CookieSecure :: bool
  hc_TrustedProxies :: "ip_net list"

definition trimmed_origins :: "string list \<Rightarrow> string list" where
  "trimmed_origins origins = filter (\<lambda>origin. origin \<noteq> []) (map TrimSpace origins)"

definition NewHandler :: "id_service \<Rightarrow> conn_service \<Rightarrow> conn_documents \<Rightarrow> conn_http_config \<Rightarrow> conn_handler" where
  "NewHandler authentication connectorService documents config =
     \<lparr> h_authentication = authentication, h_connectors = connectorService, h_documents = documents,
       h_allowedOrigins = trimmed_origins (hc_AllowedOrigins config), h_trustedProxies = hc_TrustedProxies config,
       h_cookieSecure = hc_CookieSecure config,
       h_cookieName = (if hc_CookieSecure config then secureDeviceCookieName else developmentDeviceCookieName),
       h_cookiePath = (if hc_CookieSecure config then ''/'' else ''/v1'') \<rparr>"

text \<open>The limiters \<open>NewHandler\<close> makes, beside the worlds it is given.\<close>

definition new_limiters :: "conn_world \<Rightarrow> id_world \<Rightarrow> conn_web" where
  "new_limiters c i = \<lparr> cw_conn = c, cw_identity = i, cw_begin = NewRateLimiter 10 minute, cw_claim = NewRateLimiter 10 minute,
     cw_poll = NewRateLimiter 60 minute, cw_ticket = NewRateLimiter 60 minute \<rparr>"

section \<open>What is answered\<close>

record linked_document =
  ld_ID :: string
  ld_Name :: string
  ld_Identity :: public_identity
  ld_CreatedAt :: instant

datatype conn_document =
    ChallengeResponse string instant
  | BeginPairingResponse begin_pairing_result int
  | ClaimPairingResponse claim_pairing_result
  | ConfirmPairingResponse string string
  | PollPairingResponse poll_pairing_result
  | OwnConnectorResponse string instant
  | RotateConnectorResponse string instant
  | ActivateConnectorResponse instant
  | TicketResponse string instant string
  | ConnectorsResponse "linked_document list"
  | DevicesResponse "linked_document list"
  | RenameResponse string string
  | RotateDeviceResponse string instant
  | ActivateDeviceResponse instant

type_synonym conn_response = "conn_document response"
type_synonym conn_http = "(conn_document, conn_web) handler"

definition writeServiceError :: "conn_error \<Rightarrow> conn_response \<Rightarrow> conn_response" where
  "writeServiceError e response = (case e of
     AttemptsExceeded retryAfter \<Rightarrow> writeError 429 ''too_many_attempts'' ''Too many incorrect pairing codes; try again later''
       (header_Set ''Retry-After'' (Itoa (retry_seconds retryAfter)) response)
   | ErrInvalidCode \<Rightarrow> writeError 404 ''invalid_code'' ''Pairing code not found'' response
   | ErrInvalidInput \<Rightarrow> writeError 400 ''invalid_request'' ''Request is invalid'' response
   | ErrUnauthorized \<Rightarrow> writeError 401 ''unauthorized'' ''Credential is invalid or expired'' response
   | ErrExpired \<Rightarrow> writeError 410 ''expired'' ''Pairing has expired'' response
   | ErrConflict \<Rightarrow> writeError 409 ''invalid_state'' ''Operation is not valid in the current state'' response
   | ErrNotFound \<Rightarrow> writeError 500 ''internal_error'' ''Request could not be completed'' response
   | ErrOther \<Rightarrow> writeError 500 ''internal_error'' ''Request could not be completed'' response)"

definition writeDeviceCookie :: "conn_handler \<Rightarrow> instant \<Rightarrow> string \<Rightarrow> instant \<Rightarrow> conn_response \<Rightarrow> conn_response" where
  "writeDeviceCookie h now credential expiresAt = SetCookie
     \<lparr> ck_Name = h_cookieName h, ck_Value = credential, ck_Path = h_cookiePath h, ck_Expires = expiresAt,
       ck_MaxAge = cookie_age expiresAt now, ck_HttpOnly = True, ck_Secure = h_cookieSecure h, ck_SameSiteStrict = True \<rparr>"

definition setDeviceCookie :: "conn_handler \<Rightarrow> instant \<Rightarrow> confirm_pairing_result \<Rightarrow> conn_response \<Rightarrow> conn_response" where
  "setDeviceCookie h now result = writeDeviceCookie h now (cfr_DeviceCredential result) (cfr_DeviceCredentialExpiresAt result)"

section \<open>Calling the services\<close>

text \<open>The identity module behind the connectors' two callbacks (\<open>SetupServices\<close> in \<open>cmd/server/setup.go\<close>).\<close>

definition authorizer_error :: "(id_error + 'a) \<times> id_world \<Rightarrow> conn_error option" where
  "authorizer_error r = (case fst r of
     Inr _ \<Rightarrow> None | Inl e \<Rightarrow> if e = IdUnauthorized then Some ErrUnauthorized else Some ErrOther)"

definition wired :: "conn_service \<Rightarrow> instant \<Rightarrow> id_world \<Rightarrow> conn_service" where
  "wired svc now identity = with_authorizers svc
     (\<lambda>userID. authorizer_error (AuthorizeAccount userID identity))
     (\<lambda>userID sessionID. authorizer_error (AuthorizeSession now userID sessionID identity))"

text \<open>One call of the connectors service: its answer, and the state it leaves.\<close>

definition calling ::
  "conn_handler \<Rightarrow> reading \<Rightarrow> (conn_service \<Rightarrow> instant \<Rightarrow> 'a conn_op) \<Rightarrow> conn_web \<Rightarrow> (conn_error + 'a) \<times> conn_web" where
  "calling h t op w =
     (case op (wired (h_connectors h) (at_service t) (cw_identity w)) (at_service t) (cw_conn w) of
        (r, c) \<Rightarrow> (r, w\<lparr>cw_conn := c\<rparr>))"

text \<open>The common end of a handler: call the service, write its error, or write its result.\<close>

definition answering ::
  "conn_handler \<Rightarrow> reading \<Rightarrow> (conn_service \<Rightarrow> instant \<Rightarrow> 'a conn_op) \<Rightarrow> ('a \<Rightarrow> conn_response \<Rightarrow> conn_response) \<Rightarrow>
   conn_response \<Rightarrow> conn_web \<Rightarrow> conn_response \<times> conn_web" where
  "answering h t op write response w = (case calling h t op w of
     (Inl e, w) \<Rightarrow> (writeServiceError e response, w)
   | (Inr result, w) \<Rightarrow> (write result response, w))"

text \<open>\<open>accessPrincipal\<close>, with what follows it for the principal it finds.\<close>

definition accessPrincipal :: "conn_handler \<Rightarrow> reading \<Rightarrow> (access_principal \<Rightarrow> conn_http) \<Rightarrow> conn_http" where
  "accessPrincipal h t continue request response w =
     (let refused = writeServiceError ErrUnauthorized (header_Set ''WWW-Authenticate'' ''Bearer'' response) in
      case authorizationToken request ''Bearer'' of
        None \<Rightarrow> (refused, w)
      | Some token \<Rightarrow>
          (case AuthenticateAccess (h_authentication h) (at_access t) token (cw_identity w) of
             (Inl e, i) \<Rightarrow> (refused, w\<lparr>cw_identity := i\<rparr>)
           | (Inr who, i) \<Rightarrow> continue who request response (w\<lparr>cw_identity := i\<rparr>)))"

abbreviation account_of :: "access_principal \<Rightarrow> string" where "account_of who \<equiv> ac_ID (ap_Account who)"

text \<open>The handlers that present a bearer or pairing credential first.\<close>

definition presenting :: "string \<Rightarrow> (string \<Rightarrow> conn_http) \<Rightarrow> conn_http" where
  "presenting scheme continue request response w = (case authorizationToken request scheme of
     None \<Rightarrow> (writeServiceError ErrUnauthorized response, w)
   | Some credential \<Rightarrow> continue credential request response w)"

definition decoding :: "conn_handler \<Rightarrow> 'a json_decoder \<Rightarrow> ('a \<Rightarrow> conn_http) \<Rightarrow> conn_http" where
  "decoding h decode continue request response w =
     (case decodeJSON (json_of (h_documents h)) decode request of
        Inl e \<Rightarrow> (writeDecodeError e response, w)
      | Inr input \<Rightarrow> continue input request response w)"

definition no_content :: "'a \<Rightarrow> conn_response \<Rightarrow> conn_response" where
  "no_content _ = WriteHeader 204"

section \<open>The handlers\<close>

definition connectorChallenge :: "conn_handler \<Rightarrow> reading \<Rightarrow> conn_http" where
  "connectorChallenge h t request =
     answering h t (\<lambda>svc now. IssueChallenge svc now ChallengePurposeConnector None)
       (\<lambda>result. writeJSON 201 (ChallengeResponse (cr_Challenge result) (cr_ExpiresAt result)))"

definition deviceChallenge :: "conn_handler \<Rightarrow> reading \<Rightarrow> conn_http" where
  "deviceChallenge h t = accessPrincipal h t (\<lambda>who request.
     answering h t (\<lambda>svc now. IssueChallenge svc now ChallengePurposeDevice (Some (account_of who)))
       (\<lambda>result. writeJSON 201 (ChallengeResponse (cr_Challenge result) (cr_ExpiresAt result))))"

definition beginPairing :: "conn_handler \<Rightarrow> reading \<Rightarrow> conn_http" where
  "beginPairing h t = decoding h (dec_begin (h_documents h)) (\<lambda>input request.
     answering h t (\<lambda>svc now. BeginPairing svc now input)
       (\<lambda>result. writeJSON 201 (BeginPairingResponse result (max 1 (go_div (br_PollInterval result) second)))))"

definition claimPairing :: "conn_handler \<Rightarrow> reading \<Rightarrow> conn_http" where
  "claimPairing h t = accessPrincipal h t (\<lambda>who. decoding h (dec_claim (h_documents h)) (\<lambda>(userCode, deviceName, identity, proof) request.
     answering h t (\<lambda>svc now. ClaimPairing svc now \<lparr> ci_UserID = account_of who, ci_UserCode = userCode,
         ci_DeviceName = deviceName, ci_Identity = identity, ci_Proof = proof \<rparr>)
       (\<lambda>result. writeJSON 200 (ClaimPairingResponse result))))"

definition confirmPairing :: "conn_handler \<Rightarrow> reading \<Rightarrow> conn_http" where
  "confirmPairing h t = accessPrincipal h t (\<lambda>who. decoding h (dec_device_id (h_documents h)) (\<lambda>deviceID request.
     answering h t (\<lambda>svc now. ConfirmPairing svc now (account_of who) (rq_path_value request ''pairingID'') deviceID)
       (\<lambda>result response. writeJSON 200 (ConfirmPairingResponse (cfr_DeviceID result) (cfr_ConnectorID result))
          (setDeviceCookie h (at_cookie t) result response))))"

definition pollPairing :: "conn_handler \<Rightarrow> reading \<Rightarrow> conn_http" where
  "pollPairing h t = presenting ''Pairing'' (\<lambda>secret request response w.
     (case calling h t (\<lambda>svc now. PollPairing svc now secret) w of
        (Inl e, w) \<Rightarrow> (writeServiceError e response, w)
      | (Inr result, w) \<Rightarrow>
          if rq_path_value request ''pairingID'' \<noteq> po_PairingID result then (writeServiceError ErrUnauthorized response, w)
          else (writeJSON 200 (PollPairingResponse result) response, w)))"

definition cancelPairing :: "conn_handler \<Rightarrow> reading \<Rightarrow> conn_http" where
  "cancelPairing h t = presenting ''Pairing'' (\<lambda>secret request.
     answering h t (\<lambda>svc now. CancelPairing svc now (rq_path_value request ''pairingID'') secret) no_content)"

definition approvePairing :: "conn_handler \<Rightarrow> reading \<Rightarrow> conn_http" where
  "approvePairing h t = presenting ''Pairing'' (\<lambda>secret. decoding h (dec_device_key (h_documents h)) (\<lambda>deviceKeyID request.
     answering h t (\<lambda>svc now. ApprovePairing svc now (rq_path_value request ''pairingID'') secret deviceKeyID) no_content))"

definition ownConnector :: "conn_handler \<Rightarrow> reading \<Rightarrow> conn_http" where
  "ownConnector h t = presenting ''Bearer'' (\<lambda>credential request.
     answering h t (\<lambda>svc now. OwnConnector svc now credential)
       (\<lambda>c. writeJSON 200 (OwnConnectorResponse (c_ID c) (c_CreatedAt c))))"

definition revokeConnector :: "conn_handler \<Rightarrow> reading \<Rightarrow> conn_http" where
  "revokeConnector h t = presenting ''Bearer'' (\<lambda>credential request.
     answering h t (\<lambda>svc now. RevokeConnector svc now credential) no_content)"

definition rotateConnectorCredential :: "conn_handler \<Rightarrow> reading \<Rightarrow> conn_http" where
  "rotateConnectorCredential h t = presenting ''Bearer'' (\<lambda>credential request.
     answering h t (\<lambda>svc now. RotateConnectorCredential svc now credential)
       (\<lambda>r. writeJSON 201 (RotateConnectorResponse (ro_Credential r) (ro_ActivateBy r))))"

definition activateConnectorCredential :: "conn_handler \<Rightarrow> reading \<Rightarrow> conn_http" where
  "activateConnectorCredential h t = presenting ''Bearer'' (\<lambda>credential request.
     answering h t (\<lambda>svc now. ActivateConnectorCredential svc now credential)
       (\<lambda>expiresAt. writeJSON 200 (ActivateConnectorResponse expiresAt)))"

definition issueTicket_document :: "ticket_result \<Rightarrow> conn_response \<Rightarrow> conn_response" where
  "issueTicket_document result = writeJSON 201 (TicketResponse (tk_Ticket result) (tk_ExpiresAt result) ''/v1/relay'')"

definition http_issueTicket :: "conn_handler \<Rightarrow> reading \<Rightarrow> conn_http" where
  "http_issueTicket h t = presenting ''Bearer'' (\<lambda>credential. decoding h (dec_device_id (h_documents h)) (\<lambda>deviceID request response w.
     if HasPrefix credential ''orc_'' then
       (if Header_Get request ''Origin'' \<noteq> [] \<or> deviceID \<noteq> [] then (writeServiceError ErrUnauthorized response, w)
        else answering h t (\<lambda>svc now. IssueConnectorTicket svc now credential) issueTicket_document response w)
     else
       (case allowedBrowserOrigin (h_allowedOrigins h) request response of
          (False, response) \<Rightarrow> (response, w)
        | (True, response) \<Rightarrow>
            (case AuthenticateAccess (h_authentication h) (at_access t) credential (cw_identity w) of
               (Inl e, i) \<Rightarrow> (writeServiceError ErrUnauthorized response, w\<lparr>cw_identity := i\<rparr>)
             | (Inr who, i) \<Rightarrow>
                 (case map_of (rq_cookies request) (h_cookieName h) of
                    None \<Rightarrow> (writeServiceError ErrUnauthorized response, w\<lparr>cw_identity := i\<rparr>)
                  | Some value \<Rightarrow> answering h t
                      (\<lambda>svc now. IssueBrowserTicket svc now (account_of who) (ap_SessionID who) deviceID value (ap_AccessTokenExpiresAt who))
                      issueTicket_document response (w\<lparr>cw_identity := i\<rparr>))))))"

definition http_listConnectors :: "conn_handler \<Rightarrow> reading \<Rightarrow> conn_http" where
  "http_listConnectors h t = accessPrincipal h t (\<lambda>who request.
     answering h t (\<lambda>svc now. ListConnectors (account_of who))
       (\<lambda>items. writeJSON 200 (ConnectorsResponse (map (\<lambda>c.
          \<lparr> ld_ID = c_ID c, ld_Name = c_Name c, ld_Identity = c_Identity c, ld_CreatedAt = c_CreatedAt c \<rparr>) items))))"

text \<open>An account operation on a row it names answers 404 where the row is not the account's.\<close>

definition answering_owned ::
  "string \<Rightarrow> conn_handler \<Rightarrow> reading \<Rightarrow> (conn_service \<Rightarrow> instant \<Rightarrow> 'a conn_op) \<Rightarrow> ('a \<Rightarrow> conn_response \<Rightarrow> conn_response) \<Rightarrow>
   conn_response \<Rightarrow> conn_web \<Rightarrow> conn_response \<times> conn_web" where
  "answering_owned message h t op write response w = (case calling h t op w of
     (Inl e, w) \<Rightarrow> (if e = ErrNotFound then writeError 404 ''not_found'' message response else writeServiceError e response, w)
   | (Inr result, w) \<Rightarrow> (write result response, w))"

definition revokeAccountConnector :: "conn_handler \<Rightarrow> reading \<Rightarrow> conn_http" where
  "revokeAccountConnector h t = accessPrincipal h t (\<lambda>who request.
     answering_owned ''Connection is unavailable'' h t
       (\<lambda>svc now. RevokeAccountConnector svc now (account_of who) (rq_path_value request ''connectorID'')) no_content)"

definition revokeAccountDevice :: "conn_handler \<Rightarrow> reading \<Rightarrow> conn_http" where
  "revokeAccountDevice h t = accessPrincipal h t (\<lambda>who request.
     answering_owned ''Device is unavailable'' h t
       (\<lambda>svc now. RevokeAccountDevice svc now (account_of who) (rq_path_value request ''deviceID'')) no_content)"

definition http_listDevices :: "conn_handler \<Rightarrow> reading \<Rightarrow> conn_http" where
  "http_listDevices h t = accessPrincipal h t (\<lambda>who request.
     answering h t (\<lambda>svc now. ListDevices (account_of who))
       (\<lambda>items. writeJSON 200 (DevicesResponse (map (\<lambda>d.
          \<lparr> ld_ID = d_ID d, ld_Name = d_Name d, ld_Identity = d_Identity d, ld_CreatedAt = d_CreatedAt d \<rparr>) items))))"

definition renameAccountConnector :: "conn_handler \<Rightarrow> reading \<Rightarrow> conn_http" where
  "renameAccountConnector h t = accessPrincipal h t (\<lambda>who. decoding h (dec_name (h_documents h)) (\<lambda>name request.
     answering_owned ''Connection is unavailable'' h t
       (\<lambda>svc now. RenameAccountConnector svc now (account_of who) (rq_path_value request ''connectorID'') name)
       (\<lambda>c. writeJSON 200 (RenameResponse (c_ID c) (c_Name c)))))"

definition deviceRequest :: "conn_handler \<Rightarrow> reading \<Rightarrow> (access_principal \<Rightarrow> string \<Rightarrow> string \<Rightarrow> conn_http) \<Rightarrow> conn_http" where
  "deviceRequest h t continue = accessPrincipal h t (\<lambda>who. decoding h (dec_device_id (h_documents h)) (\<lambda>deviceID request response w.
     (case map_of (rq_cookies request) (h_cookieName h) of
        None \<Rightarrow> (writeServiceError ErrUnauthorized response, w)
      | Some value \<Rightarrow>
          if deviceID = [] then (writeServiceError ErrUnauthorized response, w)
          else continue who deviceID value request response w)))"

definition rotateDeviceCredential :: "conn_handler \<Rightarrow> reading \<Rightarrow> conn_http" where
  "rotateDeviceCredential h t = deviceRequest h t (\<lambda>who deviceID credential request.
     answering h t (\<lambda>svc now. RotateDeviceCredential svc now (account_of who) (ap_SessionID who) deviceID credential)
       (\<lambda>r. writeJSON 201 (RotateDeviceResponse (ro_Credential r) (ro_ActivateBy r))))"

definition activateDeviceCredential :: "conn_handler \<Rightarrow> reading \<Rightarrow> conn_http" where
  "activateDeviceCredential h t = deviceRequest h t (\<lambda>who deviceID credential request.
     answering h t (\<lambda>svc now. ActivateDeviceCredential svc now (account_of who) (ap_SessionID who) deviceID credential)
       (\<lambda>expiresAt response. writeJSON 200 (ActivateDeviceResponse expiresAt)
          (writeDeviceCookie h (at_cookie t) credential expiresAt response)))"

section \<open>The routes\<close>

datatype conn_limiter = BeginLimiter | ClaimLimiter | PollLimiter | TicketLimiter

datatype audience = Plugin conn_limiter | Browser conn_limiter | Limited conn_limiter | Ungated

datatype conn_endpoint =
    To_ConnectorChallenge | To_BeginPairing | To_PollPairing | To_CancelPairing | To_ApprovePairing | To_ClaimPairing | To_ConfirmPairing
  | To_DeviceChallenge | To_RotateDevice | To_ActivateDevice | To_RevokeDevice | To_ListDevices | To_IssueTicket
  | To_ListConnectors | To_RevokeOwn | To_RotateOwn | To_ActivateOwn | To_RevokeConnector | To_RenameConnector | To_OwnConnector

text \<open>The table of \<open>RegisterRoutes\<close>: method, path, audience and handler.\<close>

definition conn_routes :: "(string \<times> string \<times> audience \<times> conn_endpoint) list" where
  "conn_routes = [
     (''POST'', ''/v1/connector-pairings/challenge'', Plugin BeginLimiter, To_ConnectorChallenge),
     (''POST'', ''/v1/connector-pairings'', Plugin BeginLimiter, To_BeginPairing),
     (''POST'', ''/v1/connector-pairings/:pairingID/poll'', Plugin PollLimiter, To_PollPairing),
     (''POST'', ''/v1/connector-pairings/:pairingID/cancel'', Plugin PollLimiter, To_CancelPairing),
     (''POST'', ''/v1/connector-pairings/:pairingID/approve'', Plugin PollLimiter, To_ApprovePairing),
     (''POST'', ''/v1/connector-pairings/claim'', Browser ClaimLimiter, To_ClaimPairing),
     (''POST'', ''/v1/connector-pairings/:pairingID/confirm'', Browser ClaimLimiter, To_ConfirmPairing),
     (''POST'', ''/v1/devices/challenge'', Browser ClaimLimiter, To_DeviceChallenge),
     (''POST'', ''/v1/devices/self/rotate'', Browser TicketLimiter, To_RotateDevice),
     (''POST'', ''/v1/devices/self/rotate/activate'', Browser TicketLimiter, To_ActivateDevice),
     (''POST'', ''/v1/devices/:deviceID/revoke'', Browser TicketLimiter, To_RevokeDevice),
     (''GET'', ''/v1/devices'', Ungated, To_ListDevices),
     (''HEAD'', ''/v1/devices'', Ungated, To_ListDevices),
     (''POST'', ''/v1/relay/tickets'', Limited TicketLimiter, To_IssueTicket),
     (''GET'', ''/v1/connectors'', Ungated, To_ListConnectors),
     (''HEAD'', ''/v1/connectors'', Ungated, To_ListConnectors),
     (''POST'', ''/v1/connectors/self/revoke'', Plugin TicketLimiter, To_RevokeOwn),
     (''POST'', ''/v1/connectors/self/rotate'', Plugin TicketLimiter, To_RotateOwn),
     (''POST'', ''/v1/connectors/self/rotate/activate'', Plugin TicketLimiter, To_ActivateOwn),
     (''POST'', ''/v1/connectors/:connectorID/revoke'', Browser TicketLimiter, To_RevokeConnector),
     (''POST'', ''/v1/connectors/:connectorID/rename'', Browser TicketLimiter, To_RenameConnector),
     (''GET'', ''/v1/connectors/self'', Plugin TicketLimiter, To_OwnConnector),
     (''HEAD'', ''/v1/connectors/self'', Plugin TicketLimiter, To_OwnConnector)]"

fun conn_endpoint_handler :: "conn_handler \<Rightarrow> reading \<Rightarrow> conn_endpoint \<Rightarrow> conn_http" where
  "conn_endpoint_handler h t To_ConnectorChallenge = connectorChallenge h t"
| "conn_endpoint_handler h t To_BeginPairing = beginPairing h t"
| "conn_endpoint_handler h t To_PollPairing = pollPairing h t"
| "conn_endpoint_handler h t To_CancelPairing = cancelPairing h t"
| "conn_endpoint_handler h t To_ApprovePairing = approvePairing h t"
| "conn_endpoint_handler h t To_ClaimPairing = claimPairing h t"
| "conn_endpoint_handler h t To_ConfirmPairing = confirmPairing h t"
| "conn_endpoint_handler h t To_DeviceChallenge = deviceChallenge h t"
| "conn_endpoint_handler h t To_RotateDevice = rotateDeviceCredential h t"
| "conn_endpoint_handler h t To_ActivateDevice = activateDeviceCredential h t"
| "conn_endpoint_handler h t To_RevokeDevice = revokeAccountDevice h t"
| "conn_endpoint_handler h t To_ListDevices = http_listDevices h t"
| "conn_endpoint_handler h t To_IssueTicket = http_issueTicket h t"
| "conn_endpoint_handler h t To_ListConnectors = http_listConnectors h t"
| "conn_endpoint_handler h t To_RevokeOwn = revokeConnector h t"
| "conn_endpoint_handler h t To_RotateOwn = rotateConnectorCredential h t"
| "conn_endpoint_handler h t To_ActivateOwn = activateConnectorCredential h t"
| "conn_endpoint_handler h t To_RevokeConnector = revokeAccountConnector h t"
| "conn_endpoint_handler h t To_RenameConnector = renameAccountConnector h t"
| "conn_endpoint_handler h t To_OwnConnector = ownConnector h t"

fun conn_limiter_of :: "conn_limiter \<Rightarrow> (conn_web \<Rightarrow> rate_limiter) \<times> (rate_limiter \<Rightarrow> conn_web \<Rightarrow> conn_web)" where
  "conn_limiter_of BeginLimiter = (cw_begin, \<lambda>l w. w\<lparr>cw_begin := l\<rparr>)"
| "conn_limiter_of ClaimLimiter = (cw_claim, \<lambda>l w. w\<lparr>cw_claim := l\<rparr>)"
| "conn_limiter_of PollLimiter = (cw_poll, \<lambda>l w. w\<lparr>cw_poll := l\<rparr>)"
| "conn_limiter_of TicketLimiter = (cw_ticket, \<lambda>l w. w\<lparr>cw_ticket := l\<rparr>)"

definition conn_rateLimited :: "conn_handler \<Rightarrow> reading \<Rightarrow> conn_limiter \<Rightarrow> conn_http \<Rightarrow> conn_http" where
  "conn_rateLimited h t limiter = rateLimited (h_trustedProxies h) (at_limiter t) (conn_limiter_of limiter)"

definition pluginOnly :: "conn_handler \<Rightarrow> reading \<Rightarrow> conn_limiter \<Rightarrow> conn_http \<Rightarrow> conn_http" where
  "pluginOnly h t limiter continue = conn_rateLimited h t limiter (\<lambda>request response w.
     if Header_Get request ''Origin'' \<noteq> [] \<or> Header_Get request ''Sec-Fetch-Site'' = ''cross-site''
     then (writeError 403 ''origin_not_allowed'' ''Request origin is not allowed'' response, w)
     else continue request response w)"

definition browserOnly :: "conn_handler \<Rightarrow> reading \<Rightarrow> conn_limiter \<Rightarrow> conn_http \<Rightarrow> conn_http" where
  "browserOnly h t limiter continue = conn_rateLimited h t limiter (\<lambda>request response w.
     (case allowedBrowserOrigin (h_allowedOrigins h) request response of
        (False, response) \<Rightarrow> (response, w)
      | (True, response) \<Rightarrow> continue request response w))"

fun gated :: "conn_handler \<Rightarrow> reading \<Rightarrow> audience \<Rightarrow> conn_http \<Rightarrow> conn_http" where
  "gated h t (Plugin limiter) continue = pluginOnly h t limiter continue"
| "gated h t (Browser limiter) continue = browserOnly h t limiter continue"
| "gated h t (Limited limiter) continue = conn_rateLimited h t limiter continue"
| "gated h t Ungated continue = continue"

text \<open>A request the router has matched to a row of the table.\<close>

definition conn_serve_route :: "conn_handler \<Rightarrow> reading \<Rightarrow> (string \<times> string \<times> audience \<times> conn_endpoint) \<Rightarrow> conn_http" where
  "conn_serve_route h t route = (case route of (method, path, audience, endpoint) \<Rightarrow>
     gated h t audience (conn_endpoint_handler h t endpoint))"

end
