(* ===== verification/Conn_Gate.thy ===== *)
theory Conn_Gate
  imports Conn_Http Id_Sessions
begin

text \<open>
  What the gates of the connectors' routes keep out, and for whom an admitted browser request acts.
\<close>

section \<open>Gates\<close>

text \<open>Both services as they were; only a limiter may have counted.\<close>

definition services_kept :: "conn_web \<Rightarrow> conn_web \<Rightarrow> bool" where
  "services_kept w w' \<longleftrightarrow> cw_conn w' = cw_conn w \<and> cw_identity w' = cw_identity w"

lemma services_kept_refl [simp]: "services_kept w w"
  by (simp add: services_kept_def)

lemma limiter_of_services [simp]: "services_kept w (snd (conn_limiter_of limiter) l w)"
  by (cases limiter) (simp_all add: services_kept_def)

lemma services_kept_trans: "services_kept a b \<Longrightarrow> services_kept b c \<Longrightarrow> services_kept a c"
  by (simp add: services_kept_def)

lemma status_written [simp]:
  "rs_status (writeError s c m r) = Some s" "rs_status (writeJSON s d r) = Some s" "rs_status (WriteHeader s r) = Some s"
  by (simp_all add: response_defs)

lemma conn_rateLimited_cases:
  obtains (stopped) l where "conn_rateLimited h t limiter continue request response w =
      (fst (conn_rateLimited h t limiter continue request response w), l)" "services_kept w l"
      "rs_status (fst (conn_rateLimited h t limiter continue request response w)) \<in> {Some 429, Some 500}"
  | (passed) l where "conn_rateLimited h t limiter continue request response w = continue request response l" "services_kept w l"
proof -
  let ?a = "Allow (RateLimitKey (http_request.truncate request) (h_trustedProxies h)) (at_limiter t) (fst (conn_limiter_of limiter) w)"
  show thesis
  proof (cases ?a)
    case None
    then show thesis using stopped[of w] by (simp add: conn_rateLimited_def rateLimited_def)
  next
    case (Some a)
    obtain allowed wait l where a: "a = ((allowed, wait), l)" by (metis prod.exhaust)
    show thesis
    proof (cases allowed)
      case True
      then show thesis using passed[of "snd (conn_limiter_of limiter) l w"] Some a
        by (simp add: conn_rateLimited_def rateLimited_def)
    next
      case False
      then show thesis using stopped[of "snd (conn_limiter_of limiter) l w"] Some a
        by (simp add: conn_rateLimited_def rateLimited_def)
    qed
  qed
qed

text \<open>A request some other site makes through a browser.\<close>

definition foreign :: "conn_handler \<Rightarrow> web_request \<Rightarrow> bool" where
  "foreign h request \<longleftrightarrow>
     (Header_Get request ''Origin'' \<noteq> [] \<and> Header_Get request ''Origin'' \<notin> set (h_allowedOrigins h)) \<or>
     (Header_Get request ''Origin'' = [] \<and> Header_Get request ''Sec-Fetch-Site'' = ''cross-site'')"

definition kept_out :: "conn_web \<Rightarrow> conn_response \<times> conn_web \<Rightarrow> bool" where
  "kept_out w r \<longleftrightarrow> services_kept w (snd r) \<and> rs_status (fst r) \<in> {Some 403, Some 429, Some 500}"

lemma foreign_browser:
  "foreign h request \<Longrightarrow> \<exists>r. allowedBrowserOrigin (h_allowedOrigins h) request response = (False, r) \<and> rs_status r = Some 403"
  by (auto simp: foreign_def allowedBrowserOrigin_def Let_def)

lemma kept_out_limited:
  assumes "\<And>w'. kept_out w' (continue request response w')"
  shows "kept_out w (conn_rateLimited h t limiter continue request response w)"
proof (cases rule: conn_rateLimited_cases[of h t limiter continue request response w])
  case (stopped l)
  then show ?thesis by (metis kept_out_def insertCI insertE singletonD snd_conv)
next
  case (passed l)
  then show ?thesis using assms[of l] by (auto simp: kept_out_def intro: services_kept_trans)
qed

lemma kept_out_gated:
  assumes "foreign h request"
  shows "kept_out w (gated h t (Plugin limiter) continue request response w)"
    and "kept_out w (gated h t (Browser limiter) continue request response w)"
proof -
  show "kept_out w (gated h t (Plugin limiter) continue request response w)"
    unfolding gated.simps pluginOnly_def by (rule kept_out_limited) (use assms in \<open>auto simp: kept_out_def foreign_def\<close>)
  obtain r where "allowedBrowserOrigin (h_allowedOrigins h) request response = (False, r)" "rs_status r = Some 403"
    using foreign_browser[OF assms] by blast
  then show "kept_out w (gated h t (Browser limiter) continue request response w)"
    unfolding gated.simps browserOnly_def by (intro kept_out_limited) (simp add: kept_out_def)
qed

text \<open>The ticket route, which both plugins and browsers call, looks at the origin itself.\<close>

lemma kept_out_ticket:
  assumes "foreign h request" and "Header_Get request ''Origin'' \<noteq> []"
  shows "services_kept w (snd (http_issueTicket h t request response w))
    \<and> rs_status (fst (http_issueTicket h t request response w)) \<in> {Some 400, Some 401, Some 403, Some 413, Some 415}"
proof -
  obtain r where r: "allowedBrowserOrigin (h_allowedOrigins h) request response = (False, r)" "rs_status r = Some 403"
    using foreign_browser[OF assms(1)] by blast
  have "rs_status (writeServiceError ErrUnauthorized q) = Some 401" for q by (simp add: writeServiceError_def)
  moreover have "rs_status (writeDecodeError e q) \<in> {Some 400, Some 413, Some 415}" for e q by (simp add: writeDecodeError_def)
  ultimately show ?thesis
    using assms(2) r
    by (auto simp: http_issueTicket_def presenting_def decoding_def Let_def split: option.split sum.split)
qed

text \<open>
  C36: a request that another web site makes through a browser reaches no operation that changes anything.
  Every POST route but the ticket's answers it 403 (or 429 or 500, when the limiter refuses it or panics) and leaves
  both services as they were; and so does the ticket route where the browser names that site as the origin, though
  it may find other fault with the request first.  (A plugin may fetch a ticket without an origin, whatever
  \<open>Sec-Fetch-Site\<close> says.)
\<close>

theorem foreign_origin_kept_out:
  assumes "route \<in> set conn_routes" "fst route = ''POST''"
    and "(Header_Get request ''Origin'' \<noteq> [] \<and> Header_Get request ''Origin'' \<notin> set (h_allowedOrigins h))
      \<or> (Header_Get request ''Origin'' = [] \<and> Header_Get request ''Sec-Fetch-Site'' = ''cross-site''
          \<and> snd (snd (snd route)) \<noteq> To_IssueTicket)"
    and run: "conn_serve_route h t route request response w = (r, w')"
  shows "cw_conn w' = cw_conn w \<and> cw_identity w' = cw_identity w
    \<and> rs_status r \<in> (if snd (snd (snd route)) = To_IssueTicket then {Some 400, Some 401, Some 403, Some 413, Some 415, Some 429, Some 500}
        else {Some 403, Some 429, Some 500})"
proof -
  have foreign: "foreign h request" using assms(3) by (auto simp: foreign_def)
  obtain p a e where route: "route = (''POST'', p, a, e)" using assms(2) by (metis prod.exhaust_sel)
  show ?thesis
  proof (cases "e = To_IssueTicket")
    case True
    then have "Header_Get request ''Origin'' \<noteq> []" using assms(3) by (auto simp: route)
    note kept = kept_out_ticket[OF foreign this, of _ t response]
    have serve: "conn_serve_route h t route request response w = conn_rateLimited h t TicketLimiter (http_issueTicket h t) request response w"
      using assms(1) True by (auto simp: conn_routes_def conn_serve_route_def route)
    show ?thesis
    proof (cases rule: conn_rateLimited_cases[of h t TicketLimiter "http_issueTicket h t" request response w])
      case (stopped l)
      then have "w' = l" "rs_status r \<in> {Some 429, Some 500}" using run serve by (metis prod.inject, metis fst_conv)
      then show ?thesis using stopped(2) True by (auto simp: route services_kept_def)
    next
      case (passed l)
      then have "http_issueTicket h t request response l = (r, w')" using run serve by simp
      then show ?thesis using kept[of l] passed(2) True by (auto simp: route services_kept_def)
    qed
  next
    case False
    then have "(\<exists>l. a = Plugin l) \<or> (\<exists>l. a = Browser l)"
      using assms(1) by (auto simp: conn_routes_def route)
    then have "kept_out w (r, w')"
      using kept_out_gated[OF foreign] run by (auto simp: conn_serve_route_def route) metis+
    then show ?thesis using False by (simp add: route kept_out_def services_kept_def)
  qed
qed

section \<open>A browser request, for example\<close>

definition ex_documents :: conn_documents where
  "ex_documents = \<lparr> json_of = \<lparr> ParseMediaType = Some, decode_empty = (\<lambda>r. (Inl Json_EOF, r)) \<rparr>,
     dec_begin = (\<lambda>r. (Inl Json_Invalid, r)), dec_claim = (\<lambda>r. (Inl Json_Invalid, r)),
     dec_device_id = (\<lambda>r. (Inr (jr_rest r), r)), dec_device_key = (\<lambda>r. (Inr (jr_rest r), r)), dec_name = (\<lambda>r. (Inr (jr_rest r), r)) \<rparr>"

definition ex_conn_handler :: conn_handler where
  "ex_conn_handler = NewHandler ex_id_service ex_service ex_documents
     \<lparr> hc_AllowedOrigins = [''https://app.example''], hc_CookieSecure = True, hc_TrustedProxies = [] \<rparr>"

definition ex_web_request :: "string \<Rightarrow> string \<Rightarrow> bytes \<Rightarrow> web_request" where
  "ex_web_request origin authorization body = \<lparr> RemoteAddr = ''192.0.2.1:4711'', forwarded_for = [],
     rq_header = (\<lambda>k. if k = ''Origin'' then (if origin = [] then [] else [origin])
        else if k = ''Authorization'' then (if authorization = [] then [] else [authorization])
        else if k = ''Content-Type'' then [''application/json''] else []),
     rq_cookies = [], rq_path_value = (\<lambda>_. ''con_1''), rq_body = body \<rparr>"

definition ex_reading :: "instant \<Rightarrow> reading" where
  "ex_reading now = \<lparr> at_limiter = now, at_access = now, at_service = now, at_cookie = now \<rparr>"

lemma ex_origins: "h_allowedOrigins ex_conn_handler = [''https://app.example'']"
  unfolding ex_conn_handler_def NewHandler_def trimmed_origins_def by code_simp

theorem foreign_origin_kept_out_witness:
  "case conn_serve_route ex_conn_handler (ex_reading 5)
        (''POST'', ''/v1/connectors/:connectorID/revoke'', Browser TicketLimiter, To_RevokeConnector)
        (ex_web_request ''https://evil.example'' ''Bearer token'' []) empty_response
        (new_limiters (ex_world ex_db4 []) (ex_id_world ex_id_db2 (CHR ''B'') [])) of (r, w') \<Rightarrow>
     cw_conn w' = ex_world ex_db4 [] \<and> rs_status r \<in> {Some 403, Some 429, Some 500}"
proof -
  let ?route = "(''POST'', ''/v1/connectors/:connectorID/revoke'', Browser TicketLimiter, To_RevokeConnector)"
  let ?w = "new_limiters (ex_world ex_db4 []) (ex_id_world ex_id_db2 (CHR ''B'') [])"
  obtain r w' where run: "conn_serve_route ex_conn_handler (ex_reading 5) ?route
      (ex_web_request ''https://evil.example'' ''Bearer token'' []) empty_response ?w = (r, w')" by fastforce
  have "?route \<in> set conn_routes" "fst ?route = ''POST''" by (simp_all add: conn_routes_def)
  moreover have "Header_Get (ex_web_request ''https://evil.example'' ''Bearer token'' []) ''Origin'' = ''https://evil.example''"
    by (simp add: ex_web_request_def Header_Get_def)
  moreover have "cw_conn ?w = ex_world ex_db4 []" by (simp add: new_limiters_def)
  ultimately show ?thesis using foreign_origin_kept_out[OF _ _ _ run] by (simp add: ex_origins run)
qed

section \<open>For whom a browser acts\<close>

text \<open>The account a request of the connectors service names.\<close>

fun request_account :: "conn_request \<Rightarrow> string option" where
  "request_account (Req_IssueChallenge purpose userID) = userID"
| "request_account (Req_ClaimPairing input) = Some (ci_UserID input)"
| "request_account (Req_ConfirmPairing u p d) = Some u"
| "request_account (Req_RotateDeviceCredential u s d c) = Some u"
| "request_account (Req_ActivateDeviceCredential u s d c) = Some u"
| "request_account (Req_RevokeAccountConnector u c) = Some u"
| "request_account (Req_RevokeAccountDevice u d) = Some u"
| "request_account (Req_RenameAccountConnector u c n) = Some u"
| "request_account (Req_ListDevices u) = Some u"
| "request_account (Req_ListConnectors u) = Some u"
| "request_account (Req_IssueBrowserTicket u s d c e) = Some u"
| "request_account _ = None"

text \<open>The endpoints that answer a signed-in browser.\<close>

definition account_endpoints :: "conn_endpoint list" where
  "account_endpoints = [To_DeviceChallenge, To_ClaimPairing, To_ConfirmPairing, To_RotateDevice, To_ActivateDevice,
     To_RevokeDevice, To_ListDevices, To_ListConnectors, To_RevokeConnector, To_RenameConnector]"

text \<open>What a request did to the connectors' state, for the account \<open>u\<close>: nothing, or one operation that names it.\<close>

definition acted_for :: "conn_handler \<Rightarrow> reading \<Rightarrow> string \<Rightarrow> conn_web \<Rightarrow> conn_web \<Rightarrow> bool" where
  "acted_for h t u w w' \<longleftrightarrow> cw_identity w' = cw_identity w \<and> (cw_conn w' = cw_conn w \<or>
     (\<exists>req. request_account req = Some u \<and>
        cw_conn w' = serve (wired (h_connectors h) (at_service t) (cw_identity w)) (at_service t) req (cw_conn w)))"

lemma acted_refl [simp]: "acted_for h t u w w"
  by (simp add: acted_for_def)

lemma calling_serves:
  assumes "\<And>svc now w. snd (op svc now w) = serve svc now req w" and "request_account req = Some u"
  shows "acted_for h t u w (snd (calling h t op w))"
proof -
  obtain r c where r: "op (wired (h_connectors h) (at_service t) (cw_identity w)) (at_service t) (cw_conn w) = (r, c)" by fastforce
  then have "c = serve (wired (h_connectors h) (at_service t) (cw_identity w)) (at_service t) req (cw_conn w)"
    using assms(1) by (metis snd_conv)
  then show ?thesis using assms(2) r by (auto simp: calling_def acted_for_def)
qed

lemma answering_world:
  "snd (answering h t op wr response w) = snd (calling h t op w)"
  "snd (answering_owned message h t op wr response w) = snd (calling h t op w)"
  by (auto simp: answering_def answering_owned_def split: prod.splits sum.splits)

lemma decoding_acts:
  "(\<And>input response. acted_for h t u w (snd (continue input request response w))) \<Longrightarrow>
     acted_for h t u w (snd (decoding h decode continue request response w))"
  by (simp add: decoding_def split: sum.splits)

lemma AuthenticateAccess_reads: "snd (AuthenticateAccess svc now token w) = w"
  by (auto simp: AuthenticateAccess_def AccessPrincipalByAccessTokenHash_def on_error_def id_query_def fail_def
    split: prod.splits sum.splits if_splits)

text \<open>The session an access token stands for, as its row in the identity database.\<close>

definition token_session :: "id_service \<Rightarrow> id_db \<Rightarrow> instant \<Rightarrow> string \<Rightarrow> string \<Rightarrow> bool" where
  "token_session svc db now token i \<longleftrightarrow> (\<exists>u \<in> set (users db). \<exists>s \<in> set (sessions db).
     ac_ID u = i \<and> ac_Status u = AccountStatusActive \<and> s_UserID s = i \<and> s_AccessTokenHash s = hashToken svc token \<and>
     now < s_AccessTokenExpiresAt s \<and> s_RevokedAt s = None)"

definition authorized_act :: "conn_handler \<Rightarrow> reading \<Rightarrow> web_request \<Rightarrow> conn_web \<Rightarrow> conn_response \<times> conn_web \<Rightarrow> bool" where
  "authorized_act h t request w r \<longleftrightarrow>
     (rs_status (fst r) = Some 401 \<and> services_kept w (snd r)) \<or>
     (\<exists>token u. authorizationToken request ''Bearer'' = Some token \<and>
        token_session (h_authentication h) (iw_db (cw_identity w)) (at_access t) token u \<and> acted_for h t u w (snd r))"

lemma accessPrincipal_acts:
  assumes "\<And>who response. acted_for h t (account_of who) w (snd (continue who request response w))"
  shows "authorized_act h t request w (accessPrincipal h t continue request response w)"
proof (cases "authorizationToken request ''Bearer''")
  case None
  then show ?thesis by (simp add: accessPrincipal_def authorized_act_def writeServiceError_def)
next
  case (Some token)
  obtain r where r: "AuthenticateAccess (h_authentication h) (at_access t) token (cw_identity w) = (r, cw_identity w)"
    by (metis AuthenticateAccess_reads prod.collapse)
  show ?thesis
  proof (cases r)
    case (Inl e)
    then show ?thesis using Some r
      by (simp add: accessPrincipal_def authorized_act_def writeServiceError_def)
  next
    case (Inr who)
    then have "token_session (h_authentication h) (iw_db (cw_identity w)) (at_access t) token (account_of who)"
      using r by (auto simp: AuthenticateAccess_def runs token_session_def user_account_def account.defs dest!: principal_row) blast
    then show ?thesis using Some r Inr assms
      by (auto simp: accessPrincipal_def authorized_act_def)
  qed
qed

lemma calling_acts:
  "acted_for h t u w (snd (calling h t (\<lambda>svc now. IssueChallenge svc now p (Some u)) w))"
  "acted_for h t u w (snd (calling h t (\<lambda>svc now. ClaimPairing svc now \<lparr> ci_UserID = u, ci_UserCode = c, ci_DeviceName = n,
     ci_Identity = i, ci_Proof = pr \<rparr>) w))"
  "acted_for h t u w (snd (calling h t (\<lambda>svc now. ConfirmPairing svc now u pid d) w))"
  "acted_for h t u w (snd (calling h t (\<lambda>svc now. RotateDeviceCredential svc now u s d cr) w))"
  "acted_for h t u w (snd (calling h t (\<lambda>svc now. ActivateDeviceCredential svc now u s d cr) w))"
  "acted_for h t u w (snd (calling h t (\<lambda>svc now. RevokeAccountConnector svc now u c) w))"
  "acted_for h t u w (snd (calling h t (\<lambda>svc now. RevokeAccountDevice svc now u d) w))"
  "acted_for h t u w (snd (calling h t (\<lambda>svc now. RenameAccountConnector svc now u c n) w))"
  "acted_for h t u w (snd (calling h t (\<lambda>svc now. ListDevices u) w))"
  "acted_for h t u w (snd (calling h t (\<lambda>svc now. ListConnectors u) w))"
  by (rule calling_serves[of _ "Req_IssueChallenge p (Some u)"]
      calling_serves[of _ "Req_ClaimPairing \<lparr> ci_UserID = u, ci_UserCode = c, ci_DeviceName = n, ci_Identity = i, ci_Proof = pr \<rparr>"]
      calling_serves[of _ "Req_ConfirmPairing u pid d"] calling_serves[of _ "Req_RotateDeviceCredential u s d cr"]
      calling_serves[of _ "Req_ActivateDeviceCredential u s d cr"] calling_serves[of _ "Req_RevokeAccountConnector u c"]
      calling_serves[of _ "Req_RevokeAccountDevice u d"] calling_serves[of _ "Req_RenameAccountConnector u c n"]
      calling_serves[of _ "Req_ListDevices u"] calling_serves[of _ "Req_ListConnectors u"]; simp add: serve_def)+

lemma deviceRequest_acts:
  assumes "\<And>who d c response. acted_for h t (account_of who) w (snd (continue who d c request response w))"
  shows "authorized_act h t request w (deviceRequest h t continue request response w)"
  unfolding deviceRequest_def
  by (intro accessPrincipal_acts decoding_acts) (use assms in \<open>simp split: option.split\<close>)

text \<open>
  C37: what a browser asks of its account is done for that account only.  Without an access token whose
  session is live the answer is 401 and neither service changes; with one, the connectors' state changes by
  at most one operation, which names the account of that session.
\<close>

theorem browser_acts_for_its_account:
  assumes "endpoint \<in> set account_endpoints"
  shows "authorized_act h t request w (conn_endpoint_handler h t endpoint request response w)"
proof -
  have "authorized_act h t request w (deviceChallenge h t request response w)"
    "authorized_act h t request w (claimPairing h t request response w)"
    "authorized_act h t request w (confirmPairing h t request response w)"
    "authorized_act h t request w (revokeAccountDevice h t request response w)"
    "authorized_act h t request w (http_listDevices h t request response w)"
    "authorized_act h t request w (http_listConnectors h t request response w)"
    "authorized_act h t request w (revokeAccountConnector h t request response w)"
    "authorized_act h t request w (renameAccountConnector h t request response w)"
    unfolding deviceChallenge_def claimPairing_def confirmPairing_def revokeAccountDevice_def http_listDevices_def
      http_listConnectors_def revokeAccountConnector_def renameAccountConnector_def
    by (intro accessPrincipal_acts decoding_acts; auto simp: answering_world calling_acts split: prod.split)+
  moreover have "authorized_act h t request w (rotateDeviceCredential h t request response w)"
    "authorized_act h t request w (activateDeviceCredential h t request response w)"
    unfolding rotateDeviceCredential_def activateDeviceCredential_def
    by (intro deviceRequest_acts; simp add: answering_world calling_acts)+
  ultimately show ?thesis using assms by (auto simp: account_endpoints_def)
qed

theorem browser_acts_for_its_account_witness:
  "authorized_act ex_conn_handler (ex_reading 5) (ex_web_request ''https://app.example'' [] [])
     (new_limiters (ex_world ex_db4 []) (ex_id_world ex_id_db2 (CHR ''B'') []))
     (conn_endpoint_handler ex_conn_handler (ex_reading 5) To_RevokeConnector (ex_web_request ''https://app.example'' [] [])
        empty_response (new_limiters (ex_world ex_db4 []) (ex_id_world ex_id_db2 (CHR ''B'') []))) \<and>
   rs_status (fst (conn_endpoint_handler ex_conn_handler (ex_reading 5) To_RevokeConnector (ex_web_request ''https://app.example'' [] [])
        empty_response (new_limiters (ex_world ex_db4 []) (ex_id_world ex_id_db2 (CHR ''B'') [])))) = Some 401"
proof -
  have endpoint: "To_RevokeConnector \<in> set account_endpoints" by (simp add: account_endpoints_def)
  show ?thesis
    by (rule conjI, rule browser_acts_for_its_account[OF endpoint])
      (simp add: revokeAccountConnector_def accessPrincipal_def authorizationToken_def ex_web_request_def writeServiceError_def)
qed

end
