(* ===== verification/Id_Http.thy ===== *)
theory Id_Http
  imports Http_Lib Id_Atomic
begin

text \<open>
  The identity module's HTTP surface (\<open>internal/identity/httpapi/handler.go\<close>): the origin gate and limiter
  of each route, the handlers, the documents they answer and the refresh cookie they set and clear.
  \<open>id_reading\<close> holds the instants one request reads, by who reads them.
\<close>

section \<open>The handler\<close>

record id_documents =
  id_json_of :: json_library
  dec_register :: "register_input json_decoder"
  dec_login :: "login_input json_decoder"
  dec_google :: "google_auth_input json_decoder"
  dec_verify :: "verify_email_input json_decoder"
  dec_ticket :: "string json_decoder"

record id_handler =
  ih_service :: id_service
  ih_documents :: id_documents
  ih_allowedOrigins :: "string list"
  ih_trustedProxies :: "ip_net list"
  ih_cookieSecure :: bool
  ih_cookieName :: string
  ih_cookiePath :: string
  ih_registrationEnabled :: bool

record id_web =
  hw_identity :: id_world
  hw_register :: rate_limiter
  hw_login :: rate_limiter
  hw_google :: rate_limiter
  hw_refresh :: rate_limiter
  hw_verifyEmail :: rate_limiter
  hw_resend :: rate_limiter

record id_reading =
  it_limiter :: instant
  it_service :: instant
  it_later :: instant
  it_cookie :: instant

definition secureRefreshCookieName :: string where "secureRefreshCookieName = ''__Host-opencode_remote_refresh''"
definition developmentRefreshCookieName :: string where "developmentRefreshCookieName = ''opencode_remote_refresh''"

record id_http_config =
  ic_AllowedOrigins :: "string list"
  ic_CookieSecure :: bool
  ic_RegistrationEnabled :: bool
  ic_TrustedProxies :: "ip_net list"

definition NewIdentityHandler :: "id_service \<Rightarrow> id_documents \<Rightarrow> id_http_config \<Rightarrow> id_handler" where
  "NewIdentityHandler service documents config =
     \<lparr> ih_service = service, ih_documents = documents,
       ih_allowedOrigins = filter (\<lambda>origin. origin \<noteq> []) (map TrimSpace (ic_AllowedOrigins config)),
       ih_trustedProxies = ic_TrustedProxies config, ih_cookieSecure = ic_CookieSecure config,
       ih_cookieName = (if ic_CookieSecure config then secureRefreshCookieName else developmentRefreshCookieName),
       ih_cookiePath = (if ic_CookieSecure config then ''/'' else ''/v1/auth''),
       ih_registrationEnabled = ic_RegistrationEnabled config \<rparr>"

text \<open>The limiters \<open>NewHandler\<close> makes.\<close>

definition new_id_limiters :: "id_world \<Rightarrow> id_web" where
  "new_id_limiters w = \<lparr> hw_identity = w, hw_register = NewRateLimiter 5 (10 * minute), hw_login = NewRateLimiter 10 minute,
     hw_google = NewRateLimiter 10 minute, hw_refresh = NewRateLimiter 30 minute,
     hw_verifyEmail = NewRateLimiter 10 (10 * minute), hw_resend = NewRateLimiter 3 (10 * minute) \<rparr>"

section \<open>What is answered\<close>

record account_document =
  doc_ID :: string
  doc_Email :: string
  doc_Status :: account_status
  doc_EmailVerified :: bool
  doc_EmailBounced :: bool
  doc_CreatedAt :: instant

datatype id_document =
    CredentialsResponse string instant account_document
  | AccountResponse account_document
  | VerificationChallengeResponse account_document string instant

type_synonym id_response = "id_document response"
type_synonym id_http = "(id_document, id_web) handler"

definition accountFrom :: "account \<Rightarrow> account_document" where
  "accountFrom account = \<lparr> doc_ID = ac_ID account, doc_Email = ac_Email account, doc_Status = ac_Status account,
     doc_EmailVerified = (ac_EmailVerifiedAt account \<noteq> None), doc_EmailBounced = (ac_EmailBouncedAt account \<noteq> None),
     doc_CreatedAt = ac_CreatedAt account \<rparr>"

definition credentialsResponseFrom :: "credentials \<Rightarrow> id_document" where
  "credentialsResponseFrom c = CredentialsResponse (cd_AccessToken c) (cd_AccessTokenExpiresAt c) (accountFrom (cd_Account c))"

definition verificationChallengeResponseFrom :: "verification_challenge \<Rightarrow> id_document" where
  "verificationChallengeResponseFrom c =
     VerificationChallengeResponse (accountFrom (vc_Account c)) (vc_Ticket c) (vc_TicketExpiresAt c)"

text \<open>\<open>errUnexpectedOutcome\<close> and whatever has no name of its own fall to the last case.\<close>

definition id_writeServiceError :: "id_error \<Rightarrow> id_response \<Rightarrow> id_response" where
  "id_writeServiceError e = (case e of
     IdInvalidInput \<Rightarrow> writeError 400 ''invalid_request'' ''Request is invalid''
   | IdDisposableEmail \<Rightarrow> writeError 400 ''disposable_email'' ''Disposable email addresses are not accepted. Use a permanent address.''
   | IdInvalidVerificationCode \<Rightarrow> writeError 400 ''invalid_verification_code'' ''Verification code is invalid or expired''
   | IdVerificationThrottled \<Rightarrow> writeError 429 ''rate_limited'' ''Too many requests''
   | IdInvalidCredentials \<Rightarrow> writeError 401 ''invalid_credentials'' ''Email or password is invalid''
   | IdInvalidGoogleToken \<Rightarrow> writeError 401 ''invalid_google_token'' ''Google sign-in could not be verified''
   | IdAccountLinkRequired \<Rightarrow> writeError 409 ''account_link_required''
       ''An account already uses this address. Sign in with your password to link Google.''
   | IdIdentityAlreadyLinked \<Rightarrow> writeError 409 ''account_identity_conflict'' ''This account is already linked to a different Google account''
   | IdGoogleUnavailable \<Rightarrow> writeError 503 ''google_signin_unavailable'' ''Google sign-in is unavailable''
   | IdInvalidRefresh \<Rightarrow> writeError 401 ''invalid_refresh'' ''Refresh credential is invalid or expired''
   | IdUnauthorized \<Rightarrow> writeError 401 ''unauthorized'' ''Access credential is invalid or expired''
   | _ \<Rightarrow> writeError 500 ''internal_error'' ''Request could not be completed'')"

definition refresh_cookie :: "id_handler \<Rightarrow> string \<Rightarrow> instant \<Rightarrow> int \<Rightarrow> cookie" where
  "refresh_cookie h value expiresAt maxAge = \<lparr> ck_Name = ih_cookieName h, ck_Value = value, ck_Path = ih_cookiePath h,
     ck_Expires = expiresAt, ck_MaxAge = maxAge, ck_HttpOnly = True, ck_Secure = ih_cookieSecure h, ck_SameSiteStrict = True \<rparr>"

definition setRefreshCookie :: "id_handler \<Rightarrow> instant \<Rightarrow> credentials \<Rightarrow> id_response \<Rightarrow> id_response" where
  "setRefreshCookie h now c =
     SetCookie (refresh_cookie h (cd_RefreshToken c) (cd_RefreshTokenExpiresAt c) (cookie_age (cd_RefreshTokenExpiresAt c) now))"

text \<open>\<open>time.Unix(1, 0)\<close>, one second after the zero of the instants.\<close>

definition clearRefreshCookie :: "id_handler \<Rightarrow> id_response \<Rightarrow> id_response" where
  "clearRefreshCookie h = SetCookie (refresh_cookie h [] second (- 1))"

definition writeOutcome :: "id_handler \<Rightarrow> instant \<Rightarrow> int \<Rightarrow> auth_outcome \<Rightarrow> id_response \<Rightarrow> id_response" where
  "writeOutcome h now status outcome response = (case outcome of
     Authenticated c \<Rightarrow> writeJSON status (credentialsResponseFrom c) (setRefreshCookie h now c response)
   | MustVerify challenge \<Rightarrow> writeJSON status (verificationChallengeResponseFrom challenge) response)"

section \<open>The handlers\<close>

definition id_calling :: "'a id_op \<Rightarrow> id_web \<Rightarrow> (id_error + 'a) \<times> id_web" where
  "id_calling op w = (case op (hw_identity w) of (r, i) \<Rightarrow> (r, w\<lparr>hw_identity := i\<rparr>))"

definition id_decoding :: "id_handler \<Rightarrow> 'a json_decoder \<Rightarrow> ('a \<Rightarrow> id_http) \<Rightarrow> id_http" where
  "id_decoding h decode continue request response w =
     (case decodeJSON (id_json_of (ih_documents h)) decode request of
        Inl e \<Rightarrow> (writeDecodeError e response, w)
      | Inr input \<Rightarrow> continue input request response w)"

definition id_answering :: "'a id_op \<Rightarrow> ('a \<Rightarrow> id_response \<Rightarrow> id_response) \<Rightarrow> id_response \<Rightarrow> id_web \<Rightarrow> id_response \<times> id_web" where
  "id_answering op write response w = (case id_calling op w of
     (Inl e, w) \<Rightarrow> (id_writeServiceError e response, w)
   | (Inr result, w) \<Rightarrow> (write result response, w))"

definition http_register :: "id_handler \<Rightarrow> id_reading \<Rightarrow> id_http" where
  "http_register h t request response w =
     (if \<not> ih_registrationEnabled h then
        (writeError 503 ''registration_unavailable'' ''Registration is unavailable'' response, w)
      else id_decoding h (dec_register (ih_documents h)) (\<lambda>input request.
        id_answering (Register (ih_service h) (it_service t) (it_later t) input)
          (\<lambda>outcome. case outcome of
             Authenticated _ \<Rightarrow> id_writeServiceError IdOther
           | MustVerify challenge \<Rightarrow> writeJSON 201 (verificationChallengeResponseFrom challenge))) request response w)"

definition http_login :: "id_handler \<Rightarrow> id_reading \<Rightarrow> id_http" where
  "http_login h t = id_decoding h (dec_login (ih_documents h)) (\<lambda>input request.
     id_answering (Login (ih_service h) (it_service t) (it_later t) input) (writeOutcome h (it_cookie t) 200))"

text \<open>The sign-in returns, whatever the instants of its rounds (\<open>google_sign_in_returns\<close>).\<close>

definition http_google :: "id_handler \<Rightarrow> id_reading \<Rightarrow> id_http" where
  "http_google h t = id_decoding h (dec_google (ih_documents h)) (\<lambda>input request.
     id_answering (\<lambda>w. the (AuthenticateWithGoogle (ih_service h) (\<lambda>n. if n = 0 then it_service t else it_later t) input w))
       (\<lambda>c response. writeJSON 200 (credentialsResponseFrom c) (setRefreshCookie h (it_cookie t) c response)))"

definition http_verifyEmail :: "id_handler \<Rightarrow> id_reading \<Rightarrow> id_http" where
  "http_verifyEmail h t = id_decoding h (dec_verify (ih_documents h)) (\<lambda>input request.
     id_answering (VerifyEmail (ih_service h) (it_service t) input) (writeOutcome h (it_cookie t) 200))"

definition http_resendVerification :: "id_handler \<Rightarrow> id_reading \<Rightarrow> id_http" where
  "http_resendVerification h t = id_decoding h (dec_ticket (ih_documents h)) (\<lambda>ticket request.
     id_answering (ResendVerification (ih_service h) (it_service t) (it_later t) ticket)
       (\<lambda>challenge. writeJSON 200 (verificationChallengeResponseFrom challenge)))"

definition http_refresh :: "id_handler \<Rightarrow> id_reading \<Rightarrow> id_http" where
  "http_refresh h t request response w = (case map_of (rq_cookies request) (ih_cookieName h) of
     None \<Rightarrow> (id_writeServiceError IdInvalidRefresh response, w)
   | Some token \<Rightarrow>
       (case id_calling (Refresh (ih_service h) (it_service t) token) w of
          (Inl e, w) \<Rightarrow> (id_writeServiceError e (if e = IdInvalidRefresh then clearRefreshCookie h response else response), w)
        | (Inr c, w) \<Rightarrow> (writeJSON 200 (credentialsResponseFrom c) (setRefreshCookie h (it_cookie t) c response), w)))"

definition http_logout :: "id_handler \<Rightarrow> id_reading \<Rightarrow> id_http" where
  "http_logout h t request response w = (case map_of (rq_cookies request) (ih_cookieName h) of
     None \<Rightarrow> (WriteHeader 204 (clearRefreshCookie h response), w)
   | Some token \<Rightarrow> id_answering (Logout (ih_service h) (it_service t) token)
       (\<lambda>_ response. WriteHeader 204 (clearRefreshCookie h response)) response w)"

definition http_currentAccount :: "id_handler \<Rightarrow> id_reading \<Rightarrow> id_http" where
  "http_currentAccount h t request response w = (case authorizationToken request ''Bearer'' of
     None \<Rightarrow> (id_writeServiceError IdUnauthorized (header_Set ''WWW-Authenticate'' ''Bearer'' response), w)
   | Some token \<Rightarrow>
       (case id_calling (CurrentAccount (ih_service h) (it_service t) token) w of
          (Inl e, w) \<Rightarrow> (id_writeServiceError e
             (if e = IdUnauthorized then header_Set ''WWW-Authenticate'' ''Bearer'' response else response), w)
        | (Inr account, w) \<Rightarrow> (writeJSON 200 (AccountResponse (accountFrom account)) response, w)))"

section \<open>The routes\<close>

datatype id_limiter = RegisterLimiter | LoginLimiter | GoogleLimiter | VerifyEmailLimiter | ResendLimiter | RefreshLimiter

datatype id_endpoint =
    To_Register | To_Login | To_Google | To_VerifyEmail | To_ResendVerification | To_Refresh | To_Logout | To_CurrentAccount

text \<open>
  \<open>Some (Some l)\<close> is \<open>protected(l, ...)\<close>, \<open>Some None\<close> is \<open>protected(nil, ...)\<close>, \<open>None\<close> an unprotected route.
\<close>

definition id_routes :: "(string \<times> string \<times> id_limiter option option \<times> id_endpoint) list" where
  "id_routes = [
     (''POST'', ''/v1/auth/register'', Some (Some RegisterLimiter), To_Register),
     (''POST'', ''/v1/auth/login'', Some (Some LoginLimiter), To_Login),
     (''POST'', ''/v1/auth/google'', Some (Some GoogleLimiter), To_Google),
     (''POST'', ''/v1/auth/verify-email'', Some (Some VerifyEmailLimiter), To_VerifyEmail),
     (''POST'', ''/v1/auth/resend-verification'', Some (Some ResendLimiter), To_ResendVerification),
     (''POST'', ''/v1/auth/refresh'', Some (Some RefreshLimiter), To_Refresh),
     (''POST'', ''/v1/auth/logout'', Some None, To_Logout),
     (''GET'', ''/v1/account'', None, To_CurrentAccount),
     (''HEAD'', ''/v1/account'', None, To_CurrentAccount)]"

fun id_endpoint_handler :: "id_handler \<Rightarrow> id_reading \<Rightarrow> id_endpoint \<Rightarrow> id_http" where
  "id_endpoint_handler h t To_Register = http_register h t"
| "id_endpoint_handler h t To_Login = http_login h t"
| "id_endpoint_handler h t To_Google = http_google h t"
| "id_endpoint_handler h t To_VerifyEmail = http_verifyEmail h t"
| "id_endpoint_handler h t To_ResendVerification = http_resendVerification h t"
| "id_endpoint_handler h t To_Refresh = http_refresh h t"
| "id_endpoint_handler h t To_Logout = http_logout h t"
| "id_endpoint_handler h t To_CurrentAccount = http_currentAccount h t"

fun id_limiter_of :: "id_limiter \<Rightarrow> (id_web \<Rightarrow> rate_limiter) \<times> (rate_limiter \<Rightarrow> id_web \<Rightarrow> id_web)" where
  "id_limiter_of RegisterLimiter = (hw_register, \<lambda>l w. w\<lparr>hw_register := l\<rparr>)"
| "id_limiter_of LoginLimiter = (hw_login, \<lambda>l w. w\<lparr>hw_login := l\<rparr>)"
| "id_limiter_of GoogleLimiter = (hw_google, \<lambda>l w. w\<lparr>hw_google := l\<rparr>)"
| "id_limiter_of VerifyEmailLimiter = (hw_verifyEmail, \<lambda>l w. w\<lparr>hw_verifyEmail := l\<rparr>)"
| "id_limiter_of ResendLimiter = (hw_resend, \<lambda>l w. w\<lparr>hw_resend := l\<rparr>)"
| "id_limiter_of RefreshLimiter = (hw_refresh, \<lambda>l w. w\<lparr>hw_refresh := l\<rparr>)"

text \<open>\<open>protect\<close>: the origin first, then the limiter where there is one.\<close>

definition protect :: "id_handler \<Rightarrow> id_reading \<Rightarrow> id_limiter option \<Rightarrow> id_http \<Rightarrow> id_http" where
  "protect h t limiter continue request response w =
     (case allowedBrowserOrigin (ih_allowedOrigins h) request response of
        (False, response) \<Rightarrow> (response, w)
      | (True, response) \<Rightarrow> (case limiter of
            None \<Rightarrow> continue request response w
          | Some l \<Rightarrow> rateLimited (ih_trustedProxies h) (it_limiter t) (id_limiter_of l) continue request response w))"

definition id_serve_route ::
  "id_handler \<Rightarrow> id_reading \<Rightarrow> (string \<times> string \<times> id_limiter option option \<times> id_endpoint) \<Rightarrow> id_http" where
  "id_serve_route h t route = (case route of (method, path, gate, endpoint) \<Rightarrow>
     (case gate of None \<Rightarrow> id_endpoint_handler h t endpoint
      | Some limiter \<Rightarrow> protect h t limiter (id_endpoint_handler h t endpoint)))"

end
