(* ===== verification/Id_Cookie.thy ===== *)
theory Id_Cookie
  imports Id_Http
begin

text \<open>
  Where a session goes: credentials the service answers are backed by a live session of an active account,
  and over HTTP the refresh token leaves in a strict, HTTP-only cookie and nowhere else.
\<close>

section \<open>Credentials\<close>

text \<open>The session and the refresh token the credentials stand for, in the database.\<close>

definition backed :: "id_service \<Rightarrow> id_db \<Rightarrow> credentials \<Rightarrow> bool" where
  "backed svc db c \<longleftrightarrow> ac_Status (cd_Account c) = AccountStatusActive \<and>
     (\<exists>s \<in> set (sessions db). \<exists>r \<in> set (refresh_credentials db).
        s_UserID s = ac_ID (cd_Account c) \<and> s_RevokedAt s = None \<and> s_AccessTokenHash s = hashToken svc (cd_AccessToken c) \<and>
        r_SessionID r = s_ID s \<and> r_UsedAt r = None \<and> r_TokenHash r = hashToken svc (cd_RefreshToken c))"

lemma issued_session:
  assumes m: "newSessionMaterial svc account name now w = (Inr m, w1)" and p: "persistSessionMaterial m w2 = (Inr (), w3)"
    and a: "IdAppendAuditEvent ev w3 = (Inr (), w4)" and active: "ac_Status account = AccountStatusActive"
  shows "backed svc (iw_db w4) (sm_credentials m)"
proof -
  have "cd_Account (sm_credentials m) = account" "s_UserID (sm_session m) = ac_ID account" "s_RevokedAt (sm_session m) = None"
    "s_AccessTokenHash (sm_session m) = hashToken svc (cd_AccessToken (sm_credentials m))"
    "r_SessionID (sm_refresh m) = s_ID (sm_session m)" "r_UsedAt (sm_refresh m) = None"
    "r_TokenHash (sm_refresh m) = hashToken svc (cd_RefreshToken (sm_credentials m))"
    using m by (auto simp: newSessionMaterial_def runs Let_def)
  moreover have "sm_session m \<in> set (sessions (iw_db w4))" "sm_refresh m \<in> set (refresh_credentials (iw_db w4))"
    using p a by (auto simp: persistSessionMaterial_def CreateSession_def CreateRefreshCredential_def IdAppendAuditEvent_def
      runs create_row_Inr split: if_splits)
  ultimately show ?thesis using active unfolding backed_def by metis
qed

lemma Login_backed:
  assumes "Login svc now sent input w = (Inr (Authenticated c), w')" shows "backed svc (iw_db w') c"
proof -
  obtain u name w1 m w2 w3 ev where "ac_Status u = AccountStatusActive"
    and m: "newSessionMaterial svc (user_account u) name now w1 = (Inr m, w2)" "c = sm_credentials m"
    and p: "persistSessionMaterial m w2 = (Inr (), w3)" "IdAppendAuditEvent ev w3 = (Inr (), w')"
    using assms reissue_no_session unfolding Login_def start_session_transaction_def
    by (auto simp: runs account_status_runs UserByNormalizedEmail_def split: option.splits)
  then have "ac_Status (user_account u) = AccountStatusActive" by (simp add: user_account_def account.defs)
  from issued_session[OF m(1) p this] show ?thesis by (simp add: m(2))
qed

lemma VerifyEmail_backed:
  assumes "VerifyEmail svc now input w = (Inr (Authenticated c), w')" shows "backed svc (iw_db w') c"
proof -
  obtain u name w0 w1 m w2 w3 ev where
    m: "newSessionMaterial svc ((user_account u)\<lparr>ac_Status := AccountStatusActive, ac_EmailVerifiedAt := Some now\<rparr>) name now w0 = (Inr m, w1)"
      "c = sm_credentials m"
    and p: "persistSessionMaterial m w2 = (Inr (), w3)" "IdAppendAuditEvent ev w3 = (Inr (), w')"
    using assms unfolding VerifyEmail_def verify_transaction_def EmailVerificationForUpdate_def UserByID_def Let_def
    by (auto simp: runs split: option.splits)
  from issued_session[OF m(1) p] show ?thesis by (simp add: m(2))
qed

lemma VerifyEmail_no_challenge: "VerifyEmail svc now input w \<noteq> (Inr (MustVerify x), w')"
  by (auto simp: VerifyEmail_def runs split: option.splits)

lemma startGoogleSession_backed:
  assumes "startGoogleSession svc account name now ev w = (Inr c, w')" and "ac_Status account = AccountStatusActive"
  shows "backed svc (iw_db w') c"
proof -
  obtain m w1 w2 e where m: "newSessionMaterial svc account name now w = (Inr m, w1)" "c = sm_credentials m"
    and p: "persistSessionMaterial m w1 = (Inr (), w2)" "IdAppendAuditEvent e w2 = (Inr (), w')"
    using assms(1) by (auto simp: startGoogleSession_def runs)
  from issued_session[OF m(1) p assms(2)] show ?thesis by (simp add: m(2))
qed

lemma google_link_backed:
  assumes "google_link svc account subject email name now w = (Inr (Google_SignedIn c), w')" and "ac_Status account = AccountStatusActive"
  shows "backed svc (iw_db w') c"
proof -
  from assms(1) obtain w1 where "startGoogleSession svc account name now ''auth.google_identity_linked'' w1 = (Inr c, w')"
    unfolding google_link_def FederatedIdentityByUserForUpdate_def by (auto simp: runs googleRefusal_def)
  then show ?thesis using assms(2) by (rule startGoogleSession_backed)
qed

lemma google_backed:
  assumes run: "google_transaction svc subject email n name now w = (Inr (Google_SignedIn c), w')"
  shows "backed svc (iw_db w') c"
proof -
  have status: "ac_Status (user_account v) = ac_Status v" for v by (simp add: user_account_def account.defs)
  from run consider (again) link :: federated_identity where "googleReturningUser svc link email name now w = (Inr c, w')"
    | (old) v :: user where "googleLinkExisting svc v subject email name now w = (Inr (Google_SignedIn c), w')"
    | (fresh) "googleNewAccount svc subject email n name now w = (Inr c, w')"
    unfolding google_transaction_def FederatedIdentityForUpdate_def UserByNormalizedEmailForUpdate_def
    by (auto simp: runs split: sum.splits if_splits)
  then show ?thesis
  proof cases
    case again
    then show ?thesis
      by (auto simp: googleReturningUser_def UserByID_def runs status intro!: startGoogleSession_backed)
  next
    case (old v)
    then consider a w0 where "google_link svc a subject email name now w0 = (Inr (Google_SignedIn c), w')" "ac_Status a = AccountStatusActive"
      | ev i e where "googleRefusal ev i now e w = (Inr (Google_SignedIn c), w')"
      unfolding googleLinkExisting_def Let_def by (auto simp: runs status)
    then show ?thesis
      by cases (auto intro: google_link_backed simp: googleRefusal_def runs)
  next
    case fresh
    then show ?thesis by (auto simp: googleNewAccount_def Let_def runs intro!: startGoogleSession_backed)
  qed
qed

lemma AuthenticateWithGoogle_backed:
  "AuthenticateWithGoogle svc clock input w = Some (Inr c, w') \<Longrightarrow> backed svc (iw_db w') c"
  using AuthenticateWithGoogle_transaction google_backed by blast

lemma Refresh_backed:
  assumes "Refresh svc now token w = (Inr c, w')" shows "backed svc (iw_db w') c"
proof -
  obtain w0 a b where run: "refresh_transaction svc now token a b w0 = (Inr (Refresh_Valid c), w')"
    using assms by (auto simp: Refresh_def runs refresh_outcome_runs)
  obtain r s u w2 w3 w4 ev where "r \<in> set (refresh_credentials (iw_db w0))" "r_TokenHash r = hashToken svc token" "r_UsedAt r = None"
    and s: "s \<in> set (sessions (iw_db w0))" "s_ID s = r_SessionID r" "s_RevokedAt s = None"
    and u: "ac_ID u = s_UserID s" "ac_Status u = AccountStatusActive"
    and m: "MarkRefreshCredentialUsed (r_TokenHash r) now w0 = (Inr (), w2)"
    and t: "RotateSessionAccess (s_ID s) (hashToken svc a) (now + accessLifetime svc) now w2 = (Inr (), w3)"
    and n: "CreateRefreshCredential \<lparr> r_TokenHash = hashToken svc b, r_SessionID = s_ID s, r_ExpiresAt = s_RefreshExpiresAt s,
       r_CreatedAt = now, r_UsedAt = None \<rparr> w3 = (Inr (), w4)"
    and e: "IdAppendAuditEvent ev w4 = (Inr (), w')"
    and c: "c = \<lparr> cd_Account = user_account u, cd_AccessToken = a, cd_AccessTokenExpiresAt = now + accessLifetime svc,
       cd_RefreshToken = b, cd_RefreshTokenExpiresAt = s_RefreshExpiresAt s \<rparr>"
    by (rule refresh_valid_steps[OF run])
  have "\<lparr> r_TokenHash = hashToken svc b, r_SessionID = s_ID s, r_ExpiresAt = s_RefreshExpiresAt s,
      r_CreatedAt = now, r_UsedAt = None \<rparr> \<in> set (refresh_credentials (iw_db w'))"
    using n e by (auto simp: CreateRefreshCredential_def IdAppendAuditEvent_def runs create_row_Inr split: if_splits)
  with refresh_renews[OF s(1,3) m t n e] show ?thesis
    using u by (auto simp: backed_def c user_account_def account.defs intro!: bexI)
qed

section \<open>Cookies\<close>

text \<open>A response nothing was written to, and the documents that carry no credentials.\<close>

definition unwritten :: "id_response \<Rightarrow> bool" where
  "unwritten r \<longleftrightarrow> rs_cookies r = [] \<and> rs_document r = None"

definition plain_document :: "id_response \<Rightarrow> bool" where
  "plain_document r \<longleftrightarrow> (case rs_document r of
     None \<Rightarrow> True
   | Some (ErrorDocument code message) \<Rightarrow> True
   | Some (Document (AccountResponse account)) \<Rightarrow> True
   | Some (Document (VerificationChallengeResponse account ticket expires)) \<Rightarrow> take 4 ticket = ''vft_''
   | Some (Document (CredentialsResponse token expires account)) \<Rightarrow> False)"

text \<open>The three kinds of answer, as far as the cookie is concerned.\<close>

definition session_answer :: "id_handler \<Rightarrow> id_reading \<Rightarrow> credentials \<Rightarrow> id_response \<Rightarrow> bool" where
  "session_answer h t c r \<longleftrightarrow> rs_status r = Some 200 \<and>
     rs_cookies r = [refresh_cookie h (cd_RefreshToken c) (cd_RefreshTokenExpiresAt c) (cookie_age (cd_RefreshTokenExpiresAt c) (it_cookie t))] \<and>
     rs_document r = Some (Document (credentialsResponseFrom c))"

definition session_cookie_only :: "id_handler \<Rightarrow> id_reading \<Rightarrow> id_response \<times> id_web \<Rightarrow> bool" where
  "session_cookie_only h t r \<longleftrightarrow>
     (rs_cookies (fst r) = [] \<or> rs_cookies (fst r) = [refresh_cookie h [] second (- 1)]) \<and> plain_document (fst r) \<or>
     (\<exists>c. session_answer h t c (fst r) \<and> backed (ih_service h) (iw_db (hw_identity (snd r))) c)"

lemma written_cookies [simp]:
  "rs_cookies (writeError s c m r) = rs_cookies r" "rs_cookies (writeJSON s d r) = rs_cookies r"
  "rs_cookies (WriteHeader s r) = rs_cookies r" "rs_cookies (header_Set n v r) = rs_cookies r"
  "rs_cookies (SetCookie k r) = rs_cookies r @ [k]" "rs_cookies (writeDecodeError e r) = rs_cookies r"
  by (simp_all add: response_defs writeDecodeError_def)

lemma written_documents [simp]:
  "rs_document (WriteHeader s r) = rs_document r" "rs_document (header_Set n v r) = rs_document r"
  "rs_document (SetCookie k r) = rs_document r" "rs_document (writeJSON s d r) = Some (Document d)"
  "\<exists>c m. rs_document (writeError s c' m' r) = Some (ErrorDocument c m)"
  "\<exists>c m. rs_document (writeDecodeError e r) = Some (ErrorDocument c m)"
  by (simp_all add: response_defs writeDecodeError_def)

lemma error_documents [simp]: "\<exists>c m. rs_document (id_writeServiceError e r) = Some (ErrorDocument c m)"
  by (cases e) (simp_all add: id_writeServiceError_def)

lemma error_cookies [simp]: "rs_cookies (id_writeServiceError e r) = rs_cookies r"
  by (cases e) (simp_all add: id_writeServiceError_def)

lemma plain_errors [simp]:
  "plain_document (writeError s c m r)" "plain_document (writeDecodeError e r)" "plain_document (id_writeServiceError err r)"
proof -
  have "plain_document q" if "\<exists>c m. rs_document q = Some (ErrorDocument c m)" for q
    using that by (auto simp: plain_document_def)
  then show "plain_document (writeError s c m r)" "plain_document (writeDecodeError e r)" "plain_document (id_writeServiceError err r)"
    by simp_all
qed

lemma plain_answers:
  "unwritten r \<Longrightarrow> plain_document r" "unwritten r \<Longrightarrow> plain_document (WriteHeader s (SetCookie k r))"
  "plain_document (writeJSON s (AccountResponse a) r)"
  "take 4 (vc_Ticket c) = ''vft_'' \<Longrightarrow> plain_document (writeJSON s (verificationChallengeResponseFrom c) r)"
  by (simp_all add: plain_document_def unwritten_def verificationChallengeResponseFrom_def)

text \<open>The tickets that leave in a document are tickets.\<close>

lemma material_ticket: "newVerificationMaterial svc a c now w = (Inr m, w') \<Longrightarrow> take 4 (vc_Ticket (vm_challenge m)) = ''vft_''"
  by (auto dest!: material_challenge)

lemma Register_ticket: "Register svc now sent input w = (Inr (MustVerify c), w') \<Longrightarrow> take 4 (vc_Ticket c) = ''vft_''"
  by (drule registration_answer) (auto simp: fresh_challenge_def)

lemma Login_ticket: "Login svc now sent input w = (Inr (MustVerify c), w') \<Longrightarrow> take 4 (vc_Ticket c) = ''vft_''"
  unfolding Login_def reissueVerification_def
  by (auto simp: runs account_status_runs split: option.splits dest!: material_ticket)

lemma Resend_ticket:
  assumes "ResendVerification svc now sent ticket w = (Inr c, w')" shows "take 4 (vc_Ticket c) = ''vft_''"
proof -
  have outcome: "(case v of Resend_Throttled \<Rightarrow> m | Resend_Nothing \<Rightarrow> n | Resend_Reissued a b d \<Rightarrow> f a b d) x = r \<longleftrightarrow>
     (v = Resend_Throttled \<and> m x = r \<or> v = Resend_Nothing \<and> n x = r \<or> (\<exists>a b d. v = Resend_Reissued a b d \<and> f a b d x = r))"
    for v :: resend_outcome and m n :: "verification_challenge id_op" and f x r
    by (cases v) auto
  from assms obtain m email i w1 where "resend_transaction svc now ticket w = (Inr (Resend_Reissued m email i), w1)" "c = vm_challenge m"
    by (auto simp: ResendVerification_def runs outcome)
  then show ?thesis
    by (auto simp: resend_transaction_def runs dest!: material_ticket)
qed

lemma session_answered:
  "unwritten r \<Longrightarrow> session_answer h t c (writeJSON 200 (credentialsResponseFrom c) (setRefreshCookie h (it_cookie t) c r))"
  by (simp add: session_answer_def setRefreshCookie_def unwritten_def) (simp add: response_defs)

lemma cookie_only_decoding:
  assumes "unwritten response" and "\<And>input. session_cookie_only h t (continue input request response w)"
  shows "session_cookie_only h t (id_decoding h decode continue request response w)"
  using assms by (auto simp: id_decoding_def session_cookie_only_def unwritten_def split: sum.splits)

lemma cookie_only_answering:
  assumes "unwritten response"
    and "\<And>x i. op (hw_identity w) = (Inr x, i) \<Longrightarrow> session_cookie_only h t (write x response, w\<lparr>hw_identity := i\<rparr>)"
  shows "session_cookie_only h t (id_answering op write response w)"
proof (cases "op (hw_identity w)")
  case (Pair r i)
  then show ?thesis using assms by (cases r) (simp_all add: id_answering_def id_calling_def session_cookie_only_def unwritten_def)
qed

lemma answered_session:
  assumes "unwritten response" and "backed (ih_service h) (iw_db (hw_identity w)) c"
  shows "session_cookie_only h t (writeJSON 200 (credentialsResponseFrom c) (setRefreshCookie h (it_cookie t) c response), w)"
  using session_answered[OF assms(1)] assms(2) by (auto simp: session_cookie_only_def)

lemma answered_without:
  "rs_cookies r = [] \<Longrightarrow> plain_document r \<Longrightarrow> session_cookie_only h t (r, w)"
  "unwritten r \<Longrightarrow> session_cookie_only h t (WriteHeader s (clearRefreshCookie h r), w)"
  "unwritten r \<Longrightarrow> session_cookie_only h t (id_writeServiceError e (clearRefreshCookie h r), w)"
  by (simp_all add: session_cookie_only_def clearRefreshCookie_def plain_answers(2), simp_all add: unwritten_def)

lemma unwritten_cookies: "unwritten r \<Longrightarrow> rs_cookies r = []"
  by (simp add: unwritten_def)

lemma answered_outcome:
  assumes "unwritten response" and "\<And>c. outcome = Authenticated c \<Longrightarrow> backed (ih_service h) (iw_db (hw_identity w)) c"
    and "\<And>c. outcome = MustVerify c \<Longrightarrow> take 4 (vc_Ticket c) = ''vft_''"
  shows "session_cookie_only h t (writeOutcome h (it_cookie t) 200 outcome response, w)"
  using assms
  by (cases outcome) (simp_all add: writeOutcome_def answered_session answered_without(1) plain_answers(4) unwritten_cookies)

lemma cookie_only_handlers:
  assumes none: "unwritten response"
  shows "session_cookie_only h t (http_register h t request response w)"
    "session_cookie_only h t (http_login h t request response w)"
    "session_cookie_only h t (http_google h t request response w)"
    "session_cookie_only h t (http_verifyEmail h t request response w)"
    "session_cookie_only h t (http_resendVerification h t request response w)"
    "session_cookie_only h t (http_logout h t request response w)"
proof -
  show "session_cookie_only h t (http_register h t request response w)"
    using none by (auto simp: http_register_def unwritten_cookies split: auth_outcome.split
      intro!: cookie_only_decoding cookie_only_answering answered_without(1) plain_answers(4) dest: Register_ticket)
  show "session_cookie_only h t (http_login h t request response w)"
    unfolding http_login_def
    by (intro cookie_only_decoding cookie_only_answering none)
      (auto intro!: answered_outcome none dest: Login_backed Login_ticket)
  show "session_cookie_only h t (http_google h t request response w)"
    unfolding http_google_def
  proof (intro cookie_only_decoding cookie_only_answering none)
    fix input :: google_auth_input and c i
    let ?clock = "\<lambda>n. if n = 0 then it_service t else it_later t"
    assume "the (AuthenticateWithGoogle (ih_service h) ?clock input (hw_identity w)) = (Inr c, i)"
    then have "AuthenticateWithGoogle (ih_service h) ?clock input (hw_identity w) = Some (Inr c, i)"
      using AuthenticateWithGoogle_returns[of "ih_service h" ?clock input "hw_identity w"] by auto
    then show "session_cookie_only h t (writeJSON 200 (credentialsResponseFrom c) (setRefreshCookie h (it_cookie t) c response),
        w\<lparr>hw_identity := i\<rparr>)"
      using none by (intro answered_session) (simp_all add: AuthenticateWithGoogle_backed)
  qed
  show "session_cookie_only h t (http_verifyEmail h t request response w)"
    unfolding http_verifyEmail_def
    by (intro cookie_only_decoding cookie_only_answering none)
      (auto intro!: answered_outcome none simp: VerifyEmail_no_challenge dest: VerifyEmail_backed)
  show "session_cookie_only h t (http_resendVerification h t request response w)"
    unfolding http_resendVerification_def by (intro cookie_only_decoding cookie_only_answering none answered_without(1) plain_answers(4))
      (auto simp: unwritten_cookies none dest: Resend_ticket)
  show "session_cookie_only h t (http_logout h t request response w)"
    unfolding http_logout_def by (auto simp: none split: option.split intro!: answered_without(2) cookie_only_answering)
qed

lemma cookie_only_refresh:
  assumes none: "unwritten response"
  shows "session_cookie_only h t (http_refresh h t request response w)"
proof (cases "map_of (rq_cookies request) (ih_cookieName h)")
  case None
  then show ?thesis using none by (simp add: http_refresh_def answered_without(1) unwritten_cookies)
next
  case (Some token)
  obtain r i where run: "Refresh (ih_service h) (it_service t) token (hw_identity w) = (r, i)" by fastforce
  show ?thesis
  proof (cases r)
    case (Inl e)
    then show ?thesis using run Some none
      by (simp add: http_refresh_def id_calling_def answered_without unwritten_cookies)
  next
    case (Inr c)
    then show ?thesis using run Some none Refresh_backed
      by (simp add: http_refresh_def id_calling_def) (metis answered_session id_web.select_convs(1) id_web.surjective id_web.update_convs(1))
  qed
qed

lemma cookie_only_account:
  assumes none: "unwritten response"
  shows "session_cookie_only h t (http_currentAccount h t request response w)"
  unfolding http_currentAccount_def
  by (auto simp: none unwritten_cookies id_calling_def plain_answers(3) intro!: answered_without(1) split: option.split sum.split prod.split)

text \<open>
  C38: the refresh token leaves only in a cookie.  An identity endpoint sets at most one cookie, and that one is
  HTTP-only, same-site strict, as secure as the configuration says, and has the configured name and path.  It
  either clears the refresh cookie, or holds the refresh token of a live session of an active account, in an
  answer 200 whose document carries the access token and the account only.  Without such a cookie the answer is
  empty, an error, an account or the ticket of a challenge: no credentials leave.
\<close>

theorem refresh_token_only_in_cookie:
  assumes "rs_cookies response = []" and "rs_document response = None"
    and run: "id_endpoint_handler h t endpoint request response w = (r, w')"
  shows "length (rs_cookies r) \<le> 1
    \<and> (\<forall>k \<in> set (rs_cookies r). ck_HttpOnly k \<and> ck_SameSiteStrict k \<and> ck_Secure k = ih_cookieSecure h
         \<and> ck_Name k = ih_cookieName h \<and> ck_Path k = ih_cookiePath h)
    \<and> ((\<forall>k \<in> set (rs_cookies r). ck_Value k = [] \<and> ck_MaxAge k = - 1)
         \<and> (case rs_document r of
              None \<Rightarrow> True
            | Some (ErrorDocument code message) \<Rightarrow> True
            | Some (Document (AccountResponse account)) \<Rightarrow> True
            | Some (Document (VerificationChallengeResponse account ticket expires)) \<Rightarrow> take 4 ticket = ''vft_''
            | Some (Document (CredentialsResponse token expires account)) \<Rightarrow> False)
       \<or> (\<exists>c :: credentials. rs_status r = Some 200 \<and> map ck_Value (rs_cookies r) = [cd_RefreshToken c]
            \<and> map ck_Expires (rs_cookies r) = [cd_RefreshTokenExpiresAt c]
            \<and> rs_document r = Some (Document (CredentialsResponse (cd_AccessToken c) (cd_AccessTokenExpiresAt c) (accountFrom (cd_Account c))))
            \<and> ac_Status (cd_Account c) = AccountStatusActive
            \<and> (\<exists>s \<in> set (sessions (iw_db (hw_identity w'))). \<exists>q \<in> set (refresh_credentials (iw_db (hw_identity w'))).
                 s_UserID s = ac_ID (cd_Account c) \<and> s_RevokedAt s = None
                 \<and> s_AccessTokenHash s = hashToken (ih_service h) (cd_AccessToken c) \<and> r_SessionID q = s_ID s
                 \<and> r_UsedAt q = None \<and> r_TokenHash q = hashToken (ih_service h) (cd_RefreshToken c))))"
proof -
  have none: "unwritten response" using assms(1,2) by (simp add: unwritten_def)
  have "session_cookie_only h t (r, w')"
    unfolding run[symmetric]
    using cookie_only_handlers[OF none] cookie_only_refresh[OF none] cookie_only_account[OF none] by (cases endpoint) simp_all
  then consider (plain) "rs_cookies r = [] \<or> rs_cookies r = [refresh_cookie h [] second (- 1)]" "plain_document r"
    | (session) c where "session_answer h t c r" "backed (ih_service h) (iw_db (hw_identity w')) c"
    by (auto simp: session_cookie_only_def)
  then show ?thesis
  proof cases
    case plain
    then show ?thesis unfolding plain_document_def by (auto simp: refresh_cookie_def)
  next
    case (session c)
    then have "rs_cookies r = [refresh_cookie h (cd_RefreshToken c) (cd_RefreshTokenExpiresAt c)
        (cookie_age (cd_RefreshTokenExpiresAt c) (it_cookie t))]"
      and answer: "rs_status r = Some 200"
        "rs_document r = Some (Document (CredentialsResponse (cd_AccessToken c) (cd_AccessTokenExpiresAt c) (accountFrom (cd_Account c))))"
      by (simp_all add: session_answer_def credentialsResponseFrom_def)
    then have "length (rs_cookies r) \<le> 1" "\<forall>k \<in> set (rs_cookies r). ck_HttpOnly k \<and> ck_SameSiteStrict k \<and> ck_Secure k = ih_cookieSecure h
         \<and> ck_Name k = ih_cookieName h \<and> ck_Path k = ih_cookiePath h"
      and "map ck_Value (rs_cookies r) = [cd_RefreshToken c]" "map ck_Expires (rs_cookies r) = [cd_RefreshTokenExpiresAt c]"
      by (simp_all add: refresh_cookie_def)
    moreover have "ac_Status (cd_Account c) = AccountStatusActive"
        "\<exists>s \<in> set (sessions (iw_db (hw_identity w'))). \<exists>q \<in> set (refresh_credentials (iw_db (hw_identity w'))).
          s_UserID s = ac_ID (cd_Account c) \<and> s_RevokedAt s = None
          \<and> s_AccessTokenHash s = hashToken (ih_service h) (cd_AccessToken c) \<and> r_SessionID q = s_ID s
          \<and> r_UsedAt q = None \<and> r_TokenHash q = hashToken (ih_service h) (cd_RefreshToken c)"
      using session(2) by (simp_all only: backed_def)
    ultimately show ?thesis using answer by - (intro conjI disjI2 exI[of _ c], assumption+)
  qed
qed

definition ex_id_documents :: id_documents where
  "ex_id_documents = \<lparr> id_json_of = \<lparr> ParseMediaType = Some, decode_empty = (\<lambda>r. (Inl Json_EOF, r)) \<rparr>,
     dec_register = (\<lambda>r. (Inl Json_Invalid, r)), dec_login = (\<lambda>r. (Inl Json_Invalid, r)), dec_google = (\<lambda>r. (Inl Json_Invalid, r)),
     dec_verify = (\<lambda>r. (Inl Json_Invalid, r)), dec_ticket = (\<lambda>r. (Inr (jr_rest r), r)) \<rparr>"

definition ex_id_handler :: id_handler where
  "ex_id_handler = NewIdentityHandler ex_id_service ex_id_documents
     \<lparr> ic_AllowedOrigins = [''https://app.example''], ic_CookieSecure = True, ic_RegistrationEnabled = True, ic_TrustedProxies = [] \<rparr>"

definition ex_refresh_request :: web_request where
  "ex_refresh_request = \<lparr> RemoteAddr = ''192.0.2.1:4711'', forwarded_for = [], rq_header = (\<lambda>_. []),
     rq_cookies = [(secureRefreshCookieName, ex_token ''orr_'' (CHR ''B''))], rq_path_value = (\<lambda>_. []), rq_body = [] \<rparr>"

theorem refresh_token_only_in_cookie_witness:
  "case id_endpoint_handler ex_id_handler \<lparr> it_limiter = 3, it_service = 3, it_later = 3, it_cookie = 3 \<rparr> To_Refresh ex_refresh_request
     empty_response (new_id_limiters (ex_id_world ex_id_db2 (CHR ''C'') [])) of (r, w') \<Rightarrow>
     map ck_Value (rs_cookies r) = [ex_token ''orr_'' (CHR ''C'')] \<and>
     (\<forall>k \<in> set (rs_cookies r). ck_HttpOnly k \<and> ck_SameSiteStrict k \<and> ck_Secure k)"
proof -
  let ?t = "\<lparr> it_limiter = 3, it_service = 3, it_later = 3, it_cookie = 3 \<rparr>"
  let ?w = "new_id_limiters (ex_id_world ex_id_db2 (CHR ''C'') [])"
  obtain r w' where run: "id_endpoint_handler ex_id_handler ?t To_Refresh ex_refresh_request empty_response ?w = (r, w')" by fastforce
  have "map_of (rq_cookies ex_refresh_request) (ih_cookieName ex_id_handler) = Some (ex_token ''orr_'' (CHR ''B''))"
    by (simp add: ex_refresh_request_def ex_id_handler_def NewIdentityHandler_def)
  moreover have "ih_service ex_id_handler = ex_id_service" by (simp add: ex_id_handler_def NewIdentityHandler_def)
  ultimately have "map ck_Value (rs_cookies r) = [ex_token ''orr_'' (CHR ''C'')]"
    using run
    by (auto simp: http_refresh_def id_calling_def new_id_limiters_def ex_refresh_run setRefreshCookie_def refresh_cookie_def
      ex_credentials_def empty_response_def)
  moreover have "\<forall>k \<in> set (rs_cookies r). ck_HttpOnly k \<and> ck_SameSiteStrict k \<and> ck_Secure k = ih_cookieSecure ex_id_handler
      \<and> ck_Name k = ih_cookieName ex_id_handler \<and> ck_Path k = ih_cookiePath ex_id_handler"
    by (rule refresh_token_only_in_cookie[OF _ _ run, THEN conjunct2, THEN conjunct1]) (simp_all add: empty_response_def)
  moreover have "ih_cookieSecure ex_id_handler" by (simp add: ex_id_handler_def NewIdentityHandler_def)
  ultimately show ?thesis unfolding run by simp
qed

end
