(* ===== verification/Id_Announce.thy ===== *)
theory Id_Announce
  imports Id_Cookie
begin

text \<open>
  No session ends in silence: what an operation takes out of the live sessions it announces through
  \<open>OnSessionRevoked\<close>.  One rule per way of composing operations, then one line per operation.
\<close>

section \<open>Announced ends\<close>

definition live_sessions :: "id_db \<Rightarrow> (string \<times> string) set" where
  "live_sessions db = (\<lambda>s. (s_UserID s, s_ID s)) ` {s \<in> set (sessions db). s_RevokedAt s = None}"

definition announced :: "(string \<times> string \<times> bool) list \<Rightarrow> (string \<times> string) set" where
  "announced as = (\<lambda>(u, s, _). (u, s)) ` set as"

definition announces_from :: "id_world \<Rightarrow> id_world \<Rightarrow> bool" where
  "announces_from w w' \<longleftrightarrow> (\<exists>as. iw_revoked w' = iw_revoked w @ as \<and>
     live_sessions (iw_db w) \<subseteq> live_sessions (iw_db w') \<union> announced as)"

definition announces :: "'a id_op \<Rightarrow> bool" where
  "announces m \<longleftrightarrow> (\<forall>w. announces_from w (snd (m w)))"

lemma announced_simps [simp]: "announced [] = {}" "announced ((u, s, b) # as) = insert (u, s) (announced as)"
  "announced (as @ bs) = announced as \<union> announced bs"
  by (simp_all add: announced_def image_Un)

lemma announces_refl [simp]: "announces_from w w"
  by (simp add: announces_from_def)

lemma announces_same: "live_sessions (iw_db w) \<subseteq> live_sessions (iw_db w') \<Longrightarrow> iw_revoked w' = iw_revoked w \<Longrightarrow> announces_from w w'"
  by (auto simp: announces_from_def)

lemma announces_trans: "announces_from w w1 \<Longrightarrow> announces_from w1 w2 \<Longrightarrow> announces_from w w2"
  unfolding announces_from_def by (elim exE conjE, rule_tac x = "as @ asa" in exI) auto

named_theorems quiet

lemma announces_basic [quiet]: "announces (ret x)" "announces (fail e)" "announces (onSessionRevoked u s b)"
  by (auto simp: announces_def ret_def fail_def onSessionRevoked_def announces_from_def)

lemma announces_seq [quiet]:
  assumes "announces m" and "\<And>x. announces (f x)" shows "announces (seq m f)"
  unfolding announces_def
proof
  fix w
  have 1: "announces_from w (snd (m w))" using assms(1) by (simp add: announces_def)
  have 2: "announces_from w1 (snd (f x w1))" for x w1 using assms(2) by (simp add: announces_def)
  show "announces_from w (snd (seq m f w))"
    using 1 2 announces_trans by (cases "m w") (auto simp: seq_def split: sum.splits)
qed

lemma announces_attempt [quiet]: "announces m \<Longrightarrow> announces (attempt m)"
  by (auto simp: announces_def attempt_def split: prod.splits) (metis snd_conv)

lemma announces_on_error [quiet]: "announces m \<Longrightarrow> announces (on_error f m)"
  by (auto simp: announces_def on_error_def split: prod.splits sum.splits) (metis snd_conv)+

lemma announces_transaction [quiet]:
  assumes "announces m" shows "announces (IdWithinTransaction m)"
  unfolding announces_def
proof
  fix w
  have "announces_from w (snd (m w))" using assms by (simp add: announces_def)
  then show "announces_from w (snd (IdWithinTransaction m w))"
    by (cases "m w") (auto simp: IdWithinTransaction_def announces_from_def split: sum.splits)
qed

lemma announces_draws [quiet]:
  "announces (id_draw n)" "announces (hash_password svc p)" "announces (verify_password svc p h)"
  "announces (send_mail a b)" "announces (id_query f)"
  by (auto simp: announces_def id_draw_def hash_password_def verify_password_def send_mail_def id_query_def
    intro!: announces_same split: prod.splits sum.splits)

lemma announces_rounds [quiet]: "announces (code_rounds n)"
  by (induction n) (simp_all add: Let_def quiet)

lemma announces_store:
  "(\<And>db rows. f db = Inr rows \<Longrightarrow> live_sessions db \<subseteq> live_sessions (put rows db)) \<Longrightarrow> announces (id_store put f)"
  unfolding announces_def id_store_def by (auto intro!: announces_same split: sum.splits) blast

lemma live_other [simp]:
  "live_sessions (db\<lparr>users := us\<rparr>) = live_sessions db" "live_sessions (db\<lparr>federated_identities := fs\<rparr>) = live_sessions db"
  "live_sessions (db\<lparr>refresh_credentials := rs\<rparr>) = live_sessions db"
  "live_sessions (db\<lparr>email_verifications := vs\<rparr>) = live_sessions db"
  "live_sessions (db\<lparr>id_audit_events := es\<rparr>) = live_sessions db"
  by (simp_all add: live_sessions_def)

lemma live_map:
  "(\<And>s. s_UserID (f s) = s_UserID s \<and> s_ID (f s) = s_ID s \<and> s_RevokedAt (f s) = s_RevokedAt s) \<Longrightarrow>
   live_sessions (db\<lparr>sessions := map f (sessions db)\<rparr>) = live_sessions db"
  by (force simp: live_sessions_def image_iff)

lemma announces_rotation [quiet]: "announces (RotateSessionAccess j h t t2)"
  unfolding RotateSessionAccess_def Let_def
proof (rule announces_store)
  fix db :: id_db and rows
  let ?f = "\<lambda>s. if s_ID s = j \<and> s_RevokedAt s = None
    then s\<lparr>s_AccessTokenHash := h, s_AccessTokenExpiresAt := t, s_LastRefreshedAt := t2\<rparr> else s"
  assume "one_row (\<lambda>s. s_ID s = j \<and> s_RevokedAt s = None) (update_rows s_ID session_clash session_valid
    (\<lambda>s. s_ID s = j \<and> s_RevokedAt s = None)
    (\<lambda>s. s\<lparr>s_AccessTokenHash := h, s_AccessTokenExpiresAt := t, s_LastRefreshedAt := t2\<rparr>)) (sessions db) = Inr rows"
  then have "rows = map ?f (sessions db)" by (auto simp: one_row_def update_rows_def Let_def split: if_splits)
  then show "live_sessions db \<subseteq> live_sessions (db\<lparr>sessions := rows\<rparr>)" by (simp add: live_map)
qed

lemma announces_creation [quiet]: "announces (CreateSession s')"
  unfolding CreateSession_def by (rule announces_store) (auto simp: create_row_Inr live_sessions_def)

lemma announces_writes [quiet]:
  "announces (SetEmailBounced i a)" "announces (CreateUser u)" "announces (CreateFederatedIdentity f)"
  "announces (TouchFederatedIdentity p s e t)" "announces (CreateRefreshCredential r)"
  "announces (CreateEmailVerification v)" "announces (ReplaceEmailVerification v)"
  "announces (IncrementEmailVerificationAttempts i)" "announces (DeleteEmailVerification i)" "announces (ActivateUser i t)"
  "announces (ActivateFederatedUser i t)" "announces (MarkRefreshCredentialUsed h t)" "announces (IdAppendAuditEvent a')"
  unfolding id_write_defs Let_def
  by (rule announces_store, simp)+

section \<open>The operations\<close>

lemma announces_values [quiet]:
  "announces (issueRandomValue p n)" "announces (id_issueIdentifier p)" "announces (id_issueToken p)"
  "announces issueVerificationCode" "announces (newSessionMaterial svc a c now)"
  "announces (newVerificationMaterial svc a c now)"
  by (simp_all add: issueRandomValue_def id_issueIdentifier_def id_issueToken_def issueVerificationCode_def
    newSessionMaterial_def newVerificationMaterial_def Let_def quiet)

lemma announces_finds [quiet]:
  "announces (UserByNormalizedEmail e)" "announces (FederatedIdentityForUpdate p s)"
  "announces (FederatedIdentityByUserForUpdate p i)" "announces (UserByNormalizedEmailForUpdate e)"
  "announces (EmailVerificationForUpdate h)" "announces (EmailVerificationByUserIDForUpdate i)"
  "announces (RefreshCredentialForUpdate h)" "announces (SessionForUpdate i)" "announces (UserByID i)"
  "announces (AccessPrincipalByAccessTokenHash h t)" "announces (ActiveAccountByID i)" "announces (ActiveSessionByID i j t)"
  by (simp_all add: id_find_defs AccessPrincipalByAccessTokenHash_def ActiveAccountByID_def ActiveSessionByID_def quiet)

lemma announces_mail [quiet]:
  "announces (recordDelivery sent i e)" "announces (deliverVerificationCode svc sent i a c)"
  "announces (deliverRegistrationNotice svc sent n a)"
  by (simp_all add: recordDelivery_def deliverVerificationCode_def deliverRegistrationNotice_def quiet split: option.split)

lemma announces_parts [quiet]:
  "announces (decoyRegistration svc now sent a n)" "announces (register_transaction now u r)"
  "announces (persistSessionMaterial m)" "announces (reissueVerification svc now sent u c)"
  "announces (start_session_transaction ev now i m)" "announces (startGoogleSession svc acc c now ev)"
  "announces (googleRefusal ev i now g)"
  by (auto simp: decoyRegistration_def register_transaction_def persistSessionMaterial_def reissueVerification_def
    reissue_transaction_def start_session_transaction_def startGoogleSession_def googleRefusal_def
    intro!: quiet split: sum.split)

lemma announces_google [quiet]: "announces (googleSignIn svc now subject email normalizedEmail clientName)"
  by (auto simp: googleSignIn_def google_transaction_def googleReturningUser_def googleLinkExisting_def google_link_def
    googleNewAccount_def Let_def intro!: quiet split: sum.split)

lemma announces_requests:
  "announces (Register svc now sent ri)" "announces (Login svc now sent li)" "announces (VerifyEmail svc now vi)"
  "announces (ResendVerification svc now sent t)" "announces (CurrentAccount svc now t)"
  "announces (AuthenticateAccess svc now t)" "announces (AuthorizeAccount i)" "announces (AuthorizeSession now i j)"
  by (auto simp: Register_def Login_def VerifyEmail_def verify_transaction_def ResendVerification_def resend_transaction_def
    CurrentAccount_def AuthenticateAccess_def AuthorizeAccount_def AuthorizeSession_def Let_def
    intro!: quiet split: option.split sum.split account_status.split resend_outcome.split)

section \<open>The two that end a session\<close>

lemma unannounced [untoucheds]:
  "untouched iw_revoked (id_query f)" "untouched iw_revoked (id_store put g)" "untouched iw_revoked (id_draw n)"
  by (auto simp: untouched_def id_query_def id_store_def id_draw_def split: sum.splits prod.splits)

lemma unannounced_case [untoucheds]:
  "(\<And>e. untouched db (m e)) \<Longrightarrow> (\<And>x. untouched db (f x)) \<Longrightarrow> untouched db (case v of Inl e \<Rightarrow> m e | Inr x \<Rightarrow> f x)"
  by (simp split: sum.splits)

lemma unannounced_writes:
  "untouched iw_revoked (MarkRefreshCredentialUsed h t)" "untouched iw_revoked (RotateSessionAccess j h t t2)"
  "untouched iw_revoked (CreateRefreshCredential r)" "untouched iw_revoked (IdAppendAuditEvent a)"
  "untouched iw_revoked (RevokeSession j t)"
  by (simp_all add: id_write_defs Let_def untoucheds)

lemma unannounced_transactions:
  "untouched iw_revoked (refresh_transaction svc now t a r)" "untouched iw_revoked (logout_transaction svc now t)"
  by (auto simp: refresh_transaction_def logout_transaction_def id_find_defs Let_def intro!: untoucheds unannounced_writes)

lemma stays_live:
  assumes "announces m" and "untouched iw_revoked m" and "m w = (r, w')"
  shows "live_sessions (iw_db w) \<subseteq> live_sessions (iw_db w')"
proof -
  have "announces_from w w'" using assms(1,3) unfolding announces_def by (metis snd_conv)
  moreover have "iw_revoked w' = iw_revoked w" by (rule untouchedD[OF assms(2,3)])
  ultimately show ?thesis by (auto simp: announces_from_def)
qed

lemma RevokeSession_ends:
  assumes run: "RevokeSession (s_ID s) now w = (r, w')" and inv: "id_inv (iw_db w)" and s: "s \<in> set (sessions (iw_db w))"
  shows "live_sessions (iw_db w) \<subseteq> insert (s_UserID s, s_ID s) (live_sessions (iw_db w'))"
proof
  fix l assume "l \<in> live_sessions (iw_db w)"
  then obtain q where q: "q \<in> set (sessions (iw_db w))" "s_RevokedAt q = None" "l = (s_UserID q, s_ID q)"
    by (auto simp: live_sessions_def)
  show "l \<in> insert (s_UserID s, s_ID s) (live_sessions (iw_db w'))"
  proof (cases "s_ID q = s_ID s")
    case True
    then have "q = s" by (rule same_session[OF inv q(1) s])
    then show ?thesis using q(3) by simp
  next
    case False
    then have "q \<in> set (sessions (iw_db w'))"
      using run q(1) by (force simp: RevokeSession_def id_store_def dest!: update_rowsD split: sum.splits)
    then show ?thesis using q by (auto simp: live_sessions_def)
  qed
qed

definition ended_by :: "refresh_outcome \<Rightarrow> (string \<times> string) set" where
  "ended_by x = (case x of Refresh_Revoked s _ \<Rightarrow> {(s_UserID s, s_ID s)} | _ \<Rightarrow> {})"

lemmas exchange_keeps = stays_live[OF announces_writes(12) unannounced_writes(1)]
  stays_live[OF announces_rotation unannounced_writes(2)] stays_live[OF announces_writes(5) unannounced_writes(3)]

lemmas audit_keeps = stays_live[OF announces_writes(13) unannounced_writes(4)]

lemma refresh_ends:
  assumes run: "refresh_transaction svc now tok a r w = (Inr x, w')" and inv: "id_inv (iw_db w)"
  shows "live_sessions (iw_db w) \<subseteq> live_sessions (iw_db w') \<union> ended_by x"
proof -
  from run consider "w' = w"
    | s where "s \<in> set (sessions (iw_db w))" "RevokeSession (s_ID s) now w = (Inr (), w')" "ended_by x = {(s_UserID s, s_ID s)}"
    | s w1 v u where "s \<in> set (sessions (iw_db w))" "RevokeSession (s_ID s) now w = (Inr (), w1)"
        "IdAppendAuditEvent v w1 = (Inr u, w')" "ended_by x = {(s_UserID s, s_ID s)}"
    | i j k h e v w1 w2 w3 u where "MarkRefreshCredentialUsed i now w = (Inr (), w1)"
        "RotateSessionAccess j h e now w1 = (Inr (), w2)" "CreateRefreshCredential k w2 = (Inr (), w3)"
        "IdAppendAuditEvent v w3 = (Inr u, w')"
    unfolding refresh_transaction_def Let_def RefreshCredentialForUpdate_def SessionForUpdate_def UserByID_def
    by (auto simp: runs ended_by_def dest!: first_rowD)
  then show ?thesis
  proof cases
    case 1 then show ?thesis by simp
  next
    case 2 then show ?thesis using RevokeSession_ends[OF 2(2) inv 2(1)] by (simp add: ended_by_def)
  next
    case 3 then show ?thesis using RevokeSession_ends[OF 3(2) inv 3(1)] audit_keeps[OF 3(3)] by (auto simp: ended_by_def)
  next
    case 4
    show ?thesis using exchange_keeps(1)[OF 4(1)] exchange_keeps(2)[OF 4(2)] exchange_keeps(3)[OF 4(3)] audit_keeps[OF 4(4)] by blast
  qed
qed

lemma logout_ends:
  assumes run: "logout_transaction svc now tok w = (Inr x, w')" and inv: "id_inv (iw_db w)"
  shows "live_sessions (iw_db w) \<subseteq> live_sessions (iw_db w') \<union> (case x of None \<Rightarrow> {} | Some s \<Rightarrow> {(s_UserID s, s_ID s)})"
proof -
  from run consider "w' = w"
    | s w1 v u where "s \<in> set (sessions (iw_db w))" "RevokeSession (s_ID s) now w = (Inr (), w1)"
        "IdAppendAuditEvent v w1 = (Inr u, w')" "x = Some s"
    unfolding logout_transaction_def RefreshCredentialForUpdate_def SessionForUpdate_def
    by (auto simp: runs dest!: first_rowD)
  then show ?thesis
  proof cases
    case 1 then show ?thesis by (simp split: option.split)
  next
    case 2 then show ?thesis using RevokeSession_ends[OF 2(2) inv 2(1)] audit_keeps[OF 2(3)] by auto
  qed
qed

text \<open>A transaction that ends the sessions \<open>N x\<close>, followed by their announcement.\<close>

lemma transaction_then_announced:
  assumes quiet: "untouched iw_revoked m"
    and ends: "\<And>x w1. m w = (Inr x, w1) \<Longrightarrow> live_sessions (iw_db w) \<subseteq> live_sessions (iw_db w1) \<union> N x"
    and tells: "\<And>x w1. iw_db (snd (f x w1)) = iw_db w1 \<and> (\<exists>as. iw_revoked (snd (f x w1)) = iw_revoked w1 @ as \<and> N x \<subseteq> announced as)"
  shows "announces_from w (snd (seq (IdWithinTransaction m) f w))"
proof (cases "m w")
  case (Pair r w1)
  have same: "iw_revoked w1 = iw_revoked w" by (rule untouchedD[OF quiet Pair])
  show ?thesis
  proof (cases r)
    case (Inr x)
    with Pair have "snd (seq (IdWithinTransaction m) f w) = snd (f x w1)" by (simp add: seq_def IdWithinTransaction_def)
    then show ?thesis using ends[of x w1] tells[of x w1] same Pair Inr by (auto simp: announces_from_def)
  qed (use Pair same in \<open>simp add: seq_def IdWithinTransaction_def announces_from_def\<close>)
qed

lemma Logout_announces: "id_inv (iw_db w) \<Longrightarrow> announces_from w (snd (Logout svc now t w))"
  unfolding Logout_def
  by (auto simp: ret_def onSessionRevoked_def split: option.split
    intro!: transaction_then_announced[OF unannounced_transactions(2) logout_ends])

lemma Refresh_announces:
  assumes inv: "id_inv (iw_db w)" shows "announces_from w (snd (Refresh svc now t w))"
proof -
  have failed: "announces_from w1 (snd (fail e w1))" for w1 and e :: id_error by (simp add: fail_def)
  have inner: "announces_from w1 (snd (seq (IdWithinTransaction (refresh_transaction svc now t a r)) (\<lambda>outcome.
      case outcome of
        Refresh_Nothing \<Rightarrow> fail IdInvalidRefresh
      | Refresh_Revoked session accountInactive \<Rightarrow>
          seq (onSessionRevoked (s_UserID session) (s_ID session) accountInactive) (\<lambda>_. fail IdInvalidRefresh)
      | Refresh_Valid credentials \<Rightarrow> ret credentials) w1))" if "iw_db w1 = iw_db w" for a r w1
    by (rule transaction_then_announced[OF unannounced_transactions(1) refresh_ends])
      (auto simp: that inv ended_by_def ret_def fail_def seq_def onSessionRevoked_def split: refresh_outcome.split)
  have drawn: "announces_from w1 (snd (seq (id_issueToken p) f w1))"
    if f: "\<And>x w2. iw_db w2 = iw_db w1 \<Longrightarrow> announces_from w2 (snd (f x w2))" for p w1 and f :: "string \<Rightarrow> credentials id_op"
  proof -
    have "announces_from w1 (snd (id_issueToken p w1))" using announces_values(3) by (simp add: announces_def)
    moreover have "iw_db (snd (id_issueToken p w1)) = iw_db w1" using untouched_values(3) by (simp add: untouched_def)
    ultimately show ?thesis using f announces_trans by (cases "id_issueToken p w1") (auto simp: seq_def split: sum.splits)
  qed
  show ?thesis
    unfolding Refresh_def by (auto simp: failed intro!: drawn inner)
qed

lemma google_announces:
  assumes "AuthenticateWithGoogle svc clock input w = Some r" shows "announces_from w (snd r)"
proof -
  have once: "announces_from w (snd (googleSignIn svc t s e n c w))" for t s e n c w
    using announces_google by (simp add: announces_def)
  have "announces_from w (snd (google_answer (case googleSignIn svc t0 s e n c w of
      (r, w1) \<Rightarrow> if r = Inl IdConflict then googleSignIn svc t1 s e n c w1 else (r, w1))))" for t0 t1 s e n c
  proof -
    have "snd (google_answer q) = snd q" for q
      by (auto simp: google_answer_def split: prod.splits sum.splits google_outcome.splits)
    then show ?thesis
      using once[where w = w] once announces_trans by (auto split: prod.splits) (metis snd_conv)+
  qed
  then show ?thesis
    using assms by (auto simp: AuthenticateWithGoogle_def google_loop_rounds split: option.splits sum.splits if_splits)
qed

lemma id_handle_announces:
  assumes "id_inv (iw_db w)" shows "announces_from w (snd (id_handle svc now sent req w))"
proof (cases req)
  case (Req_AuthenticateWithGoogle input)
  then show ?thesis
    using google_announces AuthenticateWithGoogle_returns[of svc "\<lambda>tries. if tries = 0 then now else sent" input w] by auto
qed (use announces_requests Logout_announces[OF assms] Refresh_announces[OF assms] in \<open>simp_all add: announces_def\<close>)

end
