(* ===== verification/Relay_Props.thy ===== *)
theory Relay_Props
  imports Relay_Machine
begin

text \<open>
  What the relay guarantees at every point of every run: frames and presence messages cross only between
  the two ends of a trust within one account, queues and registrations are bounded, a renewed
  connection replaces its predecessor silently, and a disconnect reaches every socket it covers.
\<close>

section \<open>A concrete run\<close>

definition ex_relay_identity :: "char \<Rightarrow> public_identity" where
  "ex_relay_identity c = \<lparr> i_Version = 1, i_Suite = relay_hpkeSuiteID, i_KeyID = replicate 43 c, i_PublicKey = [c] \<rparr>"

definition ex_admission :: "string \<Rightarrow> char \<Rightarrow> char \<Rightarrow> admission" where
  "ex_admission role own other = \<lparr> ad_UserID = ''user'', ad_Role = role, ad_SubjectID = [own], ad_SessionID = [],
     ad_Identity = ex_relay_identity own, ad_TrustedIdentities = [ex_relay_identity other], ad_AuthorizationExpiresAt = 100 \<rparr>"

definition ex_hello :: "string \<Rightarrow> char \<Rightarrow> hello_message" where
  "ex_hello role c = \<lparr> h_ProtocolVersion = 2, h_Type = role @ ''.hello'',
     h_PluginVersion = (if role = RelayRoleClient then [] else ''1''), h_Identity = ex_relay_identity c,
     h_Nonce = replicate 22 c, h_Capabilities = [] \<rparr>"

definition ex_decode_hello :: "bytes \<Rightarrow> hello_message option" where
  "ex_decode_hello message = Some (if message = ''client'' then ex_hello RelayRoleClient CHR ''c'' else ex_hello RelayRoleConnector CHR ''k'')"

definition ex_frame :: relay_envelope where
  "ex_frame = ex_envelope\<lparr>v_SenderKeyID := replicate 43 CHR ''c'', v_RecipientKeyID := replicate 43 CHR ''k''\<rparr>"

definition ex_client :: admission where "ex_client = ex_admission RelayRoleClient CHR ''c'' CHR ''k''"
definition ex_connector_admission :: admission where
  "ex_connector_admission = ex_admission RelayRoleConnector CHR ''k'' CHR ''c''"

definition ex_client_id :: string where "ex_client_id = securePeerID ''user'' (replicate 43 CHR ''c'')"
definition ex_connector_id :: string where "ex_connector_id = securePeerID ''user'' (replicate 43 CHR ''k'')"

lemma ex_admits:
  "admits ex_decode_hello 0 ex_client ''client'' = Some (ex_hello RelayRoleClient CHR ''c'')"
  "admits ex_decode_hello 0 ex_connector_admission ''connector'' = Some (ex_hello RelayRoleConnector CHR ''k'')"
  by (simp_all add: admits_def parseHello_def ex_decode_hello_def ex_hello_def ex_client_def ex_connector_admission_def
    ex_admission_def ex_relay_identity_def helloMatchesAdmission_def protocolVersion_def identityVersion_def
    relay_validIdentity_def exactBase64URL_def validBase64URL_def isBase64URL_alphabet base64URLAlphabet_def
    RelayRoleClient_def RelayRoleConnector_def)

definition ex_relay1 :: relay_world where
  "ex_relay1 = connect [(ex_client_id, 0)] ex_client (ex_hello RelayRoleClient CHR ''c'') initial_relay"
definition ex_relay2 :: relay_world where
  "ex_relay2 = connect [(ex_client_id, 0), (ex_connector_id, 1)] ex_connector_admission (ex_hello RelayRoleConnector CHR ''k'') ex_relay1"
definition ex_relay3 :: relay_world where
  "ex_relay3 = launch (rw_hub ex_relay2, [Enqueue 1 (Forwarded 0 ''frame'')]) ex_relay2"

lemmas ex_relay_defs = ex_relay1_def ex_relay2_def ex_relay3_def connect_def launch_def open_socket_def register_peer_def
  initial_relay_def newSecureHub_def newSecurePeer_def enqueue_def outboundQueueCapacity_def introductions_def
  ex_client_def ex_connector_admission_def ex_admission_def ex_relay_identity_def relayReadyMessage_def trusts_def
  ex_client_id_def ex_connector_id_def securePeerID_def Let_def on_socket_def deliver_def

lemma ex_relay_values:
  "hub_peers (rw_hub ex_relay1) = [(ex_client_id, 0)]"
  "hub_peers (rw_hub ex_relay2) = [(ex_client_id, 0), (ex_connector_id, 1)]"
  "length (sockets (rw_hub ex_relay2)) = 2"
  "rw_pending ex_relay2 = [[], [Enqueue 0 (PeerHello 1 (ex_hello RelayRoleConnector CHR ''k'')),
      Enqueue 1 (PeerHello 0 (ex_hello RelayRoleClient CHR ''c''))]]"
  by (simp_all add: ex_relay_defs)

lemma ex_frame_parsed: "parseEnvelope (\<lambda>_. Some ex_frame) ''frame'' unix_epoch = Some ex_frame"
  using ex_envelope_accepted
  by (simp add: parseEnvelope_def ex_frame_def exactBase64URL_def isBase64URL_alphabet base64URLAlphabet_def Let_def split: if_splits)

lemma ex_frame_relayed: "relay_frame (\<lambda>_. Some ex_frame) unix_epoch 0 ''frame'' (rw_hub ex_relay2) = (True, [Enqueue 1 (Forwarded 0 ''frame'')])"
proof -
  have "v_SenderKeyID ex_frame = replicate 43 CHR ''c''" "v_RecipientKeyID ex_frame = replicate 43 CHR ''k''"
    by (simp_all add: ex_frame_def)
  then show ?thesis using ex_frame_parsed by (simp add: relay_frame_def route_def ex_relay_defs)
qed

definition ex_relay4 :: relay_world where
  "ex_relay4 = ex_relay3\<lparr>rw_hub := perform True (Enqueue 1 (Forwarded 0 ''frame'')) (rw_hub ex_relay3),
     rw_pending := rw_pending ex_relay2 @ [[]]\<rparr>"
definition ex_relay5 :: relay_world where "ex_relay5 = deliver 1 (deliver 1 ex_relay4)"

lemma ex_relay_steps:
  "relay_step ex_decode_hello (\<lambda>_. Some ex_frame) initial_relay ex_relay1"
  "relay_step ex_decode_hello (\<lambda>_. Some ex_frame) ex_relay1 ex_relay2"
  "relay_step ex_decode_hello (\<lambda>_. Some ex_frame) ex_relay2 ex_relay3"
  "relay_step ex_decode_hello (\<lambda>_. Some ex_frame) ex_relay3 ex_relay4"
proof -
  show "relay_step ex_decode_hello (\<lambda>_. Some ex_frame) initial_relay ex_relay1"
    unfolding ex_relay1_def
    by (rule relay_step.connected[OF ex_admits(1)]) (use ex_relay_values(1) in \<open>simp add: ex_relay1_def\<close>)
  show "relay_step ex_decode_hello (\<lambda>_. Some ex_frame) ex_relay1 ex_relay2"
    unfolding ex_relay2_def
    by (rule relay_step.connected[OF ex_admits(2)]) (use ex_relay_values(2) in \<open>simp add: ex_relay2_def\<close>)
  show "relay_step ex_decode_hello (\<lambda>_. Some ex_frame) ex_relay2 ex_relay3"
    unfolding ex_relay3_def
    by (rule relay_step.frame[OF _ ex_frame_relayed]) (simp add: ex_relay_values)
  show "relay_step ex_decode_hello (\<lambda>_. Some ex_frame) ex_relay3 ex_relay4"
    unfolding ex_relay4_def
    by (rule relay_step.effect[where before = "rw_pending ex_relay2" and after = "[]"]) (simp add: ex_relay3_def launch_def)
qed

lemma ex_relay_written: "rw_written ex_relay5 =
    [(1, Ready RelayRoleConnector (replicate 43 CHR ''k'') 100), (1, Forwarded 0 ''frame'')]"
  by (simp add: ex_relay5_def ex_relay4_def ex_relay_defs)

lemma ex_relay_reachable:
  "relay_reachable ex_decode_hello (\<lambda>_. Some ex_frame) ex_relay2" "relay_reachable ex_decode_hello (\<lambda>_. Some ex_frame) ex_relay5"
proof -
  let ?step = "relay_step ex_decode_hello (\<lambda>_. Some ex_frame)"
  show 2: "relay_reachable ex_decode_hello (\<lambda>_. Some ex_frame) ex_relay2"
    unfolding relay_reachable_def using ex_relay_steps(1,2) by (meson r_into_rtranclp rtranclp_trans)
  have len: "1 < length (sockets (rw_hub ex_relay4))" "rw_ended ex_relay4 = []"
    "1 < length (sockets (rw_hub (deliver 1 ex_relay4)))" "rw_ended (deliver 1 ex_relay4) = []"
    by (simp_all add: ex_relay4_def ex_relay_defs)
  have "?step ex_relay4 (deliver 1 ex_relay4)" "?step (deliver 1 ex_relay4) ex_relay5"
    unfolding ex_relay5_def
    by (rule relay_step.wrote[OF len(1)], simp add: len, rule relay_step.wrote[OF len(3)], simp only: len, simp)
  then show "relay_reachable ex_decode_hello (\<lambda>_. Some ex_frame) ex_relay5"
    using 2 ex_relay_steps(3,4) unfolding relay_reachable_def by (meson r_into_rtranclp rtranclp_trans)
qed

section \<open>Isolation\<close>

text \<open>C4: Every frame ever written to a socket came from a socket of the same account and the other role, and
  each of the two was admitted as trusting the other.\<close>

theorem relay_isolation:
  assumes "relay_reachable dh de w" and "(i, Forwarded j message) \<in> set (rw_written w)"
  shows "let to = sp_admission (sockets (rw_hub w) ! i); from = sp_admission (sockets (rw_hub w) ! j) in
    i < length (sockets (rw_hub w)) \<and> j < length (sockets (rw_hub w)) \<and>
    ad_UserID from = ad_UserID to \<and> ad_Role from \<noteq> ad_Role to \<and>
    i_KeyID (ad_Identity from) \<in> i_KeyID ` set (ad_TrustedIdentities to) \<and>
    i_KeyID (ad_Identity to) \<in> i_KeyID ` set (ad_TrustedIdentities from)"
proof -
  have inv: "relay_inv w" by (rule relay_reachable_inv[OF assms(1)])
  then have "delivery_ok (sockets (rw_hub w)) i (Forwarded j message)"
    using assms(2) by (fastforce simp: relay_inv_def)
  then show ?thesis
    using inv hub_peer(1)[of "rw_hub w" i] hub_peer(1)[of "rw_hub w" j]
    by (auto simp: relay_inv_def delivery_ok_def counterparts_def trusts_def peer_ok_def Let_def)
qed

theorem relay_isolation_witness:
  "ad_UserID (sp_admission (sockets (rw_hub ex_relay5) ! 0)) = ad_UserID (sp_admission (sockets (rw_hub ex_relay5) ! 1))"
  using relay_isolation[OF ex_relay_reachable(2), of 1 0 "''frame''"] by (simp add: ex_relay_written Let_def)

text \<open>C14: Presence stays within a trust too: a hello or an offline notice written to a socket is about a
  peer of the same account and the other role that the receiver trusts, and a hello only when the trust is mutual.\<close>

theorem presence_isolation:
  assumes "relay_reachable dh de w" and "(i, m) \<in> set (rw_written w)"
  shows "case m of
      PeerHello j hello \<Rightarrow> hello = sp_hello (sockets (rw_hub w) ! j) \<and>
        counterparts (sockets (rw_hub w) ! j) (sockets (rw_hub w) ! i)
    | PeerOffline j kind keyID \<Rightarrow> keyID = sp_keyID (sockets (rw_hub w) ! j) \<and>
        sp_userID (sockets (rw_hub w) ! i) = sp_userID (sockets (rw_hub w) ! j) \<and>
        sp_role (sockets (rw_hub w) ! i) \<noteq> sp_role (sockets (rw_hub w) ! j) \<and>
        trusts (sockets (rw_hub w) ! i) keyID
    | _ \<Rightarrow> True"
proof -
  have "delivery_ok (sockets (rw_hub w)) i m"
    using relay_reachable_inv[OF assms(1)] assms(2) by (fastforce simp: relay_inv_def)
  then show ?thesis by (auto simp: delivery_ok_def split: outbound.splits)
qed

text \<open>C16: A slow or hostile peer costs bounded memory: a queue never holds more than 64 messages, and an
  identity has at most one registered socket.\<close>

theorem relay_bounded:
  assumes "relay_reachable dh de w"
  shows "(\<forall>p \<in> set (sockets (rw_hub w)). length (sp_send p) \<le> 64) \<and> distinct (map fst (hub_peers (rw_hub w))) \<and>
    (\<forall>(k, i) \<in> set (hub_peers (rw_hub w)). \<forall>(k', j) \<in> set (hub_peers (rw_hub w)).
       sp_userID (sockets (rw_hub w) ! i) = sp_userID (sockets (rw_hub w) ! j) \<and>
       sp_keyID (sockets (rw_hub w) ! i) = sp_keyID (sockets (rw_hub w) ! j) \<longrightarrow> i = j)"
proof -
  have ok: "hub_ok (rw_hub w)" using relay_reachable_inv[OF assms] by (simp add: relay_inv_def)
  have "i = j" if "(k, i) \<in> set (hub_peers (rw_hub w))" "(k', j) \<in> set (hub_peers (rw_hub w))"
    "sp_userID (sockets (rw_hub w) ! i) = sp_userID (sockets (rw_hub w) ! j)"
    "sp_keyID (sockets (rw_hub w) ! i) = sp_keyID (sockets (rw_hub w) ! j)" for i j k k'
    using that hub_member(2)[OF ok that(1)] hub_member(2)[OF ok that(2)] ok
    by (auto simp: hub_ok_def dest: eq_key_imp_eq_value)
  then show ?thesis using ok by (auto simp: hub_ok_def outboundQueueCapacity_def)
qed

text \<open>The connector of the example is announced to the client, and leaves.\<close>

definition ex_meet1 :: relay_world where
  "ex_meet1 = ex_relay2\<lparr>rw_hub := perform True (Enqueue 0 (PeerHello 1 (ex_hello RelayRoleConnector CHR ''k''))) (rw_hub ex_relay2),
     rw_pending := [[], [Enqueue 1 (PeerHello 0 (ex_hello RelayRoleClient CHR ''c''))]]\<rparr>"
definition ex_meet2 :: relay_world where "ex_meet2 = deliver 0 (deliver 0 ex_meet1)"
definition ex_meet3 :: relay_world where "ex_meet3 = launch (unregister_peer [(ex_client_id, 0)] 1 (rw_hub ex_meet2)) ex_meet2"
definition ex_meet4 :: relay_world where
  "ex_meet4 = ex_meet3\<lparr>rw_hub := perform True (Enqueue 0 (PeerOffline 1 ''connector.offline'' (replicate 43 CHR ''k''))) (rw_hub ex_meet3),
     rw_pending := [[], [Enqueue 1 (PeerHello 0 (ex_hello RelayRoleClient CHR ''c''))], []]\<rparr>"
definition ex_meet5 :: relay_world where "ex_meet5 = deliver 0 ex_meet4"

lemmas ex_meet_defs = ex_meet1_def ex_meet2_def ex_meet3_def ex_meet4_def ex_meet5_def unregister_peer_def
  RelayRoleConnector_def RelayRoleClient_def

lemma ex_meet_values:
  "rw_pending ex_meet3 = [[], [Enqueue 1 (PeerHello 0 (ex_hello RelayRoleClient CHR ''c''))],
     [Enqueue 0 (PeerOffline 1 ''connector.offline'' (replicate 43 CHR ''k''))]]"
  "hub_peers (fst (unregister_peer [(ex_client_id, 0)] 1 (rw_hub ex_meet2))) = [(ex_client_id, 0)]"
  "length (sockets (rw_hub ex_meet2)) = 2" "length (sockets (rw_hub ex_meet1)) = 2" "rw_ended ex_meet1 = []"
  "length (sockets (rw_hub (deliver 0 ex_meet1))) = 2" "rw_ended (deliver 0 ex_meet1) = []"
  "length (sockets (rw_hub ex_meet4)) = 2" "rw_ended ex_meet4 = []"
  "rw_written ex_meet5 = [(0, Ready RelayRoleClient (replicate 43 CHR ''c'') 100),
     (0, PeerHello 1 (ex_hello RelayRoleConnector CHR ''k'')), (0, PeerOffline 1 ''connector.offline'' (replicate 43 CHR ''k''))]"
  by (simp_all add: ex_relay_defs ex_meet_defs)

lemma ex_meet_reachable: "relay_reachable ex_decode_hello (\<lambda>_. Some ex_frame) ex_meet5"
proof -
  let ?step = "relay_step ex_decode_hello (\<lambda>_. Some ex_frame)"
  have "?step ex_relay2 ex_meet1"
    unfolding ex_meet1_def
    by (rule relay_step.effect[where before = "[[]]" and after = "[]", simplified]) (simp add: ex_relay_values)
  moreover have "?step ex_meet1 (deliver 0 ex_meet1)" by (rule relay_step.wrote) (simp_all add: ex_meet_values)
  moreover have "?step (deliver 0 ex_meet1) ex_meet2"
    unfolding ex_meet2_def by (rule relay_step.wrote) (simp_all add: ex_meet_values)
  moreover have "?step ex_meet2 ex_meet3"
    unfolding ex_meet3_def by (rule relay_step.left) (use ex_meet_values(2,3) in simp)+
  moreover have "?step ex_meet3 ex_meet4"
  proof -
    have "rw_pending ex_meet3 = [[], [Enqueue 1 (PeerHello 0 (ex_hello RelayRoleClient CHR ''c''))]] @
        [Enqueue 0 (PeerOffline 1 ''connector.offline'' (replicate 43 CHR ''k''))] # []"
      by (simp add: ex_meet_values)
    from relay_step.effect[OF this, of _ _ True] show ?thesis by (simp only: ex_meet4_def append_Cons append_Nil)
  qed
  moreover have "?step ex_meet4 ex_meet5"
    unfolding ex_meet5_def by (rule relay_step.wrote) (simp_all add: ex_meet_values)
  ultimately show ?thesis
    using ex_relay_reachable(1) unfolding relay_reachable_def by (meson rtranclp.rtrancl_into_rtrancl)
qed

theorem presence_isolation_witness:
  "(0, PeerHello 1 (ex_hello RelayRoleConnector CHR ''k'')) \<in> set (rw_written ex_meet5)
   \<and> counterparts (sockets (rw_hub ex_meet5) ! 1) (sockets (rw_hub ex_meet5) ! 0)
   \<and> (0, PeerOffline 1 ''connector.offline'' (replicate 43 CHR ''k'')) \<in> set (rw_written ex_meet5)
   \<and> sp_role (sockets (rw_hub ex_meet5) ! 0) \<noteq> sp_role (sockets (rw_hub ex_meet5) ! 1)
   \<and> trusts (sockets (rw_hub ex_meet5) ! 0) (replicate 43 CHR ''k'')"
proof -
  have written: "(0, PeerHello 1 (ex_hello RelayRoleConnector CHR ''k'')) \<in> set (rw_written ex_meet5)"
    "(0, PeerOffline 1 ''connector.offline'' (replicate 43 CHR ''k'')) \<in> set (rw_written ex_meet5)"
    by (simp_all add: ex_meet_values)
  with presence_isolation[OF ex_meet_reachable written(1)] presence_isolation[OF ex_meet_reachable written(2)]
  show ?thesis by (auto simp only: outbound.case)
qed

theorem relay_bounded_witness: "length (hub_peers (rw_hub ex_relay2)) = 2 \<and> distinct (map fst (hub_peers (rw_hub ex_relay2)))"
  using relay_bounded[OF ex_relay_reachable(1)] ex_relay_values(2) by simp

section \<open>Replacement and revocation\<close>

lemma replaced_socket:
  assumes "hub_ok hub0" and "i < length (sockets hub0)"
    and "map_of (hub_peers hub0) (securePeerID (sp_userID (sockets hub0 ! i)) (sp_keyID (sockets hub0 ! i))) = Some j"
    and "j \<noteq> i" and "register_peer order i hub0 = (hub, effects)"
  shows "Stop j \<in> set effects \<and> (i \<in> snd ` set (hub_peers hub) \<and> j \<notin> snd ` set (hub_peers hub)) \<and>
    unregister_peer order' j hub = (hub, [])"
proof -
  let ?id = "securePeerID (sp_userID (sockets hub0 ! i)) (sp_keyID (sockets hub0 ! i))"
  have hub: "hub = hub0\<lparr>hub_peers := AList.update ?id i (hub_peers hub0)\<rparr>" "Stop j \<in> set effects"
    using assms(3,5) by (auto simp: register_peer_def Let_def)
  have ok': "hub_ok hub" using hub_ok_update[OF assms(1) assms(2)] by (simp add: hub)
  have look: "map_of (hub_peers hub) k = (if k = ?id then Some i else map_of (hub_peers hub0) k)" for k
    by (simp add: hub update_conv')
  have j_id: "securePeerID (sp_userID (sockets hub ! j)) (sp_keyID (sockets hub ! j)) = ?id"
    using hub_entry(2)[OF assms(1) assms(3)] by (simp add: hub)
  have "(?id, i) \<in> set (hub_peers hub)" using look[of ?id] by (auto dest: map_of_SomeD)
  then have i_in: "i \<in> snd ` set (hub_peers hub)" by force
  have "(k, j) \<notin> set (hub_peers hub)" for k
  proof
    assume j: "(k, j) \<in> set (hub_peers hub)"
    then have "map_of (hub_peers hub) k = Some j" using ok' by (simp add: hub_ok_def)
    then show False using look[of k] hub_member(2)[OF ok' j] j_id assms(4) by simp
  qed
  then have "j \<notin> snd ` set (hub_peers hub)" by force
  moreover have "unregister_peer order' j hub = (hub, [])"
    using look[of ?id] j_id assms(4) by (simp add: unregister_peer_def Let_def)
  ultimately show ?thesis using hub(2) i_in by simp
qed

text \<open>C15: A socket that connects with an identity already connected stops its predecessor and takes its place,
  and the predecessor's departure afterwards changes nothing and tells nobody.\<close>

theorem replaced_socket_leaves_silently:
  assumes "relay_reachable dh de w" and "admits dh now admission message = Some hello"
    and "map_of (hub_peers (rw_hub w)) (securePeerID (ad_UserID admission) (i_KeyID (ad_Identity admission))) = Some old"
    and "register_peer order (length (sockets (rw_hub w))) (open_socket admission hello (rw_hub w)) = (hub, effects)"
  shows "Stop old \<in> set effects \<and> length (sockets (rw_hub w)) \<in> snd ` set (hub_peers hub) \<and>
    old \<notin> snd ` set (hub_peers hub) \<and> unregister_peer order' old hub = (hub, [])"
proof -
  have ok: "hub_ok (rw_hub w)" "queues_ok (sockets (rw_hub w))"
    using relay_reachable_inv[OF assms(1)] by (simp_all add: relay_inv_alt)
  note op = open_socket_ok[OF ok admits_peer_ok[OF assms(2)]]
  have new: "sockets (open_socket admission hello (rw_hub w)) ! length (sockets (rw_hub w)) =
      snd (enqueue True (relayReadyMessage admission) (newSecurePeer admission hello))"
    by (simp add: open_socket_def)
  have "sp_userID (snd (enqueue True m (newSecurePeer admission hello))) = ad_UserID admission"
    "sp_keyID (snd (enqueue True m (newSecurePeer admission hello))) = i_KeyID (ad_Identity admission)" for m
    using same_peerD[OF same_peer_updates(3)[of "newSecurePeer admission hello" True m]] by (simp_all add: newSecurePeer_def)
  moreover have "old \<noteq> length (sockets (rw_hub w))" using hub_entry(1)[OF ok(1) assms(3)] by simp
  ultimately show ?thesis
    using replaced_socket[OF op(1) _ _ _ assms(4), of old order'] op(4,5) assms(3) new by simp
qed

theorem replaced_socket_leaves_silently_witness:
  "\<exists>hub effects. register_peer [(ex_client_id, 2), (ex_connector_id, 1)] 2
      (open_socket ex_client (ex_hello RelayRoleClient CHR ''c'') (rw_hub ex_relay2)) = (hub, effects) \<and>
    Stop 0 \<in> set effects \<and> unregister_peer [] 0 hub = (hub, [])"
proof -
  obtain hub effects where reg: "register_peer [(ex_client_id, 2), (ex_connector_id, 1)] (length (sockets (rw_hub ex_relay2)))
      (open_socket ex_client (ex_hello RelayRoleClient CHR ''c'') (rw_hub ex_relay2)) = (hub, effects)"
    by (metis prod.exhaust)
  have "map_of (hub_peers (rw_hub ex_relay2)) (securePeerID (ad_UserID ex_client) (i_KeyID (ad_Identity ex_client))) = Some 0"
    by (simp add: ex_relay_values(2) ex_client_def ex_admission_def ex_relay_identity_def ex_client_id_def)
  from replaced_socket_leaves_silently[OF ex_relay_reachable(1) ex_admits(1) this reg, of "[]"]
  show ?thesis using reg ex_relay_values(3) by auto
qed

lemma perform_stops:
  "j < length (sockets hub) \<Longrightarrow>
   sockets (perform_all (map Stop is) hub) ! j = (if j \<in> set is then stop_peer (sockets hub ! j) else sockets hub ! j)"
proof (induction "is" arbitrary: hub)
  case (Cons i "is")
  have "length (sockets (on_socket i stop_peer hub)) = length (sockets hub)" by simp
  then show ?case
    using Cons.IH[of "on_socket i stop_peer hub"] Cons.prems
    by (cases "i = j") (auto simp: perform_all_def on_socket_def stop_peer_def)
qed (simp add: perform_all_def)

text \<open>Disconnecting a revocation closes exactly the registered sockets it covers, and reports how many.\<close>

theorem disconnect_closes_covered:
  assumes "relay_reachable dh de w" and "mset order = mset (hub_peers (rw_hub w))"
    and "disconnect order (Covers revocation) (rw_hub w) = (closed, effects)"
    and "(k, i) \<in> set (hub_peers (rw_hub w))"
  shows "closed = length (filter (\<lambda>(_, j). Covers revocation (sp_admission (sockets (rw_hub w) ! j))) (hub_peers (rw_hub w))) \<and>
    sockets (perform_all effects (rw_hub w)) ! i =
      (if Covers revocation (sp_admission (sockets (rw_hub w) ! i)) then stop_peer (sockets (rw_hub w) ! i)
       else sockets (rw_hub w) ! i)"
proof -
  let ?covered = "\<lambda>(_, j). Covers revocation (sp_admission (sockets (rw_hub w) ! j))"
  have ok: "hub_ok (rw_hub w)" using relay_reachable_inv[OF assms(1)] by (simp add: relay_inv_def)
  have res: "closed = length (filter ?covered order)" "effects = map Stop (map snd (filter ?covered order))"
    using assms(3) by (auto simp: disconnect_def Let_def filter_map comp_def case_prod_unfold)
  have "mset (filter ?covered order) = mset (filter ?covered (hub_peers (rw_hub w)))"
    using assms(2) by (simp add: mset_filter)
  then have "closed = length (filter ?covered (hub_peers (rw_hub w)))"
    by (simp add: res(1) flip: size_mset)
  moreover have "i \<in> set (map snd (filter ?covered order)) \<longleftrightarrow> Covers revocation (sp_admission (sockets (rw_hub w) ! i))"
    using assms(4) mset_eq_setD[OF assms(2)] by force
  ultimately show ?thesis
    unfolding res(2) perform_stops[OF hub_member(1)[OF ok assms(4)]] by presburger
qed

definition ex_device_revocation :: revocation where
  "ex_device_revocation = \<lparr> rv_UserID = ''user'', rv_ConnectorID = [], rv_DeviceID = ''c'', rv_SessionID = [] \<rparr>"

theorem disconnect_closes_covered_witness:
  "sp_done (sockets (perform_all (snd (disconnect (hub_peers (rw_hub ex_relay2)) (Covers ex_device_revocation) (rw_hub ex_relay2)))
     (rw_hub ex_relay2)) ! 0)"
proof -
  have covered: "Covers ex_device_revocation (sp_admission (sockets (rw_hub ex_relay2) ! 0))"
    by (simp add: Covers_def ex_device_revocation_def ex_relay_defs)
  have "(ex_client_id, 0) \<in> set (hub_peers (rw_hub ex_relay2))" by (simp add: ex_relay_values)
  from disconnect_closes_covered[OF ex_relay_reachable(1) refl prod.collapse[symmetric] this] covered
  show ?thesis by (simp add: stop_peer_def)
qed

text \<open>C17: A frame for a trusted counterpart that is connected and keeping up reaches the end of its queue.\<close>

theorem trusted_frame_delivered:
  assumes "relay_reachable dh de w" and "i < length (sockets (rw_hub w))" and "(k, j) \<in> set (hub_peers (rw_hub w))"
    and "counterparts (sockets (rw_hub w) ! i) (sockets (rw_hub w) ! j)"
    and "parseEnvelope de message now = Some envelope"
    and "v_SenderKeyID envelope = sp_keyID (sockets (rw_hub w) ! i)"
    and "v_RecipientKeyID envelope = sp_keyID (sockets (rw_hub w) ! j)"
    and "\<not> sp_done (sockets (rw_hub w) ! j)" and "length (sp_send (sockets (rw_hub w) ! j)) < 64"
  shows "\<exists>effects. relay_frame de now i message (rw_hub w) = (True, effects) \<and>
    sp_send (sockets (perform_all effects (rw_hub w)) ! j) = sp_send (sockets (rw_hub w) ! j) @ [Forwarded i message]"
proof -
  have ok: "hub_ok (rw_hub w)" using relay_reachable_inv[OF assms(1)] by (simp add: relay_inv_def)
  have "map_of (hub_peers (rw_hub w)) (securePeerID (sp_userID (sockets (rw_hub w) ! i)) (sp_keyID (sockets (rw_hub w) ! j))) = Some j"
    using hub_member(2)[OF ok assms(3)] assms(3,4) ok by (simp add: hub_ok_def counterparts_def)
  then have "relay_frame de now i message (rw_hub w) = (True, [Enqueue j (Forwarded i message)])"
    using assms(4-7) by (auto simp: relay_frame_def route_def counterparts_def Let_def)
  then show ?thesis
    using assms(8,9) hub_member(1)[OF ok assms(3)]
    by (simp add: perform_all_def on_socket_def enqueue_def outboundQueueCapacity_def Let_def)
qed

theorem trusted_frame_delivered_witness:
  "\<exists>effects. relay_frame (\<lambda>_. Some ex_frame) unix_epoch 0 ''frame'' (rw_hub ex_relay2) = (True, effects) \<and>
    sp_send (sockets (perform_all effects (rw_hub ex_relay2)) ! 1) = sp_send (sockets (rw_hub ex_relay2) ! 1) @ [Forwarded 0 ''frame'']"
proof -
  have two: "0 < length (sockets (rw_hub ex_relay2))" "(ex_connector_id, 1) \<in> set (hub_peers (rw_hub ex_relay2))"
    by (simp_all add: ex_relay_values)
  show ?thesis
    by (rule trusted_frame_delivered[OF ex_relay_reachable(1) two _ ex_frame_parsed])
      (simp_all add: ex_frame_def ex_relay_defs counterparts_def)
qed

text \<open>The periodic check never waits more than one and a half intervals, nor less than half of one.\<close>

theorem jittered_bounds:
  assumes "0 \<le> random" and "random < revalidation_interval configured"
  shows "revalidation_interval configured div 2 \<le> jittered random (revalidation_interval configured) \<and>
    2 * jittered random (revalidation_interval configured) < 3 * revalidation_interval configured"
proof -
  have "0 < revalidation_interval configured"
    by (simp add: revalidation_interval_def defaultRevalidationInterval_def duration_defs)
  then show ?thesis using assms by (simp add: jittered_def go_div_nonneg)
qed

theorem jittered_bounds_witness: "2 * jittered 29999999999 (revalidation_interval 0) < 3 * (30 * 1000000000)"
  using jittered_bounds[of 29999999999 0]
  by (simp add: revalidation_interval_def defaultRevalidationInterval_def duration_defs)

end
