(* ===== verification/Relay_Serve.thy ===== *)
theory Relay_Serve
  imports Conn_Once Relay_Dev Relay_Props
begin

text \<open>
  The goroutines of one relay socket (\<open>Handler.ServeHTTP\<close>, \<open>monitorAuthorization\<close> and \<open>writePump\<close> of
  \<open>internal/relay/production.go\<close>, and the handler of \<open>development.go\<close>): what each does at each of its turns,
  with every call it makes on the response and the connection.  The WebSocket library is a parameter: whether
  it upgrades, what a read returns (nothing when it fails, else whether the message is text, and its bytes)
  and whether a write succeeds.  \<open>clock\<close> gives the readings of the clock within a turn, in order.
\<close>

section \<open>Timing and calls\<close>

definition helloTimeout :: duration where "helloTimeout = 10 * second"
definition writeTimeout :: duration where "writeTimeout = 10 * second"
definition pongTimeout :: duration where "pongTimeout = 60 * second"
definition pingInterval :: duration where "pingInterval = 45 * second"

datatype ws_call =
    Http_error string int
  | EnableWriteCompression bool
  | SetReadLimit nat
  | SetReadDeadline instant
  | AfterFunc duration
  | SetWriteDeadline instant
  | WriteText outbound
  | WritePing instant
  | WriteClose nat instant
  | CloseWebSocket

definition CloseNormalClosure :: nat where "CloseNormalClosure = 1000"
definition ClosePolicyViolation :: nat where "ClosePolicyViolation = 1008"

definition closeWithPolicyViolation :: "instant \<Rightarrow> ws_call list" where
  "closeWithPolicyViolation now = [WriteClose ClosePolicyViolation (now + writeTimeout), CloseWebSocket]"

text \<open>The pong handler the reader installs.\<close>

definition pong_received :: "instant \<Rightarrow> ws_call" where
  "pong_received now = SetReadDeadline (now + pongTimeout)"

type_synonym ws_read = "(bool \<times> bytes) option"

section \<open>The handler\<close>

record relay_config =
  rc_AllowedOrigins :: "string list"
  rc_DevelopmentEcho :: bool
  rc_RevalidationInterval :: duration

record relay_handler =
  rh_allowedOrigins :: "string list"
  rh_developmentEcho :: bool
  rh_revalidationInterval :: duration

definition relay_NewHandler :: "relay_config \<Rightarrow> relay_handler" where
  "relay_NewHandler config = \<lparr> rh_allowedOrigins = allowed_origins (rc_AllowedOrigins config),
     rh_developmentEcho = rc_DevelopmentEcho config,
     rh_revalidationInterval = revalidation_interval (rc_RevalidationInterval config) \<rparr>"

text \<open>The two sockets a handler mounts.\<close>

definition relay_paths :: "relay_handler \<Rightarrow> string list" where
  "relay_paths handler = ''/v1/relay'' # (if rh_developmentEcho handler then [''/dev/relay''] else [])"

section \<open>The reader\<close>

text \<open>Where the reader of a socket stands; a peer is named by its position in the hub's list of sockets.\<close>

datatype socket_phase =
    Turned_away
  | Awaiting_hello admission
  | Serving nat
  | Departed nat

text \<open>The request, up to the wait for the hello.\<close>

definition serve_request ::
  "relay_handler \<Rightarrow> conn_service \<Rightarrow> instant \<Rightarrow> bool \<Rightarrow> (nat \<Rightarrow> instant) \<Rightarrow> upgrade_request \<Rightarrow> conn_world
     \<Rightarrow> (socket_phase \<times> ws_call list) \<times> conn_world" where
  "serve_request handler svc now upgraded clock request w =
     (if \<not> allowOrigin (rh_allowedOrigins handler) request
        then ((Turned_away, [Http_error ''origin not allowed'' 403]), w)
      else case relayTicket request of
        None \<Rightarrow> ((Turned_away, [Http_error ''relay admission denied'' 401]), w)
      | Some ticket \<Rightarrow>
          (case ConsumeRelayTicket svc now ticket w of
             (Inl _, w) \<Rightarrow> ((Turned_away, [Http_error ''relay admission denied'' 401]), w)
           | (Inr admission, w) \<Rightarrow>
               if \<not> upgraded then ((Turned_away, []), w)
               else ((Awaiting_hello admission, [EnableWriteCompression False, SetReadLimit maxHelloLength,
                        SetReadDeadline (clock 0 + helloTimeout)]), w)))"

text \<open>
  The first message.  \<open>order\<close> is how a walk over the hub's map visits its entries; registering never fails.
\<close>

definition serve_hello ::
  "(bytes \<Rightarrow> hello_message option) \<Rightarrow> (nat \<Rightarrow> instant) \<Rightarrow> (relay_hub \<Rightarrow> (string \<times> nat) list) \<Rightarrow> admission \<Rightarrow> ws_read
     \<Rightarrow> relay_world \<Rightarrow> (socket_phase \<times> ws_call list) \<times> relay_world" where
  "serve_hello decode clock order admission read w =
     (case read of
        None \<Rightarrow> ((Turned_away, [CloseWebSocket]), w)
      | Some (is_text, message) \<Rightarrow>
          if \<not> is_text then ((Turned_away, [CloseWebSocket]), w)
          else case admits decode (clock 0) admission message of
            None \<Rightarrow> ((Turned_away, closeWithPolicyViolation (clock 1)), w)
          | Some hello \<Rightarrow>
              let peer = length (sockets (rw_hub w));
                  registered = fst (register_peer [] peer (open_socket admission hello (rw_hub w))) in
              ((Serving peer, [AfterFunc (ad_AuthorizationExpiresAt admission - clock 1), SetReadLimit maxRelayFrameLength,
                  SetReadDeadline (clock 2 + pongTimeout)]),
               connect (order registered) admission hello w))"

text \<open>What is deferred when the reader returns: leaving the hub, and stopping the peer.\<close>

definition leave :: "(relay_hub \<Rightarrow> (string \<times> nat) list) \<Rightarrow> nat \<Rightarrow> relay_world \<Rightarrow> socket_phase \<times> relay_world" where
  "leave order peer w =
     (let remaining = fst (unregister_peer [] peer (rw_hub w)) in
      (Departed peer, stop_socket peer (launch (unregister_peer (order remaining) peer (rw_hub w)) w)))"

text \<open>Every later message.\<close>

definition serve_frame ::
  "(bytes \<Rightarrow> relay_envelope option) \<Rightarrow> instant \<Rightarrow> (relay_hub \<Rightarrow> (string \<times> nat) list) \<Rightarrow> nat \<Rightarrow> ws_read
     \<Rightarrow> relay_world \<Rightarrow> socket_phase \<times> relay_world" where
  "serve_frame decode now order peer read w =
     (case read of
        None \<Rightarrow> leave order peer w
      | Some (is_text, message) \<Rightarrow>
          if \<not> is_text then leave order peer w
          else case relay_frame decode now peer message (rw_hub w) of
            (routed, effects) \<Rightarrow>
              let w = launch (rw_hub w, effects) w in
              if \<not> routed then leave order peer w else (Serving peer, w))"

section \<open>The writer\<close>

text \<open>The cases of its select; none when the case is not ready or the writer has returned.\<close>

datatype pump_case = Pump_message | Pump_tick | Pump_done

definition finish_pump :: "nat \<Rightarrow> relay_world \<Rightarrow> relay_world" where
  "finish_pump peer w = w\<lparr>rw_ended := peer # rw_ended w\<rparr>"

definition writePump :: "instant \<Rightarrow> bool \<Rightarrow> pump_case \<Rightarrow> nat \<Rightarrow> relay_world \<Rightarrow> (ws_call list \<times> relay_world) option" where
  "writePump now written picked peer w =
     (if peer \<in> set (rw_ended w) then None
      else case picked of
        Pump_message \<Rightarrow>
          (case sp_send (sockets (rw_hub w) ! peer) of [] \<Rightarrow> None
           | message # _ \<Rightarrow>
               let calls = [SetWriteDeadline (now + writeTimeout), WriteText message]; w = deliver peer w in
               Some (if written then (calls, w) else (calls @ [CloseWebSocket], finish_pump peer w)))
      | Pump_tick \<Rightarrow>
          Some (if written then ([WritePing (now + writeTimeout)], w)
                else ([WritePing (now + writeTimeout), CloseWebSocket], finish_pump peer w))
      | Pump_done \<Rightarrow>
          if \<not> sp_done (sockets (rw_hub w) ! peer) then None
          else Some ([WriteClose CloseNormalClosure (now + writeTimeout), CloseWebSocket], finish_pump peer w))"

section \<open>The periodic check\<close>

text \<open>One turn of \<open>monitorAuthorization\<close>, when its timer fires: what it does next, and both worlds.\<close>

definition monitorAuthorization ::
  "relay_handler \<Rightarrow> conn_service \<Rightarrow> instant \<Rightarrow> duration \<Rightarrow> nat \<Rightarrow> conn_world \<times> relay_world
     \<Rightarrow> monitor_action \<times> conn_world \<times> relay_world" where
  "monitorAuthorization handler svc now random peer = (\<lambda>(c, w).
     case ValidateAdmission svc now (sp_admission (sockets (rw_hub w) ! peer)) c of (result, c) \<Rightarrow>
       let action = monitor_action random (rh_revalidationInterval handler) (case result of Inl e \<Rightarrow> Some e | Inr _ \<Rightarrow> None) in
       (action, c, if action = CloseSocket then stop_socket peer w else w))"

section \<open>The development handler\<close>

text \<open>\<open>parse\<close> is \<open>url.Parse\<close>: the scheme and the host name.\<close>

definition allowDevelopmentOrigin :: "(string \<Rightarrow> (string \<times> string) option) \<Rightarrow> upgrade_request \<Rightarrow> bool" where
  "allowDevelopmentOrigin parse request =
     (if u_Origin request = [] then True
      else case parse (u_Origin request) of
        None \<Rightarrow> False
      | Some (scheme, hostname) \<Rightarrow>
          if scheme \<noteq> ''http'' \<and> scheme \<noteq> ''https'' then False
          else hostname \<in> {''127.0.0.1'', ''::1'', ''localhost''})"

definition dev_serve_request :: "bool \<Rightarrow> (nat \<Rightarrow> instant) \<Rightarrow> ws_call list option" where
  "dev_serve_request upgraded clock =
     (if \<not> upgraded then None
      else Some [EnableWriteCompression False, SetReadLimit maxHelloLength, SetReadDeadline (clock 0 + helloTimeout)])"

definition dev_on_socket :: "nat \<Rightarrow> (dev_peer \<Rightarrow> dev_peer) \<Rightarrow> dev_hub \<Rightarrow> dev_hub" where
  "dev_on_socket i f hub = hub\<lparr>dh_sockets := (dh_sockets hub)[i := f (dh_sockets hub ! i)]\<rparr>"

fun dev_perform :: "bool \<Rightarrow> relay_effect \<Rightarrow> dev_hub \<Rightarrow> dev_hub" where
  "dev_perform done_first (Enqueue i message) hub = dev_on_socket i (\<lambda>p. snd (dev_enqueue done_first message p)) hub"
| "dev_perform done_first (Stop i) hub = dev_on_socket i dev_stop hub"

text \<open>A connection refused by the hub leaves it as it was; its peer is dropped.\<close>

definition dev_serve_hello ::
  "(bytes \<Rightarrow> hello_message option) \<Rightarrow> (nat \<Rightarrow> instant) \<Rightarrow> (string \<times> nat) list \<Rightarrow> bool \<Rightarrow> ws_read \<Rightarrow> dev_hub
     \<Rightarrow> (nat option \<times> ws_call list) \<times> dev_hub" where
  "dev_serve_hello decode clock order done_first read hub =
     (case read of
        None \<Rightarrow> ((None, [CloseWebSocket]), hub)
      | Some (is_text, message) \<Rightarrow>
          if \<not> is_text then ((None, [CloseWebSocket]), hub)
          else case parseHello decode message of
            None \<Rightarrow> ((None, closeWithPolicyViolation (clock 0)), hub)
          | Some hello \<Rightarrow>
              let peer = length (dh_sockets hub) in
              (case dev_register order peer (hub\<lparr>dh_sockets := dh_sockets hub @ [newPeer hello]\<rparr>) of
                 None \<Rightarrow> ((None, closeWithPolicyViolation (clock 0)), hub)
               | Some (hub, effects) \<Rightarrow>
                   ((Some peer, [SetReadLimit maxRelayFrameLength, SetReadDeadline (clock 0 + pongTimeout)]),
                    fold (dev_perform done_first) effects hub)))"

text \<open>The effects of a goroutine on other peers run uninterrupted here; the writer also says whether it goes on.\<close>

definition dev_leave :: "(string \<times> nat) list \<Rightarrow> bool \<Rightarrow> nat \<Rightarrow> dev_hub \<Rightarrow> dev_hub" where
  "dev_leave order done_first peer hub =
     (case dev_unregister order peer hub of (hub, effects) \<Rightarrow>
        dev_on_socket peer dev_stop (fold (dev_perform done_first) effects hub))"

definition dev_serve_frame ::
  "(bytes \<Rightarrow> relay_envelope option) \<Rightarrow> instant \<Rightarrow> (string \<times> nat) list \<Rightarrow> bool \<Rightarrow> nat \<Rightarrow> ws_read \<Rightarrow> dev_hub \<Rightarrow> bool \<times> dev_hub" where
  "dev_serve_frame decode now order done_first peer read hub =
     (case read of
        None \<Rightarrow> (False, dev_leave order done_first peer hub)
      | Some (is_text, message) \<Rightarrow>
          if \<not> is_text then (False, dev_leave order done_first peer hub)
          else case parseEnvelope decode message now of
            None \<Rightarrow> (False, dev_leave order done_first peer hub)
          | Some envelope \<Rightarrow>
              if v_SenderKeyID envelope \<noteq> dp_keyID (dh_sockets hub ! peer) then (False, dev_leave order done_first peer hub)
              else (case dev_route done_first peer (v_RecipientKeyID envelope) message hub of (routed, hub) \<Rightarrow>
                if \<not> routed then (False, dev_leave order done_first peer hub) else (True, hub)))"

definition dev_writePump :: "instant \<Rightarrow> bool \<Rightarrow> pump_case \<Rightarrow> nat \<Rightarrow> dev_hub \<Rightarrow> (ws_call list \<times> bool \<times> dev_hub) option" where
  "dev_writePump now written picked peer hub =
     (let returned = (if written then [] else [CloseWebSocket]) in
      case picked of
        Pump_message \<Rightarrow>
          (case dp_send (dh_sockets hub ! peer) of [] \<Rightarrow> None
           | message # later \<Rightarrow>
               Some ([SetWriteDeadline (now + writeTimeout), WriteText message] @ returned, written,
                 dev_on_socket peer (\<lambda>p. p\<lparr>dp_send := later\<rparr>) hub))
      | Pump_tick \<Rightarrow> Some (WritePing (now + writeTimeout) # returned, written, hub)
      | Pump_done \<Rightarrow>
          if \<not> dp_done (dh_sockets hub ! peer) then None
          else Some ([WriteClose CloseNormalClosure (now + writeTimeout), CloseWebSocket], False, hub))"

section \<open>The goroutines run the machine\<close>

lemma reachable_run: "relay_reachable dh de w \<Longrightarrow> (relay_step dh de)\<^sup>*\<^sup>* w w' \<Longrightarrow> relay_reachable dh de w'"
  unfolding relay_reachable_def by (rule rtranclp_trans)

lemma leave_runs:
  assumes order: "\<And>hub. mset (order hub) = mset (hub_peers hub)" and peer: "i < length (sockets (rw_hub w))"
  shows "(relay_step dh de)\<^sup>*\<^sup>* w (snd (leave order i w))"
proof -
  let ?order = "order (fst (unregister_peer [] i (rw_hub w)))"
  let ?left = "launch (unregister_peer ?order i (rw_hub w)) w"
  have same: "fst (unregister_peer ?order i (rw_hub w)) = fst (unregister_peer [] i (rw_hub w))"
    by (simp add: unregister_peer_def Let_def)
  have "relay_step dh de w ?left" by (rule relay_step.left[OF peer]) (simp only: same order)
  moreover have "sockets (rw_hub ?left) = sockets (rw_hub w)" by (simp add: launch_def unregister_peer_def Let_def)
  then have "relay_step dh de ?left (stop_socket i ?left)" by (intro relay_step.stopped) (simp add: peer)
  ultimately show ?thesis by (simp add: leave_def Let_def)
qed

lemma hello_runs:
  assumes order: "\<And>hub. mset (order hub) = mset (hub_peers hub)"
  shows "(relay_step dh de)\<^sup>*\<^sup>* w (snd (serve_hello dh clock order admission read w))"
proof (cases "\<exists>message hello. read = Some (True, message) \<and> admits dh (clock 0) admission message = Some hello")
  case True
  then obtain message hello where read: "read = Some (True, message)" and admitted: "admits dh (clock 0) admission message = Some hello"
    by blast
  let ?n = "length (sockets (rw_hub w))" and ?open = "open_socket admission hello (rw_hub w)"
  let ?order = "order (fst (register_peer [] ?n ?open))"
  have "fst (register_peer ?order ?n ?open) = fst (register_peer [] ?n ?open)" by (simp add: register_peer_def Let_def)
  then have "mset ?order = mset (hub_peers (rw_hub (connect ?order admission hello w)))"
    by (simp only: connect_def launch_def order) (simp add: order)
  then have "relay_step dh de w (connect ?order admission hello w)" by (rule relay_step.connected[OF admitted])
  then have "(relay_step dh de)\<^sup>*\<^sup>* w (connect ?order admission hello w)" by (rule r_into_rtranclp)
  then show ?thesis by (simp add: serve_hello_def read admitted Let_def)
next
  case False
  then show ?thesis by (auto simp: serve_hello_def split: option.split)
qed

lemma frame_runs:
  assumes order: "\<And>hub. mset (order hub) = mset (hub_peers hub)" and peer: "i < length (sockets (rw_hub w))"
  shows "(relay_step dh de)\<^sup>*\<^sup>* w (snd (serve_frame de now order i read w))"
proof (cases "\<exists>message. read = Some (True, message)")
  case True
  then obtain message where read: "read = Some (True, message)" by blast
  obtain routed effects where frame: "relay_frame de now i message (rw_hub w) = (routed, effects)" by (cases "relay_frame de now i message (rw_hub w)") 
  let ?w = "launch (rw_hub w, effects) w"
  have one: "relay_step dh de w ?w" by (rule relay_step.frame[OF peer frame])
  have "(relay_step dh de)\<^sup>*\<^sup>* ?w (snd (leave order i ?w))"
    by (rule leave_runs[OF order]) (simp add: launch_def peer)
  with one show ?thesis
    by (auto simp: serve_frame_def read frame Let_def intro: converse_rtranclp_into_rtranclp)
next
  case False
  then have "serve_frame de now order i read w = leave order i w" by (auto simp: serve_frame_def split: option.split)
  then show ?thesis using leave_runs[OF assms] by simp
qed

lemma pump_runs:
  assumes peer: "i < length (sockets (rw_hub w))" and turn: "writePump now written picked i w = Some (calls, w')"
  shows "(relay_step dh de)\<^sup>*\<^sup>* w w'"
proof -
  have open_pump: "i \<notin> set (rw_ended w)" using turn by (auto simp: writePump_def)
  have one: "relay_step dh de w (deliver i w)" by (rule relay_step.wrote[OF peer open_pump])
  have finish: "relay_step dh de v (finish_pump i v)" if "i < length (sockets (rw_hub v))" for v
    unfolding finish_pump_def by (rule relay_step.ended[OF that])
  have "i < length (sockets (rw_hub (deliver i w)))"
    using peer by (simp add: deliver_def split: list.split)
  from finish[OF this] finish[OF peer] one turn show ?thesis
    by (cases picked) (auto simp: writePump_def Let_def split: if_splits list.splits intro: converse_rtranclp_into_rtranclp)
qed

lemma monitor_runs:
  assumes "i < length (sockets (rw_hub w))"
  shows "(relay_step dh de)\<^sup>*\<^sup>* w (snd (snd (monitorAuthorization handler svc now random i (c, w))))"
  using relay_step.stopped[OF assms] by (auto simp: monitorAuthorization_def Let_def split: prod.split)

text \<open>
  C5: the code of the sockets does nothing the machine does not do.  Every turn of every goroutine of a
  socket, the first message, a later one, a case of the writer and a turn of the periodic check, whatever
  the library answers and in whatever order the hub is walked, is a run of the step relation; so what is
  proved of the machine, who may receive what, holds of the sockets the handler serves.
\<close>

theorem handler_refines_machine:
  assumes "\<And>hub. mset (order hub) = mset (hub_peers hub)" and "i < length (sockets (rw_hub w))" and "relay_reachable dh de w"
  shows "relay_reachable dh de (snd (serve_hello dh clock order admission read w))
    \<and> relay_reachable dh de (snd (serve_frame de now order i read w))
    \<and> (\<forall>calls w'. writePump now written picked i w = Some (calls, w') \<longrightarrow> relay_reachable dh de w')
    \<and> relay_reachable dh de (snd (snd (monitorAuthorization handler svc now random i (c, w))))"
  using reachable_run[OF assms(3) hello_runs[OF assms(1)]] reachable_run[OF assms(3) frame_runs[OF assms(1,2)]]
    reachable_run[OF assms(3) pump_runs[OF assms(2)]] reachable_run[OF assms(3) monitor_runs[OF assms(2)]] by simp

theorem handler_refines_machine_witness:
  "relay_reachable ex_decode_hello (\<lambda>_. Some ex_frame)
     (snd (serve_frame (\<lambda>_. Some ex_frame) unix_epoch hub_peers 0 (Some (True, ''frame'')) ex_relay2))"
  using handler_refines_machine[where order = hub_peers and i = 0, OF refl _ ex_relay_reachable(1)] by (simp add: ex_relay_values)

section \<open>One socket per ticket\<close>

lemma ticket_of_request:
  "serve_request handler svc now upgraded clock request w = ((Awaiting_hello admission, calls), w') \<Longrightarrow>
   \<exists>ticket. relayTicket request = Some ticket \<and> ConsumeRelayTicket svc now ticket w = (Inr admission, w') \<and> upgraded
     \<and> allowOrigin (rh_allowedOrigins handler) request
     \<and> calls = [EnableWriteCompression False, SetReadLimit maxHelloLength, SetReadDeadline (clock 0 + helloTimeout)]"
  by (auto simp: serve_request_def split: if_splits option.splits prod.splits sum.splits)

text \<open>
  C6: a ticket opens one socket.  Once a request has been upgraded, no request that presents the same ticket,
  from whatever place and however much later, is upgraded; it is answered with an error and changes nothing.
  The socket that was opened waits ten seconds for a hello of at most sixteen kilobytes.
\<close>

theorem ticket_opens_one_socket:
  assumes "reachable svc now w"
    and first: "serve_request handler svc now upgraded clock request w = ((Awaiting_hello admission, calls), w1)"
    and later: "conn_runs svc (now, w1) (now', w')" and same: "relayTicket request' = relayTicket request"
  shows "\<exists>reason code. serve_request handler (with_authorizers svc account session) now' upgraded' clock' request' w'
      = ((Turned_away, [Http_error reason code]), w') \<and> code \<in> {401, 403}
    \<and> calls = [EnableWriteCompression False, SetReadLimit (16 * 1024), SetReadDeadline (clock 0 + 10 * second)]"
proof -
  obtain ticket where ticket: "relayTicket request = Some ticket" "ConsumeRelayTicket svc now ticket w = (Inr admission, w1)"
    and calls: "calls = [EnableWriteCompression False, SetReadLimit maxHelloLength, SetReadDeadline (clock 0 + helloTimeout)]"
    using ticket_of_request[OF first] by blast
  have "ConsumeRelayTicket (with_authorizers svc account session) now' ticket w' = (Inl ErrUnauthorized, w')"
    by (rule consumed_ticket_refused[OF assms(1) ticket(2) later])
  then show ?thesis
    using ticket(1) same calls by (simp add: serve_request_def maxHelloLength_def helloTimeout_def)
qed

definition ex_upgrade :: upgrade_request where
  "ex_upgrade = \<lparr> u_Origin = [], u_SecFetchSite = [], u_Subprotocols = [relayWebSocketProtocol, ''ticket.'' @ ex_ticket] \<rparr>"

definition ex_relay_handler :: relay_handler where
  "ex_relay_handler = relay_NewHandler \<lparr> rc_AllowedOrigins = [], rc_DevelopmentEcho = False, rc_RevalidationInterval = 0 \<rparr>"

lemma ex_upgrade_ticket: "relayTicket ex_upgrade = Some ex_ticket"
proof -
  have "ex_ticket \<noteq> []" using ex_ticket_valid by (auto simp: validToken_def HasPrefix_def)
  then show ?thesis
    unfolding relayTicket_def ex_upgrade_def by (simp only: upgrade_request.simps list.case TrimPrefix_append HasPrefix_append Let_def) simp
qed

lemma ex_socket_opened:
  "serve_request ex_relay_handler ex_service 7 True (\<lambda>_. 7) ex_upgrade (ex_world ex_db7 []) =
     ((Awaiting_hello Conn_Example.ex_admission, [EnableWriteCompression False, SetReadLimit maxHelloLength, SetReadDeadline (7 + helloTimeout)]), ex_world ex_db8 [])"
  by (simp add: serve_request_def ex_upgrade_ticket ex_run8) (simp add: allowOrigin_def ex_upgrade_def)

theorem ticket_opens_one_socket_witness:
  "fst (fst (serve_request ex_relay_handler (with_authorizers ex_service (\<lambda>_. None) (\<lambda>_ _. None)) 8 True (\<lambda>_. 8) ex_upgrade (ex_world ex_db8 [])))
     = Turned_away"
proof -
  have later: "conn_runs ex_service (7, ex_world ex_db8 []) (8, ex_world ex_db8 [])" by (rule runs_later) simp_all
  have "reachable ex_service 7 (ex_world ex_db7 [])" by (rule ex_later[OF ex_reachable(8)]) simp_all
  from ticket_opens_one_socket[where account = "\<lambda>_. None" and session = "\<lambda>_ _. None" and upgraded' = True and clock' = "\<lambda>_. 8",
    OF this ex_socket_opened later refl] show ?thesis by auto
qed

end
