(* ===== verification/Server.thy ===== *)
theory Server
  imports Id_Announce Relay_Serve Conn_Http
begin

text \<open>
  How the server wires its services (\<open>SetupServices\<close> in \<open>cmd/server/setup.go\<close>): a session the identity
  service ends and a device or connector the connectors service revokes close the relay sockets they cover.
\<close>

section \<open>The callbacks\<close>

text \<open>
  The closure given as \<open>OnSessionRevoked\<close>; \<open>order\<close> is the order in which the hub's map is walked, which Go
  leaves open.
\<close>

definition session_revocation :: "string \<times> string \<times> bool \<Rightarrow> revocation" where
  "session_revocation = (\<lambda>(userID, sessionID, accountInactive).
     \<lparr> rv_UserID = userID, rv_ConnectorID = [], rv_DeviceID = [],
       rv_SessionID = (if accountInactive then [] else sessionID) \<rparr>)"

definition Disconnect :: "(relay_hub \<Rightarrow> (string \<times> nat) list) \<Rightarrow> revocation \<Rightarrow> relay_hub \<Rightarrow> relay_hub" where
  "Disconnect order revocation hub =
     perform_all (snd (disconnect (order hub) (Covers revocation) hub)) hub"

definition OnSessionRevoked ::
  "(relay_hub \<Rightarrow> (string \<times> nat) list) \<Rightarrow> string \<times> string \<times> bool \<Rightarrow> relay_hub \<Rightarrow> relay_hub" where
  "OnSessionRevoked order announcement = Disconnect order (session_revocation announcement)"

text \<open>
  A request to the identity service, with the callbacks it makes carried out in order: the new entries of
  the log of announcements.
\<close>

record server =
  sv_identity :: id_world
  sv_hub :: relay_hub

definition identity_request ::
  "id_service \<Rightarrow> (relay_hub \<Rightarrow> (string \<times> nat) list) \<Rightarrow> instant \<Rightarrow> instant \<Rightarrow> id_request \<Rightarrow> server \<Rightarrow> id_error option \<times> server" where
  "identity_request svc order now sent req s =
     (case id_handle svc now sent req (sv_identity s) of (answer, w) \<Rightarrow>
        (answer, s\<lparr>sv_identity := w,
           sv_hub := fold (OnSessionRevoked order) (drop (length (iw_revoked (sv_identity s))) (iw_revoked w)) (sv_hub s)\<rparr>))"

section \<open>Disconnecting\<close>

lemma Disconnect_stops:
  "Disconnect order r hub = perform_all (map Stop (filter (\<lambda>i. Covers r (sp_admission (sockets hub ! i))) (map snd (order hub)))) hub"
  by (simp add: Disconnect_def disconnect_def Let_def)

lemma perform_all_static:
  "hub_peers (perform_all (map Stop is) hub) = hub_peers hub \<and> length (sockets (perform_all (map Stop is) hub)) = length (sockets hub)"
  by (induction "is" rule: rev_induct) (simp_all add: perform_all_def)

lemma Disconnect_static:
  "hub_peers (Disconnect order r hub) = hub_peers hub" "length (sockets (Disconnect order r hub)) = length (sockets hub)"
  "i < length (sockets hub) \<Longrightarrow> sp_admission (sockets (Disconnect order r hub) ! i) = sp_admission (sockets hub ! i)"
  unfolding Disconnect_stops by (simp_all add: perform_all_static perform_stops stop_peer_def)

lemma Disconnect_done:
  "i < length (sockets hub) \<Longrightarrow> sp_done (sockets hub ! i) \<Longrightarrow> sp_done (sockets (Disconnect order r hub) ! i)"
  unfolding Disconnect_stops by (simp add: perform_stops stop_peer_def)

lemma Disconnect_covered:
  assumes "i < length (sockets hub)" and "(k, i) \<in> set (hub_peers hub)" and "mset (order hub) = mset (hub_peers hub)"
    and "Covers r (sp_admission (sockets hub ! i))"
  shows "sp_done (sockets (Disconnect order r hub) ! i)"
  using assms mset_eq_setD[OF assms(3)] unfolding Disconnect_stops
  by (force simp: perform_stops stop_peer_def)

lemma revocations_stop:
  assumes "i < length (sockets hub)" and "(k, i) \<in> set (hub_peers hub)" and "\<And>h. mset (order h) = mset (hub_peers h)"
    and "sp_done (sockets hub ! i) \<or> (\<exists>a \<in> set as. Covers (session_revocation a) (sp_admission (sockets hub ! i)))"
  shows "sp_done (sockets (fold (OnSessionRevoked order) as hub) ! i)"
  using assms(1,2,4)
proof (induction as arbitrary: hub)
  case (Cons a as)
  let ?hub = "OnSessionRevoked order a hub"
  have "sp_done (sockets ?hub ! i) \<or> (\<exists>b \<in> set as. Covers (session_revocation b) (sp_admission (sockets ?hub ! i)))"
    using Cons.prems Disconnect_done Disconnect_covered[where order = order, OF Cons.prems(1,2) assms(3)]
    by (auto simp: OnSessionRevoked_def Disconnect_static)
  then show ?case using Cons.IH[of ?hub] Cons.prems by (simp add: OnSessionRevoked_def Disconnect_static)
qed simp

lemma session_covered:
  "(u, s) \<in> announced as \<Longrightarrow> u \<noteq> [] \<Longrightarrow> s \<noteq> [] \<Longrightarrow> ad_UserID a = u \<Longrightarrow> ad_Role a = RelayRoleClient \<Longrightarrow> ad_SessionID a = s \<Longrightarrow>
   \<exists>b \<in> set as. Covers (session_revocation b) a"
  by (force simp: announced_def session_revocation_def Covers_def)

text \<open>A session that a request ended is revoked in every later state of the identity module.\<close>

lemma ended_session_revoked:
  assumes inv: "id_inv (iw_db w)" and inv1: "id_inv (iw_db w1)" and ev: "id_evolves (iw_db w) (iw_db w1)"
    and ended: "(u, i) \<in> live_sessions (iw_db w) - live_sessions (iw_db w1)"
    and later: "id_runs svc (now, w1) (now', w')"
  shows "fst (AuthorizeSession now2 u i w') = Inl IdUnauthorized"
proof -
  obtain q where q: "q \<in> set (sessions (iw_db w))" "s_UserID q = u" "s_ID q = i"
    using ended by (auto simp: live_sessions_def)
  obtain p where p: "p \<in> set (sessions (iw_db w1))" "session_le q p" using evolved_session[OF ev q(1)] by blast
  then have same: "s_ID p = i" "s_UserID p = u" using q(2,3) by (simp_all add: session_le_def)
  then have dead: "s_RevokedAt p \<noteq> None" using ended p(1) by (force simp: live_sessions_def)
  have inv': "id_inv (iw_db w')" using id_runs_good[OF later inv1] by (simp add: id_good_def)
  show ?thesis
    using revoked_never_authenticates(2)[OF inv' revoked_session_final[OF id_runs_evolves[OF later inv1] p(1) dead] dead] same by simp
qed

text \<open>An admission whose session is refused fails its check, and the socket is closed.\<close>

lemma ValidateAdmission_refused:
  assumes "ad_Role a = RelayRoleClient" and "authorizeSession svc (ad_UserID a) (ad_SessionID a) = Some ErrUnauthorized"
    and "authorizeAccount svc (ad_UserID a) \<in> {None, Some ErrUnauthorized}"
  shows "fst (ValidateAdmission svc now a c) = Inl ErrUnauthorized"
proof -
  have "RelayRoleClient \<noteq> RelayRoleConnector" by (simp add: RelayRoleClient_def RelayRoleConnector_def)
  then show ?thesis
    using assms
    by (auto simp: ValidateAdmission_def validate_transaction_def fail_def on_error_def WithinTransaction_def seq_def check_def ret_def
      DeviceByIDForUpdate_def query_def first_row_Inl normalizeAuthorizationError_def split: sum.splits option.splits)
qed

lemma monitor_closes:
  assumes "ad_Role (sp_admission (sockets (rw_hub r) ! p)) = RelayRoleClient" and "p < length (sockets (rw_hub r))"
    and "fst (AuthorizeSession now2 (ad_UserID (sp_admission (sockets (rw_hub r) ! p))) (ad_SessionID (sp_admission (sockets (rw_hub r) ! p))) w)
      = Inl IdUnauthorized"
  shows "fst (monitorAuthorization handler (wired svc now2 w) now2 random p (c, r)) = CloseSocket
    \<and> sp_done (sockets (rw_hub (snd (snd (monitorAuthorization handler (wired svc now2 w) now2 random p (c, r))))) ! p)"
proof -
  let ?a = "sp_admission (sockets (rw_hub r) ! p)" and ?svc = "wired svc now2 w"
  have "authorizeSession ?svc (ad_UserID ?a) (ad_SessionID ?a) = Some ErrUnauthorized"
    using assms(3) by (simp add: wired_def with_authorizers_def authorizer_error_def)
  moreover have "authorizeAccount ?svc (ad_UserID ?a) \<in> {None, Some ErrUnauthorized}"
    by (auto simp: wired_def with_authorizers_def authorizer_error_def AuthorizeAccount_def fail_def on_error_def ActiveAccountByID_def
      seq_def id_query_def first_row_Inl ret_def split: sum.splits)
  ultimately have "fst (ValidateAdmission ?svc now2 ?a c) = Inl ErrUnauthorized"
    by (rule ValidateAdmission_refused[OF assms(1)])
  then obtain c' where "ValidateAdmission ?svc now2 ?a c = (Inl ErrUnauthorized, c')" by (metis prod.collapse)
  then show ?thesis
    using assms(2) by (simp add: monitorAuthorization_def monitor_action_def stop_socket_def on_socket_def stop_peer_def Let_def)
qed

text \<open>
  C7: a session that a request ends takes its relay sockets with it.  Whatever identity request the server
  answers, if a session was live before and is not live after, every socket registered with the relay for
  that session is stopped by the time the request returns, whatever the order in which the hub was walked.
  A socket admitted for the session that the announcement could not see yet, because it registers only
  afterwards, is stopped by the first check of its admission, and so is any other at every later check.
\<close>

theorem ended_session_closes_sockets:
  assumes "id_reachable svc t (sv_identity s)" and "relay_reachable dh de relay" and "sv_hub s = rw_hub relay"
    and "\<And>hub. mset (order hub) = mset (hub_peers hub)"
    and run: "identity_request svc order now sent req s = (answer, s')"
    and "(u, i) \<in> live_sessions (iw_db (sv_identity s)) - live_sessions (iw_db (sv_identity s'))" and "u \<noteq> []" and "i \<noteq> []"
  shows "(\<forall>(k, j) \<in> set (hub_peers (sv_hub s)). ad_Role (sp_admission (sockets (sv_hub s) ! j)) = RelayRoleClient
        \<and> ad_UserID (sp_admission (sockets (sv_hub s) ! j)) = u \<and> ad_SessionID (sp_admission (sockets (sv_hub s) ! j)) = i
        \<longrightarrow> sp_done (sockets (sv_hub s') ! j))
    \<and> (\<forall>now' w' r p handler csvc c random now2. id_runs svc (sent, sv_identity s') (now', w') \<and> p < length (sockets (rw_hub r))
        \<and> ad_Role (sp_admission (sockets (rw_hub r) ! p)) = RelayRoleClient
        \<and> ad_UserID (sp_admission (sockets (rw_hub r) ! p)) = u \<and> ad_SessionID (sp_admission (sockets (rw_hub r) ! p)) = i
        \<longrightarrow> fst (monitorAuthorization handler (wired csvc now2 w') now2 random p (c, r)) = CloseSocket
          \<and> sp_done (sockets (rw_hub (snd (snd (monitorAuthorization handler (wired csvc now2 w') now2 random p (c, r))))) ! p))"
proof (intro conjI)
  let ?w = "sv_identity s" and ?w' = "sv_identity s'"
  have "announces_from ?w ?w'"
    using id_handle_announces[OF id_reachable_inv[OF assms(1)], of svc now sent req] run
    by (auto simp: identity_request_def split: prod.splits)
  then obtain as where as: "iw_revoked ?w' = iw_revoked ?w @ as" and announced: "(u, i) \<in> announced as"
    using assms(6) by (auto simp: announces_from_def)
  have hub: "sv_hub s' = fold (OnSessionRevoked order) as (sv_hub s)"
    using run as by (auto simp: identity_request_def split: prod.splits)
  have ok: "hub_ok (rw_hub relay)" using relay_reachable_inv[OF assms(2)] by (simp add: relay_inv_def)
  have "sp_done (sockets (sv_hub s') ! j)" if "(k, j) \<in> set (hub_peers (sv_hub s))"
    "ad_Role (sp_admission (sockets (sv_hub s) ! j)) = RelayRoleClient"
    "ad_UserID (sp_admission (sockets (sv_hub s) ! j)) = u" "ad_SessionID (sp_admission (sockets (sv_hub s) ! j)) = i" for k j
  proof -
    have "\<exists>b \<in> set as. Covers (session_revocation b) (sp_admission (sockets (sv_hub s) ! j))"
      using session_covered[OF announced assms(7,8) that(3,2,4)] .
    moreover have "j < length (sockets (sv_hub s))" using hub_member(1)[OF ok] assms(3) that(1) by simp
    ultimately show ?thesis unfolding hub using revocations_stop[OF _ that(1) assms(4)] by blast
  qed
  then show "\<forall>(k, j) \<in> set (hub_peers (sv_hub s)). ad_Role (sp_admission (sockets (sv_hub s) ! j)) = RelayRoleClient
        \<and> ad_UserID (sp_admission (sockets (sv_hub s) ! j)) = u \<and> ad_SessionID (sp_admission (sockets (sv_hub s) ! j)) = i
        \<longrightarrow> sp_done (sockets (sv_hub s') ! j)" by blast
  note inv = id_reachable_inv[OF assms(1)]
  have "sv_identity s' = snd (id_handle svc now sent req ?w)" using run by (auto simp: identity_request_def split: prod.splits)
  then have good: "id_inv (iw_db ?w')" "id_evolves (iw_db ?w) (iw_db ?w')"
    using id_handle_leaves[of ?w svc now sent req] inv by (auto simp: id_leaves_def id_good_def id_evolves_refl)
  note refused = ended_session_revoked[OF inv good assms(6)]
  show "\<forall>now' w' r p handler csvc c random now2. id_runs svc (sent, sv_identity s') (now', w') \<and> p < length (sockets (rw_hub r))
        \<and> ad_Role (sp_admission (sockets (rw_hub r) ! p)) = RelayRoleClient
        \<and> ad_UserID (sp_admission (sockets (rw_hub r) ! p)) = u \<and> ad_SessionID (sp_admission (sockets (rw_hub r) ! p)) = i
        \<longrightarrow> fst (monitorAuthorization handler (wired csvc now2 w') now2 random p (c, r)) = CloseSocket
          \<and> sp_done (sockets (rw_hub (snd (snd (monitorAuthorization handler (wired csvc now2 w') now2 random p (c, r))))) ! p)"
    using refused monitor_closes by blast
qed

text \<open>A signed-in browser with a relay socket, signing out.\<close>

definition ex_signed_in :: admission where
  "ex_signed_in = ex_client\<lparr>ad_UserID := ex_id ''usr_'' (CHR ''A''), ad_SessionID := ex_id ''asn_'' (CHR ''B'')\<rparr>"

definition ex_signed_in_id :: string where "ex_signed_in_id = securePeerID (ex_id ''usr_'' (CHR ''A'')) (replicate 43 CHR ''c'')"

definition ex_open_relay :: relay_world where
  "ex_open_relay = connect [(ex_signed_in_id, 0)] ex_signed_in (ex_hello RelayRoleClient CHR ''c'') initial_relay"

definition ex_server :: server where
  "ex_server = \<lparr> sv_identity = ex_id_world ex_id_db3 (CHR ''A'') ex_mails, sv_hub = rw_hub ex_open_relay \<rparr>"

lemma ex_open_values: "hub_peers (rw_hub ex_open_relay) = [(ex_signed_in_id, 0)]"
  "sp_admission (sockets (rw_hub ex_open_relay) ! 0) = ex_signed_in"
  by (simp_all add: ex_open_relay_def ex_relay_defs ex_signed_in_id_def ex_signed_in_def)

lemma ex_open_reachable: "relay_reachable ex_decode_hello (\<lambda>_. None) ex_open_relay"
proof -
  have "admits ex_decode_hello 0 ex_signed_in ''client'' = Some (ex_hello RelayRoleClient CHR ''c'')"
    using ex_admits(1) by (simp add: ex_signed_in_def admits_def helloMatchesAdmission_def cong: option.case_cong)
  then have "relay_step ex_decode_hello (\<lambda>_. None) initial_relay ex_open_relay"
    unfolding ex_open_relay_def
    by (rule relay_step.connected) (use ex_open_values(1) in \<open>simp add: ex_open_relay_def\<close>)
  then show ?thesis unfolding relay_reachable_def by blast
qed

lemma ex_session_live:
  "(ex_id ''usr_'' (CHR ''A''), ex_id ''asn_'' (CHR ''B'')) \<in> live_sessions ex_id_db3 - live_sessions ex_id_db4"
  by (simp add: live_sessions_def ex_id_db3_def ex_id_db4_def image_iff ex_session_def)

theorem ended_session_closes_sockets_witness:
  "\<forall>handler csvc c. case identity_request ex_id_service hub_peers 4 4 (Req_Logout (ex_token ''orr_'' (CHR ''C''))) ex_server of (answer, s') \<Rightarrow>
     sp_done (sockets (sv_hub s') ! 0) \<and>
     fst (monitorAuthorization handler (wired csvc 5 (sv_identity s')) 5 0 0 (c, ex_open_relay)) = CloseSocket"
proof (intro allI)
  fix handler csvc c
  obtain answer s' where run: "identity_request ex_id_service hub_peers 4 4 (Req_Logout (ex_token ''orr_'' (CHR ''C''))) ex_server = (answer, s')"
    by fastforce
  have reach: "id_reachable ex_id_service 3 (sv_identity ex_server)" using ex_id_reachable(4) by (simp add: ex_server_def)
  have db: "iw_db (sv_identity s') = ex_id_db4"
    using run by (auto simp: identity_request_def ex_server_def ex_logout_run id_outcome_def)
  have ended: "(ex_id ''usr_'' (CHR ''A''), ex_id ''asn_'' (CHR ''B'')) \<in>
      live_sessions (iw_db (sv_identity ex_server)) - live_sessions (iw_db (sv_identity s'))"
    unfolding db using ex_session_live by (simp add: ex_server_def ex_id_world_def)
  have hub: "sv_hub ex_server = rw_hub ex_open_relay" by (simp add: ex_server_def)
  have admitted: "ad_Role ex_signed_in = RelayRoleClient" "ad_UserID ex_signed_in = ex_id ''usr_'' (CHR ''A'')"
      "ad_SessionID ex_signed_in = ex_id ''asn_'' (CHR ''B'')"
    by (simp_all add: ex_signed_in_def ex_client_def ex_admission_def)
  have "id_runs ex_id_service (4, sv_identity s') (4, sv_identity s')" by (simp add: id_runs_def)
  moreover have "length (sockets (rw_hub ex_open_relay)) = 1"
    by (simp add: ex_open_relay_def ex_relay_defs)
  ultimately show "case identity_request ex_id_service hub_peers 4 4 (Req_Logout (ex_token ''orr_'' (CHR ''C''))) ex_server of (answer, s') \<Rightarrow>
     sp_done (sockets (sv_hub s') ! 0) \<and>
     fst (monitorAuthorization handler (wired csvc 5 (sv_identity s')) 5 0 0 (c, ex_open_relay)) = CloseSocket"
    using ended_session_closes_sockets[OF reach ex_open_reachable hub refl run ended] run
    by (auto simp: hub ex_open_values admitted ex_id_def)
qed

end
