(* ===== verification/Mail.thy ===== *)
theory Mail
  imports Id_Service Http_Lib Go_Net
begin

text \<open>
  The mailers of the identity module (\<open>internal/identity/smtp_mailer.go\<close>, \<open>mailgun_mailer.go\<close> and
  \<open>logging_mailer.go\<close>).  What the mail host, the network and the library do at each step is a function of
  the commands so far, a parameter; the session is the list of those commands.
\<close>

section \<open>Addresses and settings\<close>

definition TLSModeStartTLS :: string where "TLSModeStartTLS = ''starttls''"
definition TLSModeImplicit :: string where "TLSModeImplicit = ''tls''"
definition TLSModeNone :: string where "TLSModeNone = ''none''"
definition defaultMailTimeout :: duration where "defaultMailTimeout = 10 * second"
definition mailSubjectPrefix :: string where "mailSubjectPrefix = ''Open Remote Code''"

definition CR :: char where "CR = CHR 0x0D"
definition LF :: char where "LF = CHR 0x0A"

definition validMailAddress :: "string \<Rightarrow> bool" where
  "validMailAddress address =
     (if address = [] \<or> length address > maximumEmailLength then False
      else if CR \<in> set address \<or> LF \<in> set address \<or> TrimSpace address \<noteq> address then False
      else count_list address (CHR ''@'') = 1 \<and> \<not> HasPrefix address ''@'' \<and> last address \<noteq> CHR ''@'')"

record smtp_config =
  sc_Host :: string
  sc_Port :: int
  sc_Username :: string
  sc_Password :: string
  sc_FromAddress :: string
  sc_TLSMode :: string
  sc_Timeout :: duration

text \<open>The credentials of \<open>smtp.PlainAuth\<close>, when there are any.\<close>

record smtp_mailer =
  ml_config :: smtp_config
  ml_auth :: "(string \<times> string \<times> string) option"

definition NewSMTPMailer :: "smtp_config \<Rightarrow> smtp_mailer option" where
  "NewSMTPMailer config =
     (if TrimSpace (sc_Host config) = [] then None
      else if sc_Port config \<le> 0 \<or> sc_Port config > 65535 then None
      else if \<not> validMailAddress (sc_FromAddress config) then None
      else if sc_TLSMode config \<notin> {TLSModeStartTLS, TLSModeImplicit, TLSModeNone} then None
      else
        let config = (if sc_Timeout config \<le> 0 then config\<lparr>sc_Timeout := defaultMailTimeout\<rparr> else config) in
        Some \<lparr> ml_config = config,
          ml_auth = (if sc_Username config \<noteq> [] \<or> sc_Password config \<noteq> []
            then Some (sc_Username config, sc_Password config, sc_Host config) else None) \<rparr>)"

section \<open>Messages\<close>

text \<open>\<open>strings.Join\<close>\<close>

fun Join :: "string list \<Rightarrow> string \<Rightarrow> string" where
  "Join [] sep = []"
| "Join [s] sep = s"
| "Join (s # t # r) sep = s @ sep @ Join (t # r) sep"

definition CRLF :: string where "CRLF = [CR, LF]"

text \<open>\<open>date\<close> is \<open>time.Now().UTC().Format(time.RFC1123Z)\<close>.\<close>

definition message_headers :: "smtp_mailer \<Rightarrow> string \<Rightarrow> string \<Rightarrow> string \<Rightarrow> string list" where
  "message_headers mailer date to subject =
     [''From: '' @ sc_FromAddress (ml_config mailer), ''To: '' @ to, ''Subject: '' @ subject, ''Date: '' @ date,
      ''MIME-Version: 1.0'', ''Content-Type: text/plain; charset=utf-8'']"

definition smtp_message :: "smtp_mailer \<Rightarrow> string \<Rightarrow> string \<Rightarrow> string \<Rightarrow> string \<Rightarrow> string" where
  "smtp_message mailer date to subject body =
     Join (message_headers mailer date to subject) CRLF @ CRLF @ CRLF @ body @ CRLF"

definition code_body :: "string \<Rightarrow> string \<Rightarrow> string" where
  "code_body code sep = Join
     [''Enter this code to finish setting up your account:'',
      [],
      ''    '' @ code,
      [],
      ''The code expires in '' @ Itoa (go_div verificationCodeLifetime minute) @ '' minutes.'',
      ''If you did not request it, you can ignore this message.''] sep"

definition notice_body :: "string \<Rightarrow> string" where
  "notice_body sep = Join
     [''Someone tried to create an account with this email address, but one already exists.'',
      [],
      ''If that was you, sign in instead. No new account was created and nothing changed.'',
      ''If it was not you, no action is needed: whoever tried cannot access your account.''] sep"

definition code_subject :: string where "code_subject = mailSubjectPrefix @ '' verification code''"
definition notice_subject :: string where "notice_subject = mailSubjectPrefix @ '' account notice''"

section \<open>The SMTP session\<close>

datatype smtp_command =
    Dial bool string int instant
  | SetDeadline instant
  | NewClient string
  | StartTLS string
  | Auth "string \<times> string \<times> string"
  | MailFrom string
  | RcptTo string
  | Data
  | WriteData string
  | CloseData
  | Quit
  | CloseConnection

text \<open>An error of the session: a reply of the host with its code, or anything else.\<close>

datatype smtp_error = Reply int | Transport

type_synonym mail_host = "smtp_command list \<Rightarrow> smtp_error option"

type_synonym ('e, 'a) mail_op = "(smtp_command list, 'e, 'a) op"

definition call :: "mail_host \<Rightarrow> smtp_command \<Rightarrow> (smtp_error, unit) mail_op" where
  "call host command = (\<lambda>log.
     (case host (log @ [command]) of None \<Rightarrow> Inr () | Some e \<Rightarrow> Inl e, log @ [command]))"

definition classifyRecipientError :: "smtp_error \<Rightarrow> id_error" where
  "classifyRecipientError err = (case err of
     Reply code \<Rightarrow> if code \<ge> 500 \<and> code < 600 then IdMailUndeliverable else IdMailDeliveryFailed
   | Transport \<Rightarrow> IdMailDeliveryFailed)"

text \<open>A step whose failure is transient, and one whose failure also closes what it worked on.\<close>

definition transient :: "(smtp_error, 'a) mail_op \<Rightarrow> (id_error, 'a) mail_op" where
  "transient m = on_error (\<lambda>_. IdMailDeliveryFailed) m"

definition or_close :: "mail_host \<Rightarrow> smtp_command \<Rightarrow> (id_error, 'a) mail_op \<Rightarrow> (id_error, 'a) mail_op" where
  "or_close host closing m = seq (attempt m) (\<lambda>r. case r of
     Inr x \<Rightarrow> ret x | Inl e \<Rightarrow> seq (attempt (transient (call host closing))) (\<lambda>_. fail e))"

text \<open>\<open>defer client.Close()\<close>\<close>

definition deferred :: "mail_host \<Rightarrow> smtp_command \<Rightarrow> (id_error, 'a) mail_op \<Rightarrow> (id_error, 'a) mail_op" where
  "deferred host closing m = seq (attempt m) (\<lambda>r. seq (attempt (transient (call host closing))) (\<lambda>_.
     case r of Inr x \<Rightarrow> ret x | Inl e \<Rightarrow> fail e))"

definition dial :: "mail_host \<Rightarrow> smtp_mailer \<Rightarrow> instant \<Rightarrow> (smtp_error, unit) mail_op" where
  "dial host mailer deadline =
     (let config = ml_config mailer in
      call host (Dial (sc_TLSMode config = TLSModeImplicit) (sc_Host config) (sc_Port config) deadline))"

text \<open>The conversation once the client stands.\<close>

definition conversation :: "mail_host \<Rightarrow> smtp_mailer \<Rightarrow> string \<Rightarrow> string \<Rightarrow> (id_error, unit) mail_op" where
  "conversation host mailer to text =
     (let config = ml_config mailer in
     seq (if sc_TLSMode config = TLSModeStartTLS then transient (call host (StartTLS (sc_Host config))) else ret ()) (\<lambda>_.
     seq (case ml_auth mailer of None \<Rightarrow> ret () | Some auth \<Rightarrow> transient (call host (Auth auth))) (\<lambda>_.
     seq (transient (call host (MailFrom (sc_FromAddress config)))) (\<lambda>_.
     seq (on_error classifyRecipientError (call host (RcptTo to))) (\<lambda>_.
     seq (on_error classifyRecipientError (call host Data)) (\<lambda>_.
     seq (or_close host CloseData (transient (call host (WriteData text)))) (\<lambda>_.
     seq (on_error classifyRecipientError (call host CloseData)) (\<lambda>_.
     transient (call host Quit)))))))))"

definition smtp_send ::
  "mail_host \<Rightarrow> smtp_mailer \<Rightarrow> instant \<Rightarrow> instant option \<Rightarrow> string \<Rightarrow> string \<Rightarrow> string \<Rightarrow> string \<Rightarrow> (id_error, unit) mail_op" where
  "smtp_send host mailer now contextDeadline date to subject body =
     (if \<not> validMailAddress to then fail IdMailUndeliverable
      else
      let deadline = now + sc_Timeout (ml_config mailer);
          deadline = (case contextDeadline of Some d \<Rightarrow> if d < deadline then d else deadline | None \<Rightarrow> deadline) in
      seq (transient (dial host mailer deadline)) (\<lambda>_.
      seq (or_close host CloseConnection (transient (call host (SetDeadline deadline)))) (\<lambda>_.
      seq (or_close host CloseConnection (transient (call host (NewClient (sc_Host (ml_config mailer)))))) (\<lambda>_.
      deferred host CloseConnection (conversation host mailer to (smtp_message mailer date to subject body))))))"

definition SMTP_SendVerificationCode where
  "SMTP_SendVerificationCode host mailer now contextDeadline date to code =
     smtp_send host mailer now contextDeadline date to code_subject (code_body code CRLF)"

definition SMTP_SendRegistrationNotice where
  "SMTP_SendRegistrationNotice host mailer now contextDeadline date to =
     smtp_send host mailer now contextDeadline date to notice_subject (notice_body CRLF)"

section \<open>Mailgun\<close>

record mailgun_config =
  mg_APIKey :: string
  mg_Domain :: string
  mg_FromAddress :: string
  mg_Region :: string
  mg_Timeout :: duration

definition defaultMailgunTimeout :: duration where "defaultMailgunTimeout = 10 * second"

record mailgun_mailer =
  mm_APIKey :: string
  mm_europe :: bool
  mm_domain :: string
  mm_fromAddress :: string
  mm_timeout :: duration

text \<open>\<open>base\<close> tells whether the library takes the European API base, \<open>unicode\<close> is what \<open>strings.ToLower\<close> does beyond ASCII.\<close>

definition NewMailgunMailer :: "(string \<Rightarrow> string) \<Rightarrow> bool \<Rightarrow> mailgun_config \<Rightarrow> mailgun_mailer option" where
  "NewMailgunMailer unicode base config =
     (if TrimSpace (mg_APIKey config) = [] then None
      else
      let domain = TrimSpace (mg_Domain config) in
      if domain = [] then None
      else if \<not> validMailAddress (mg_FromAddress config) then None
      else
      let timeout = (if mg_Timeout config \<le> 0 then defaultMailgunTimeout else mg_Timeout config);
          region = ToLower unicode (TrimSpace (mg_Region config)) in
      if region = [] \<or> region = ''us'' then
        Some \<lparr> mm_APIKey = mg_APIKey config, mm_europe = False, mm_domain = domain,
          mm_fromAddress = mg_FromAddress config, mm_timeout = timeout \<rparr>
      else if region = ''eu'' then
        (if \<not> base then None
         else Some \<lparr> mm_APIKey = mg_APIKey config, mm_europe = True, mm_domain = domain,
          mm_fromAddress = mg_FromAddress config, mm_timeout = timeout \<rparr>)
      else None)"

text \<open>\<open>api\<close> tells whether the library delivered a message: the mailer, recipient, subject and body.\<close>

definition mailgun_send ::
  "(mailgun_mailer \<Rightarrow> string \<Rightarrow> string \<Rightarrow> string \<Rightarrow> bool) \<Rightarrow> mailgun_mailer \<Rightarrow> string \<Rightarrow> string \<Rightarrow> string \<Rightarrow> id_error option" where
  "mailgun_send api mailer to subject body =
     (if \<not> validMailAddress to then Some IdMailUndeliverable
      else if \<not> api mailer to subject body then Some IdMailDeliveryFailed
      else None)"

definition Mailgun_SendVerificationCode where
  "Mailgun_SendVerificationCode api mailer to code = mailgun_send api mailer to code_subject (code_body code [LF])"

definition Mailgun_SendRegistrationNotice where
  "Mailgun_SendRegistrationNotice api mailer to = mailgun_send api mailer to notice_subject (notice_body [LF])"

section \<open>The log\<close>

datatype log_line = Log_code string string | Log_notice string

definition Logging_SendVerificationCode :: "string \<Rightarrow> string \<Rightarrow> log_line list \<Rightarrow> id_error option \<times> log_line list" where
  "Logging_SendVerificationCode to code log = (None, log @ [Log_code to code])"

definition Logging_SendRegistrationNotice :: "string \<Rightarrow> log_line list \<Rightarrow> id_error option \<times> log_line list" where
  "Logging_SendRegistrationNotice to log = (None, log @ [Log_notice to])"

end
