(* ===== verification/Mail_Props.thy ===== *)
theory Mail_Props
  imports Mail
begin

text \<open>
  What a mail session guarantees, whatever the host answers: the header of a message is the six lines the
  program wrote, nothing of account or mail crosses the network before it is encrypted, and an address is
  declared bad only when the host refused it for good.
\<close>

section \<open>Sessions\<close>

text \<open>A relation between the log before and after that every step of an operation keeps.\<close>

definition logs :: "(smtp_command list \<Rightarrow> smtp_command list \<Rightarrow> bool) \<Rightarrow> ('e, 'a) mail_op \<Rightarrow> bool" where
  "logs R m \<longleftrightarrow> (\<forall>log. R log (snd (m log)))"

locale log_order =
  fixes R :: "smtp_command list \<Rightarrow> smtp_command list \<Rightarrow> bool"
  assumes refl: "R log log" and trans: "R a b \<Longrightarrow> R b c \<Longrightarrow> R a c"
begin

lemma basic: "logs R (ret x)" "logs R (fail e)"
  by (simp_all add: logs_def ret_def fail_def refl)

lemma seq:
  assumes "logs R m" and "\<And>x. logs R (f x)" shows "logs R (seq m f)"
  unfolding logs_def
proof
  fix log
  have 1: "R log (snd (m log))" and 2: "\<And>x l. R l (snd (f x l))" using assms by (simp_all add: logs_def)
  show "R log (snd (seq m f log))"
    using 1 2 trans by (cases "m log") (auto simp: seq_def split: sum.splits)
qed

lemma attempt: "logs R m \<Longrightarrow> logs R (attempt m)"
  by (auto simp: logs_def attempt_def split: prod.splits) (metis snd_conv)

lemma on_error: "logs R m \<Longrightarrow> logs R (on_error f m)"
  by (auto simp: logs_def on_error_def split: prod.splits sum.splits) (metis snd_conv)+

lemma transient: "logs R m \<Longrightarrow> logs R (transient m)"
  unfolding transient_def by (rule on_error)

lemma or_close: "logs R m \<Longrightarrow> logs R (call host c) \<Longrightarrow> logs R (or_close host c m)"
  unfolding or_close_def by (intro seq attempt) (auto intro!: seq attempt transient basic split: sum.split)

lemma deferred: "logs R m \<Longrightarrow> logs R (call host c) \<Longrightarrow> logs R (deferred host c m)"
  unfolding deferred_def by (intro seq attempt) (auto intro!: seq attempt transient basic split: sum.split)

lemmas intros = basic seq attempt on_error transient or_close deferred

text \<open>A session is built from calls to the host, and writes one text.\<close>

lemma session:
  assumes "\<And>c. (\<forall>t. c = WriteData t \<longrightarrow> t = text) \<Longrightarrow> logs R (call host c)"
  shows "logs R (conversation host mailer to text)"
proof -
  note calls = intros assms
  have "logs R (transient (call host (Auth a)))" "logs R (transient (call host (StartTLS h)))" for a h
    by (auto intro!: calls)
  then have "logs R (case ml_auth mailer of None \<Rightarrow> ret () | Some auth \<Rightarrow> transient (call host (Auth auth)))"
    "logs R (if sc_TLSMode (ml_config mailer) = TLSModeStartTLS then transient (call host (StartTLS (sc_Host (ml_config mailer)))) else ret ())"
    by (auto intro: basic split: option.split)
  then show ?thesis unfolding conversation_def Let_def by (intro calls) auto
qed

lemma connected:
  assumes "\<And>c. (\<forall>t. c = WriteData t \<longrightarrow> t = text) \<Longrightarrow> logs R (call host c)"
  shows "logs R (seq (or_close host CloseConnection (transient (call host (SetDeadline d)))) (\<lambda>_.
      seq (or_close host CloseConnection (transient (call host (NewClient h)))) (\<lambda>_.
      deferred host CloseConnection (conversation host mailer to text))))"
proof -
  have "logs R (call host c)" if "\<And>t. c \<noteq> WriteData t" for c using that assms by blast
  then show ?thesis using session[OF assms] by (intro intros) simp_all
qed

lemma sending:
  assumes "\<And>c. (\<forall>t. c = WriteData t \<longrightarrow> t = smtp_message mailer date to subject body) \<Longrightarrow> logs R (call host c)"
  shows "logs R (smtp_send host mailer now ctx date to subject body)"
proof -
  have "logs R (dial host mailer d)" for d unfolding dial_def Let_def by (rule assms) simp
  then show ?thesis unfolding smtp_send_def Let_def
    using connected[OF assms] by (cases "validMailAddress to") (simp_all add: basic seq transient)
qed

end

section \<open>The text that is sent\<close>

definition only_writes :: "string \<Rightarrow> smtp_command list \<Rightarrow> smtp_command list \<Rightarrow> bool" where
  "only_writes text a b \<longleftrightarrow> (\<forall>t. WriteData t \<in> set b \<longrightarrow> WriteData t \<in> set a \<or> t = text)"

interpretation written: log_order "only_writes msg" for msg
  by unfold_locales (auto simp: only_writes_def)

lemma call_writes: "(\<forall>t. c = WriteData t \<longrightarrow> t = text) \<Longrightarrow> logs (only_writes text) (call host c)"
  by (auto simp: logs_def call_def only_writes_def)

lemma smtp_send_writes:
  assumes "WriteData t \<in> set (snd (smtp_send host mailer now ctx date to subject body []))"
  shows "validMailAddress to \<and> t = smtp_message mailer date to subject body"
proof -
  have valid: "validMailAddress to"
    using assms by (rule contrapos_pp) (simp add: smtp_send_def fail_def)
  have "logs (only_writes (smtp_message mailer date to subject body)) (smtp_send host mailer now ctx date to subject body)"
    by (rule written.sending[OF call_writes])
  then show ?thesis using valid assms by (auto simp: logs_def only_writes_def dest: spec[of _ "[]"])
qed

lemma CR_neq_LF [simp]: "CR \<noteq> LF" "LF \<noteq> CR"
  by (simp_all add: CR_def LF_def)

lemma split_headers:
  "\<forall>h \<in> set hs. LF \<notin> set h \<Longrightarrow> hs \<noteq> [] \<Longrightarrow>
   Split LF (Join hs CRLF @ CRLF @ rest) = map (\<lambda>h. h @ [CR]) hs @ Split LF rest"
proof (induction hs)
  case (Cons h hs)
  have one: "Split LF (h @ CRLF @ r) = (h @ [CR]) # Split LF r" for r
    using Split_append[of LF "h @ [CR]" r] Split_plain[of LF "h @ [CR]"] Cons.prems(1)
    by (simp add: CRLF_def)
  show ?case
  proof (cases hs)
    case Nil then show ?thesis using one by simp
  next
    case (Cons g gs)
    then have "Join (h # hs) CRLF @ CRLF @ rest = h @ CRLF @ (Join hs CRLF @ CRLF @ rest)" by simp
    then show ?thesis using one Cons.IH Cons.prems \<open>hs = g # gs\<close> by simp
  qed
qed simp

text \<open>
  C39: nobody can write a header.  In every session of a mailer the program could have built, to whatever
  address and whatever the host answers, the lines of the message above the first empty one are the six
  headers of the program, none of which holds a line break; even a reader that takes a bare line feed for
  the end of a line sees no other.
\<close>

theorem no_header_injection:
  assumes "NewSMTPMailer config = Some mailer" and "subject \<in> {code_subject, notice_subject}"
    and "CR \<notin> set date" and "LF \<notin> set date"
    and "WriteData t \<in> set (snd (smtp_send host mailer now ctx date to subject body []))"
  shows "takeWhile (\<lambda>l. l \<noteq> [CR]) (Split LF t) = map (\<lambda>h. h @ [CR]) (message_headers mailer date to subject)
    \<and> (\<Union>h \<in> set (message_headers mailer date to subject). set h) \<inter> {CR, LF} = {}"
proof
  have valid: "validMailAddress to" and t: "t = smtp_message mailer date to subject body"
    using smtp_send_writes[OF assms(5)] by simp_all
  have "validMailAddress (sc_FromAddress (ml_config mailer))"
    using assms(1) by (auto simp: NewSMTPMailer_def Let_def split: if_splits)
  then have clean: "CR \<notin> set h \<and> LF \<notin> set h \<and> h \<noteq> []" if "h \<in> set (message_headers mailer date to subject)" for h
    using that valid assms(2-4)
    by (auto simp: message_headers_def validMailAddress_def code_subject_def notice_subject_def mailSubjectPrefix_def
      CR_def LF_def split: if_splits)
  then show "(\<Union>h \<in> set (message_headers mailer date to subject). set h) \<inter> {CR, LF} = {}" by blast
  have "Split LF (CRLF @ r) = [CR] # Split LF r" for r by (simp add: CRLF_def)
  then have "Split LF t = map (\<lambda>h. h @ [CR]) (message_headers mailer date to subject) @ [CR] # Split LF (body @ CRLF)"
    unfolding t smtp_message_def using clean by (subst split_headers) (auto simp: message_headers_def)
  then show "takeWhile (\<lambda>l. l \<noteq> [CR]) (Split LF t) = map (\<lambda>h. h @ [CR]) (message_headers mailer date to subject)"
    using clean by (simp add: takeWhile_append)
qed

section \<open>Encryption\<close>

text \<open>What tells of an account or its mail, and when the connection carries it encrypted.\<close>

definition sensitive :: "smtp_command \<Rightarrow> bool" where
  "sensitive c \<longleftrightarrow> (case c of Auth _ \<Rightarrow> True | MailFrom _ \<Rightarrow> True | RcptTo _ \<Rightarrow> True | WriteData _ \<Rightarrow> True | _ \<Rightarrow> False)"

definition secured :: "mail_host \<Rightarrow> smtp_command list \<Rightarrow> bool" where
  "secured host log \<longleftrightarrow> (\<exists>before c after. log = before @ c # after \<and> host (before @ [c]) = None \<and>
     (\<exists>h p d. c = Dial True h p d \<or> c = StartTLS h))"

definition confidential :: "mail_host \<Rightarrow> smtp_command list \<Rightarrow> bool" where
  "confidential host log \<longleftrightarrow> (\<forall>before c after. log = before @ c # after \<longrightarrow> sensitive c \<longrightarrow> secured host before)"

lemma secured_append: "secured host log \<Longrightarrow> secured host (log @ later)"
  by (fastforce simp: secured_def)

lemma secured_now: "host (log @ [c]) = None \<Longrightarrow> (\<exists>h p d. c = Dial True h p d \<or> c = StartTLS h) \<Longrightarrow> secured host (log @ [c])"
  unfolding secured_def by blast

lemma snoc_split: "log @ [c] = before @ d # after \<longleftrightarrow> (after = [] \<and> before = log \<and> d = c) \<or> (\<exists>r. after = r @ [c] \<and> log = before @ d # r)"
  by (cases after rule: rev_cases) auto

lemma confidential_append:
  "confidential host (log @ [c]) \<longleftrightarrow> confidential host log \<and> (sensitive c \<longrightarrow> secured host log)"
  unfolding confidential_def snoc_split by blast

definition protects :: "mail_host \<Rightarrow> smtp_command list \<Rightarrow> smtp_command list \<Rightarrow> bool" where
  "protects host a b \<longleftrightarrow> (confidential host a \<and> secured host a \<longrightarrow> confidential host b \<and> secured host b)"

definition reveals_nothing :: "mail_host \<Rightarrow> smtp_command list \<Rightarrow> smtp_command list \<Rightarrow> bool" where
  "reveals_nothing host a b \<longleftrightarrow> (confidential host a \<longrightarrow> confidential host b)"

interpretation protected: log_order "protects host" for host
  by unfold_locales (auto simp: protects_def)

interpretation quiet_log: log_order "reveals_nothing host" for host
  by unfold_locales (auto simp: reveals_nothing_def)

lemma call_protects: "logs (protects host) (call host c)"
  by (auto simp: logs_def call_def protects_def confidential_append secured_append)

lemma call_reveals: "\<not> sensitive c \<Longrightarrow> logs (reveals_nothing host) (call host c)"
  by (auto simp: logs_def call_def reveals_nothing_def confidential_append)

lemma confidential_seq:
  "confidential host (snd (m log)) \<Longrightarrow> (\<And>x l. m log = (Inr x, l) \<Longrightarrow> confidential host (snd (f x l))) \<Longrightarrow>
   confidential host (snd (seq m f log))"
  by (cases "m log") (auto simp: seq_def split: sum.splits)

lemma snd_deferred: "snd (deferred host c m log) = snd (m log) @ [c]"
  by (auto simp: deferred_def seq_def attempt_def ret_def fail_def transient_def on_error_def call_def
    split: prod.split sum.split option.split)

lemma confidential_deferred:
  "confidential host (snd (m log)) \<Longrightarrow> confidential host (snd (deferred host CloseConnection m log))"
  by (simp add: snd_deferred confidential_append sensitive_def)

lemma seq_ret_unit: "seq (ret ()) f = f ()"
  by (simp add: seq_def ret_def)

lemma confidential_conversation:
  assumes "confidential host log" and "sc_TLSMode (ml_config mailer) = TLSModeStartTLS \<or> secured host log"
  shows "confidential host (snd (conversation host mailer to msg log))"
proof (cases "secured host log")
  case True
  have "logs (protects host) (conversation host mailer to msg)" by (rule protected.session[OF call_protects])
  then show ?thesis using True assms(1) by (auto simp: logs_def protects_def)
next
  case False
  with assms(2) have mode: "sc_TLSMode (ml_config mailer) = TLSModeStartTLS" by simp
  define plain where "plain = mailer\<lparr>ml_config := (ml_config mailer)\<lparr>sc_TLSMode := TLSModeNone\<rparr>\<rparr>"
  have split: "conversation host mailer to msg = seq (transient (call host (StartTLS (sc_Host (ml_config mailer)))))
      (\<lambda>_. conversation host plain to msg)"
    by (simp add: conversation_def mode plain_def TLSModeNone_def TLSModeStartTLS_def Let_def seq_ret_unit)
  have rest: "logs (protects host) (conversation host plain to msg)" by (rule protected.session[OF call_protects])
  let ?c = "StartTLS (sc_Host (ml_config mailer))"
  have ok: "confidential host (log @ [?c])" using assms(1) by (simp add: confidential_append sensitive_def)
  show ?thesis unfolding split
  proof (rule confidential_seq)
    show "confidential host (snd (transient (call host ?c) log))"
      using ok by (simp add: transient_def on_error_def call_def split: option.split)
    fix x l assume "transient (call host ?c) log = (Inr x, l)"
    then have l: "l = log @ [?c]" and none: "host (log @ [?c]) = None"
      by (auto simp: transient_def on_error_def call_def split: option.splits)
    have "secured host l" unfolding l using secured_now[of host log ?c] none by blast
    then show "confidential host (snd (conversation host plain to msg l))"
      using rest ok l by (auto simp: logs_def protects_def)
  qed
qed

text \<open>
  C11: no account and no mail in the clear.  Unless the mailer is set to speak plain SMTP, a session sends
  neither the credentials, nor an address, nor a message before the connection was dialled with TLS or the
  upgrade to TLS has succeeded, whatever the host answers.
\<close>

theorem mail_never_in_clear:
  assumes "NewSMTPMailer config = Some mailer" and "sc_TLSMode config \<noteq> TLSModeNone"
  shows "confidential host (snd (smtp_send host mailer now ctx date to subject body []))"
proof -
  let ?mode = "sc_TLSMode (ml_config mailer)"
  have mode: "?mode = TLSModeStartTLS \<or> ?mode = TLSModeImplicit"
    using assms by (auto simp: NewSMTPMailer_def Let_def split: if_splits)
  have start: "confidential host []" by (simp add: confidential_def)
  have quiet: "confidential host (snd (or_close host CloseConnection (transient (call host c)) log))"
    if "\<not> sensitive c" "confidential host log" for c log
    using quiet_log.or_close[OF quiet_log.transient[OF call_reveals[OF that(1)]] call_reveals[of CloseConnection]] that(2)
    by (auto simp: logs_def reveals_nothing_def sensitive_def)
  have dialled: "confidential host (snd (seq (transient (dial host mailer d)) f []))"
    if "\<And>x l. confidential host l \<Longrightarrow> ?mode = TLSModeStartTLS \<or> secured host l \<Longrightarrow> confidential host (snd (f x l))" for d f
  proof (rule confidential_seq)
    let ?c = "Dial (?mode = TLSModeImplicit) (sc_Host (ml_config mailer)) (sc_Port (ml_config mailer)) d"
    have ok: "confidential host [?c]" using confidential_append[of host "[]" ?c] start by (simp add: sensitive_def)
    then show "confidential host (snd (transient (dial host mailer d) []))"
      by (simp add: dial_def Let_def transient_def on_error_def call_def split: option.split)
    fix x l assume "transient (dial host mailer d) [] = (Inr x, l)"
    then have "l = [?c]" "host [?c] = None"
      by (auto simp: dial_def Let_def transient_def on_error_def call_def split: option.splits)
    then show "confidential host (snd (f x l))"
      using that[of l x] ok mode secured_now[of host "[]" ?c] by auto
  qed
  have rest: "confidential host (snd (seq (or_close host CloseConnection (transient (call host (SetDeadline d)))) (\<lambda>_.
      seq (or_close host CloseConnection (transient (call host (NewClient h)))) (\<lambda>_.
      deferred host CloseConnection (conversation host mailer to msg))) log))"
    if ok: "confidential host log" and "?mode = TLSModeStartTLS \<or> secured host log" for d h msg log
  proof (cases "?mode = TLSModeStartTLS")
    case True
    show ?thesis
    proof (intro confidential_seq confidential_deferred confidential_conversation)
      show "confidential host (snd (or_close host CloseConnection (transient (call host (SetDeadline d))) log))"
        using quiet ok by (simp add: sensitive_def)
      fix x l assume "or_close host CloseConnection (transient (call host (SetDeadline d))) log = (Inr x, l)"
      then have l: "confidential host l" using quiet[of "SetDeadline d" log] ok by (simp add: sensitive_def)
      then show "confidential host (snd (or_close host CloseConnection (transient (call host (NewClient h))) l))"
        using quiet by (simp add: sensitive_def)
      fix y l' assume "or_close host CloseConnection (transient (call host (NewClient h))) l = (Inr y, l')"
      then show "confidential host l'" using quiet[of "NewClient h" l] l by (simp add: sensitive_def)
    qed (use True in simp)
  next
    case False
    have "logs (protects host) (seq (or_close host CloseConnection (transient (call host (SetDeadline d)))) (\<lambda>_.
      seq (or_close host CloseConnection (transient (call host (NewClient h)))) (\<lambda>_.
      deferred host CloseConnection (conversation host mailer to msg))))"
      by (rule protected.connected) (rule call_protects)
    then show ?thesis using that False by (auto simp: logs_def protects_def)
  qed
  show ?thesis
  proof (cases "validMailAddress to")
    case True then show ?thesis unfolding smtp_send_def Let_def by (simp add: dialled rest)
  qed (simp add: smtp_send_def fail_def start)
qed

section \<open>Bounces\<close>

definition refused :: "mail_host \<Rightarrow> smtp_command list \<Rightarrow> bool" where
  "refused host log \<longleftrightarrow> (\<exists>before c after code. log = before @ c # after \<and> host (before @ [c]) = Some (Reply code) \<and>
     500 \<le> code \<and> code < 600 \<and> ((\<exists>to. c = RcptTo to) \<or> c = Data \<or> c = CloseData))"

definition bounces_when_refused :: "mail_host \<Rightarrow> (id_error, 'a) mail_op \<Rightarrow> bool" where
  "bounces_when_refused host m \<longleftrightarrow> (\<forall>log e l. m log = (Inl e, l) \<longrightarrow>
     e = IdMailDeliveryFailed \<or> e = IdMailUndeliverable \<and> refused host l)"

named_theorems bounces

lemma refused_append: "refused host log \<Longrightarrow> refused host (log @ later)"
  by (fastforce simp: refused_def)

lemma bounces_ret [bounces]: "bounces_when_refused host (ret x)"
  by (simp add: bounces_when_refused_def ret_def)

lemma bounces_seq [bounces]:
  "bounces_when_refused host m \<Longrightarrow> (\<And>x. bounces_when_refused host (f x)) \<Longrightarrow> bounces_when_refused host (seq m f)"
  unfolding bounces_when_refused_def seq_def by (auto split: prod.splits sum.splits)

lemma bounces_transient [bounces]: "bounces_when_refused host (transient m)"
  by (simp add: bounces_when_refused_def transient_def on_error_def split: prod.split sum.split)

lemma bounces_or_close [bounces]: "bounces_when_refused host (or_close host c (transient m))"
  by (auto simp: bounces_when_refused_def or_close_def seq_def attempt_def ret_def fail_def transient_def on_error_def
    split: prod.splits sum.splits)

lemma bounces_deferred [bounces]:
  assumes "bounces_when_refused host m" shows "bounces_when_refused host (deferred host c m)"
proof -
  have "e = IdMailDeliveryFailed \<or> e = IdMailUndeliverable \<and> refused host l" if "deferred host c m log = (Inl e, l)" for log e l
  proof -
    have "fst (m log) = Inl e"
      using that by (auto simp: deferred_def seq_def attempt_def ret_def fail_def split: prod.splits sum.splits)
    then have "e = IdMailDeliveryFailed \<or> e = IdMailUndeliverable \<and> refused host (snd (m log))"
      using assms unfolding bounces_when_refused_def by (metis prod.collapse)
    then show ?thesis using snd_deferred[of host c m log] that refused_append by auto
  qed
  then show ?thesis by (simp add: bounces_when_refused_def)
qed

lemma bounces_classified [bounces]:
  assumes "(\<exists>to. c = RcptTo to) \<or> c = Data \<or> c = CloseData"
  shows "bounces_when_refused host (on_error classifyRecipientError (call host c))"
proof -
  have "refused host (log @ [c])" if "host (log @ [c]) = Some (Reply code)" "500 \<le> code" "code < 600" for log code
    unfolding refused_def using that assms by blast
  then show ?thesis
    by (auto simp: bounces_when_refused_def on_error_def call_def classifyRecipientError_def
      split: option.splits smtp_error.splits if_splits)
qed

lemma bounces_conversation: "bounces_when_refused host (conversation host mailer to msg)"
  unfolding conversation_def Let_def by (auto intro!: bounces split: option.split)

text \<open>
  an address is declared undeliverable only when it could not be an address at all, or when the host
  refused the recipient or the message with a permanent reply; what else goes wrong with a session, at
  whatever step, is reported as a failure of delivery that says nothing about the recipient.
\<close>

theorem bounced_only_when_refused:
  assumes "smtp_send host mailer now ctx date to subject body [] = (Inl e, log)"
  shows "e = IdMailDeliveryFailed \<or> e = IdMailUndeliverable \<and> (\<not> validMailAddress to \<or> refused host log)"
proof (cases "validMailAddress to")
  case True
  have "bounces_when_refused host (smtp_send host mailer now ctx date to subject body)"
    unfolding smtp_send_def Let_def by (simp add: True bounces bounces_conversation)
  then show ?thesis using assms by (auto simp: bounces_when_refused_def)
qed (use assms in \<open>simp add: smtp_send_def fail_def\<close>)

section \<open>A session\<close>

definition ex_smtp :: smtp_config where
  "ex_smtp = \<lparr> sc_Host = ''mail.example'', sc_Port = 587, sc_Username = ''u'', sc_Password = ''p'',
     sc_FromAddress = ''no-reply@b.example'', sc_TLSMode = TLSModeStartTLS, sc_Timeout = 0 \<rparr>"

definition ex_mailer :: smtp_mailer where
  "ex_mailer = \<lparr> ml_config = ex_smtp\<lparr>sc_Timeout := defaultMailTimeout\<rparr>, ml_auth = Some (''u'', ''p'', ''mail.example'') \<rparr>"

lemma ex_address:
  "validMailAddress ''no-reply@b.example''" "validMailAddress ''ann@b.example''"
proof -
  have "validMailAddress s"
    if "\<forall>c \<in> set s. byte_nat c < 128 \<and> \<not> ascii_space (byte_nat c)" "s \<noteq> []" "length s \<le> 254"
      "CR \<notin> set s" "LF \<notin> set s" "count_list s (CHR ''@'') = 1" "hd s \<noteq> CHR ''@''" "last s \<noteq> CHR ''@''" for s
    using that TrimSpace_plain[OF that(1)]
    by (cases s) (auto simp: validMailAddress_def maximumEmailLength_def HasPrefix_def)
  then show "validMailAddress ''no-reply@b.example''" "validMailAddress ''ann@b.example''"
    by (simp_all add: CR_def LF_def byte_nat_def ascii_space_def)
qed

lemma ex_new_mailer: "NewSMTPMailer ex_smtp = Some ex_mailer"
proof -
  have "TrimSpace ''mail.example'' = ''mail.example''"
    by (rule TrimSpace_plain) (simp add: byte_nat_def ascii_space_def)
  then show ?thesis
    by (simp add: NewSMTPMailer_def ex_smtp_def ex_mailer_def ex_address TLSModeStartTLS_def)
qed

definition ex_date :: string where "ex_date = ''Thu, 01 Jan 1970 00:00:00 +0000''"

abbreviation ex_sends :: "mail_host \<Rightarrow> (id_error, unit) mail_op" where
  "ex_sends host \<equiv> smtp_send host ex_mailer 0 (Some 5) ex_date ''ann@b.example'' code_subject (code_body ''123456'' CRLF)"

lemmas ex_session_defs = smtp_send_def ex_address dial_def conversation_def transient_def or_close_def deferred_def seq_def
  attempt_def on_error_def ret_def fail_def call_def Let_def ex_mailer_def ex_smtp_def TLSModeStartTLS_def TLSModeImplicit_def
  defaultMailTimeout_def second_def

lemma ex_mail_sent:
  "WriteData (smtp_message ex_mailer ex_date ''ann@b.example'' code_subject (code_body ''123456'' CRLF)) \<in>
     set (snd (ex_sends (\<lambda>_. None) []))"
  by (simp add: ex_session_defs)

lemma ex_mail_refused:
  "fst (ex_sends (\<lambda>log. if last log = RcptTo ''ann@b.example'' then Some (Reply 550) else None) []) = Inl IdMailUndeliverable"
  by (simp add: ex_session_defs classifyRecipientError_def)

theorem no_header_injection_witness:
  "takeWhile (\<lambda>l. l \<noteq> [CR]) (Split LF (smtp_message ex_mailer ex_date ''ann@b.example'' code_subject (code_body ''123456'' CRLF)))
     = map (\<lambda>h. h @ [CR]) (message_headers ex_mailer ex_date ''ann@b.example'' code_subject)"
proof -
  have "CR \<notin> set ex_date" "LF \<notin> set ex_date" by (simp_all add: ex_date_def CR_def LF_def)
  from no_header_injection[OF ex_new_mailer _ this ex_mail_sent] show ?thesis by simp
qed

theorem mail_never_in_clear_witness: "confidential (\<lambda>_. None) (snd (ex_sends (\<lambda>_. None) []))"
  by (rule mail_never_in_clear[OF ex_new_mailer]) (simp add: ex_smtp_def TLSModeNone_def TLSModeStartTLS_def)

theorem bounced_only_when_refused_witness:
  "refused (\<lambda>log. if last log = RcptTo ''ann@b.example'' then Some (Reply 550) else None)
     (snd (ex_sends (\<lambda>log. if last log = RcptTo ''ann@b.example'' then Some (Reply 550) else None) []))"
  (is "refused ?host (snd ?r)")
proof -
  have "?r = (Inl IdMailUndeliverable, snd ?r)" using ex_mail_refused by (metis prod.collapse)
  from bounced_only_when_refused[OF this] ex_address(2) show ?thesis by simp
qed

end
