(* ===== verification/Google_Verifier.thy ===== *)
theory Google_Verifier
  imports Id_Linking
begin

text \<open>
  Verifying a Google ID token (\<open>internal/identity/googleid/verifier.go\<close>).  The library that checks signature,
  audience and expiry is a parameter: the payload it returns for a token and an audience, or nothing.
\<close>

datatype claim = Claim_string string | Claim_bool bool | Claim_other

record id_payload =
  pl_Issuer :: string
  pl_Subject :: string
  pl_Claims :: "string \<rightharpoonup> claim"

type_synonym id_validator = "string \<Rightarrow> string \<Rightarrow> id_payload option"

record google_verifier =
  gv_validator :: id_validator
  gv_audiences :: "string list"

definition maximumIDTokenLength :: nat where "maximumIDTokenLength = 4096"
definition google_maximumEmailLength :: nat where "google_maximumEmailLength = 254"
definition maximumSubjectLength :: nat where "maximumSubjectLength = 255"

definition permittedIssuers :: "string list" where
  "permittedIssuers = [''accounts.google.com'', ''https://accounts.google.com'']"

definition permittedIssuer :: "string \<Rightarrow> bool" where
  "permittedIssuer issuer = list_ex (\<lambda>permitted. issuer = permitted) permittedIssuers"

definition normalizeAudiences :: "string list \<Rightarrow> string list option" where
  "normalizeAudiences audiences =
     (let cleaned = filter (\<lambda>audience. audience \<noteq> []) (map TrimSpace audiences) in
      if cleaned = [] then None else Some cleaned)"

text \<open>\<open>library\<close> is what \<open>idtoken.NewValidator\<close> returns.\<close>

definition NewVerifier :: "id_validator option \<Rightarrow> string list \<Rightarrow> google_verifier option" where
  "NewVerifier library audiences =
     (case normalizeAudiences audiences of None \<Rightarrow> None | Some cleaned \<Rightarrow>
      case library of None \<Rightarrow> None | Some validator \<Rightarrow>
      Some \<lparr> gv_validator = validator, gv_audiences = cleaned \<rparr>)"

text \<open>The loop over the audiences: the first that validates ends it.\<close>

fun first_payload :: "id_validator \<Rightarrow> string \<Rightarrow> string list \<Rightarrow> id_payload option" where
  "first_payload validator rawIDToken [] = None"
| "first_payload validator rawIDToken (audience # audiences) =
     (case validator rawIDToken audience of
        Some payload \<Rightarrow> Some payload
      | None \<Rightarrow> first_payload validator rawIDToken audiences)"

definition string_claim :: "claim option \<Rightarrow> string" where
  "string_claim c = (case c of Some (Claim_string s) \<Rightarrow> s | _ \<Rightarrow> [])"

definition bool_claim :: "claim option \<Rightarrow> bool" where
  "bool_claim c = (case c of Some (Claim_bool b) \<Rightarrow> b | _ \<Rightarrow> False)"

definition google_Verify :: "google_verifier \<Rightarrow> string \<Rightarrow> id_error + google_identity" where
  "google_Verify verifier rawIDToken =
     (if rawIDToken = [] \<or> length rawIDToken > maximumIDTokenLength then Inl IdInvalidGoogleToken
      else case first_payload (gv_validator verifier) rawIDToken (gv_audiences verifier) of
        None \<Rightarrow> Inl IdInvalidGoogleToken
      | Some payload \<Rightarrow>
          if \<not> permittedIssuer (pl_Issuer payload) then Inl IdInvalidGoogleToken
          else if pl_Subject payload = [] \<or> length (pl_Subject payload) > maximumSubjectLength then Inl IdInvalidGoogleToken
          else
          let email = TrimSpace (string_claim (pl_Claims payload ''email'')) in
          if email = [] \<or> length email > google_maximumEmailLength then Inl IdInvalidGoogleToken
          else if \<not> bool_claim (pl_Claims payload ''email_verified'') then Inl IdInvalidGoogleToken
          else Inr \<lparr> g_Subject = pl_Subject payload, g_Email = email, g_EmailVerified = True \<rparr>)"

section \<open>What an accepted token proves\<close>

lemma first_payload_Some:
  "first_payload validator token audiences = Some p \<Longrightarrow> \<exists>a \<in> set audiences. validator token a = Some p"
  by (induction audiences) (auto split: option.splits)

lemma normalizeAudiences_nonempty:
  "normalizeAudiences audiences = Some cleaned \<Longrightarrow> cleaned \<noteq> [] \<and> (\<forall>a \<in> set cleaned. a \<noteq> [] \<and> a \<in> TrimSpace ` set audiences)"
  by (auto simp: normalizeAudiences_def Let_def split: if_splits)

text \<open>
  The identity the library's answer supports: one payload, validated for one configured client id, issued by
  Google to a subject whose address Google has verified.
\<close>

definition vouched :: "id_validator \<Rightarrow> string list \<Rightarrow> string \<Rightarrow> google_identity \<Rightarrow> bool" where
  "vouched validator audiences token g \<longleftrightarrow> (\<exists>audience payload. audience \<in> TrimSpace ` set audiences \<and> audience \<noteq> [] \<and>
     validator token audience = Some payload \<and> permittedIssuer (pl_Issuer payload) \<and>
     pl_Claims payload ''email_verified'' = Some (Claim_bool True) \<and>
     g_Subject g = pl_Subject payload \<and> g_Subject g \<noteq> [] \<and> length (g_Subject g) \<le> 255 \<and>
     pl_Claims payload ''email'' \<noteq> None \<and> g_Email g = TrimSpace (string_claim (pl_Claims payload ''email'')))"

lemma google_Verify_vouched:
  assumes "NewVerifier library audiences = Some verifier" and "google_Verify verifier token = Inr g"
  shows "\<exists>validator. library = Some validator \<and> vouched validator audiences token g \<and> length token \<le> 4096"
proof -
  obtain cleaned validator where norm: "normalizeAudiences audiences = Some cleaned" and lib: "library = Some validator"
    and v: "verifier = \<lparr> gv_validator = validator, gv_audiences = cleaned \<rparr>"
    using assms(1) by (auto simp: NewVerifier_def split: option.splits)
  obtain payload where p: "first_payload validator token cleaned = Some payload"
    using assms(2) v by (auto simp: google_Verify_def split: if_splits option.splits)
  then obtain a where a: "a \<in> set cleaned" "validator token a = Some payload" using first_payload_Some by blast
  have "pl_Claims payload ''email_verified'' = Some (Claim_bool True)" "permittedIssuer (pl_Issuer payload)"
    "g_Subject g = pl_Subject payload \<and> g_Subject g \<noteq> [] \<and> length (g_Subject g) \<le> 255"
    "pl_Claims payload ''email'' \<noteq> None \<and> g_Email g = TrimSpace (string_claim (pl_Claims payload ''email''))" "length token \<le> 4096"
    using assms(2) p v
    by (auto simp: google_Verify_def Let_def bool_claim_def string_claim_def maximumSubjectLength_def maximumIDTokenLength_def TrimSpace_def
      split: if_splits option.splits claim.splits)
  then have "vouched validator audiences token g"
    unfolding vouched_def using normalizeAudiences_nonempty[OF norm] a by (intro exI[of _ a] exI[of _ payload]) auto
  then show ?thesis using lib \<open>length token \<le> 4096\<close> by blast
qed

section \<open>The account it signs in to\<close>

lemma startGoogleSession_federated:
  assumes "startGoogleSession svc account name now ev w = (Inr c, w')"
  shows "federated_identities (iw_db w') = federated_identities (iw_db w) \<and> cd_Account c = account"
proof -
  from assms obtain m w1 where m: "newSessionMaterial svc account name now w = (Inr m, w1)"
    and rest: "federated_identities (iw_db w') = federated_identities (iw_db w1)"
    by (auto simp: startGoogleSession_def persistSessionMaterial_def CreateSession_def CreateRefreshCredential_def
      IdAppendAuditEvent_def runs)
  then show ?thesis
    using untouchedD[OF untouched_values(5) m] startGoogleSession_account[OF assms] by simp
qed

definition google_linked :: "id_db \<Rightarrow> string \<Rightarrow> string \<Rightarrow> bool" where
  "google_linked db subject userID \<longleftrightarrow> (\<exists>f \<in> set (federated_identities db). fi_Provider f = ProviderGoogle \<and>
     fi_Subject f = subject \<and> fi_UserID f = userID)"

lemma google_link_linked:
  assumes "google_link svc account subject email name now w = (Inr (Google_SignedIn c), w')"
  shows "google_linked (iw_db w') subject (ac_ID (cd_Account c))"
proof -
  from assms obtain w1 where
    create: "CreateFederatedIdentity \<lparr> fi_Provider = ProviderGoogle, fi_Subject = subject, fi_UserID = ac_ID account,
       fi_Email = email, fi_CreatedAt = now, fi_LastAuthenticatedAt = now \<rparr> w = (Inr (), w1)"
    and start: "startGoogleSession svc account name now ''auth.google_identity_linked'' w1 = (Inr c, w')"
    unfolding google_link_def FederatedIdentityByUserForUpdate_def by (auto simp: runs googleRefusal_def)
  have "google_linked (iw_db w1) subject (ac_ID account)"
    using create by (auto simp: CreateFederatedIdentity_def runs create_row_Inr google_linked_def)
  then show ?thesis using startGoogleSession_federated[OF start] by (simp add: google_linked_def)
qed

lemma google_transaction_linked:
  assumes "google_transaction svc subject email n name now w = (Inr (Google_SignedIn c), w')"
  shows "google_linked (iw_db w') subject (ac_ID (cd_Account c))"
proof -
  have id: "ac_ID (user_account v) = ac_ID v" for v by (simp add: user_account_def account.defs)
  from assms consider (again) link :: federated_identity where "link \<in> set (federated_identities (iw_db w))"
      "fi_Provider link = ProviderGoogle" "fi_Subject link = subject" "googleReturningUser svc link email name now w = (Inr c, w')"
    | (old) v :: user where "googleLinkExisting svc v subject email name now w = (Inr (Google_SignedIn c), w')"
    | (fresh) "googleNewAccount svc subject email n name now w = (Inr c, w')"
    unfolding google_transaction_def FederatedIdentityForUpdate_def UserByNormalizedEmailForUpdate_def
    by (auto simp: runs split: sum.splits if_splits dest!: first_rowD)
  then show ?thesis
  proof cases
    case (again link)
    then obtain v w1 where v: "ac_ID v = fi_UserID link"
      and touch: "TouchFederatedIdentity ProviderGoogle (fi_Subject link) email now w = (Inr (), w1)"
      and start: "startGoogleSession svc (user_account v) name now ''auth.google_signin_succeeded'' w1 = (Inr c, w')"
      by (auto simp: googleReturningUser_def UserByID_def runs dest!: first_rowD)
    have "google_linked (iw_db w1) subject (fi_UserID link)"
    proof -
      have rows: "federated_identities (iw_db w1) = map (\<lambda>f. if fi_Provider f = ProviderGoogle \<and> fi_Subject f = subject
          then f\<lparr>fi_Email := email, fi_LastAuthenticatedAt := now\<rparr> else f) (federated_identities (iw_db w))"
        using touch again(3) by (auto simp: TouchFederatedIdentity_def runs one_row_Inr Let_def dest!: update_rowsD)
      have "link\<lparr>fi_Email := email, fi_LastAuthenticatedAt := now\<rparr> \<in> set (federated_identities (iw_db w1))"
        unfolding rows using again(1-3) by (auto intro!: rev_image_eqI[of link])
      then show ?thesis unfolding google_linked_def
        by (rule rev_bexI) (use again(2,3) in simp)
    qed
    then show ?thesis using startGoogleSession_federated[OF start] v by (simp add: google_linked_def id)
  next
    case (old v)
    then show ?thesis
      by (auto simp: googleLinkExisting_def Let_def runs googleRefusal_def dest: google_link_linked)
  next
    case fresh
    then obtain i w1 w2 where
      create: "CreateFederatedIdentity \<lparr> fi_Provider = ProviderGoogle, fi_Subject = subject, fi_UserID = i,
         fi_Email = email, fi_CreatedAt = now, fi_LastAuthenticatedAt = now \<rparr> w1 = (Inr (), w2)"
      and start: "startGoogleSession svc \<lparr> ac_ID = i, ac_Email = email, ac_Status = AccountStatusActive,
         ac_EmailVerifiedAt = Some now, ac_EmailBouncedAt = None, ac_CreatedAt = now \<rparr> name now
         ''auth.google_account_created'' w2 = (Inr c, w')"
      unfolding googleNewAccount_def Let_def by (auto simp: runs)
    have "google_linked (iw_db w2) subject i"
      using create by (auto simp: CreateFederatedIdentity_def runs create_row_Inr google_linked_def)
    then show ?thesis using startGoogleSession_federated[OF start] by (simp add: google_linked_def)
  qed
qed

text \<open>
  C10: a Google sign-in stands on a token the library validated for one of the configured client ids.  When
  the server signs somebody in, the token was no longer than 4096 bytes and validated for a client id that
  is not empty, it was issued by Google to a subject whose address Google calls verified, and the account
  signed in to is the one linked to that subject.
\<close>

theorem google_sign_in_vouched:
  assumes "NewVerifier library audiences = Some verifier" and "id_google_verifier svc = Some (google_Verify verifier)"
    and run: "AuthenticateWithGoogle svc clock input w = Some (Inr c, w')"
  shows "\<exists>validator g. library = Some validator \<and> vouched validator audiences (gi_IDToken input) g
    \<and> length (gi_IDToken input) \<le> 4096 \<and> google_linked (iw_db w') (g_Subject g) (ac_ID (cd_Account c))"
proof -
  obtain verify and g :: google_identity and email n name now w0 where verify: "id_google_verifier svc = Some verify" "verify (gi_IDToken input) = Inr g"
    and tx: "google_transaction svc (g_Subject g) email n name now w0 = (Inr (Google_SignedIn c), w')"
    using AuthenticateWithGoogle_transaction[OF run] by blast
  have "google_Verify verifier (gi_IDToken input) = Inr g" using verify assms(2) by simp
  from google_Verify_vouched[OF assms(1) this] google_transaction_linked[OF tx] show ?thesis by blast
qed

text \<open>A token that validates for the second of two client ids.\<close>

definition ex_payload :: id_payload where
  "ex_payload = \<lparr> pl_Issuer = ''https://accounts.google.com'', pl_Subject = ''subject'',
     pl_Claims = [''email'' \<mapsto> Claim_string ''ann@x.org'', ''email_verified'' \<mapsto> Claim_bool True] \<rparr>"

definition ex_validator :: id_validator where
  "ex_validator token audience = (if token = ''jwt'' \<and> audience = ''web'' then Some ex_payload else None)"

definition ex_verifier :: google_verifier where
  "ex_verifier = \<lparr> gv_validator = ex_validator, gv_audiences = [''ios'', ''web''] \<rparr>"

definition ex_google_service :: id_service where
  "ex_google_service = ex_google\<lparr>id_google_verifier := Some (google_Verify ex_verifier)\<rparr>"

lemma ex_trims: "TrimSpace ''ann@x.org'' = ''ann@x.org''" "TrimSpace ''ios'' = ''ios''" "TrimSpace ''web'' = ''web''" "TrimSpace [] = []"
  by (rule TrimSpace_plain, simp add: byte_nat_def ascii_space_def)+

lemma ex_padded [simp]: "TrimSpace '' ios'' = ''ios''"
  by code_simp

lemma ex_verified: "google_Verify ex_verifier ''jwt'' = Inr \<lparr> g_Subject = ''subject'', g_Email = ''ann@x.org'', g_EmailVerified = True \<rparr>"
  by (simp add: google_Verify_def ex_verifier_def ex_validator_def ex_payload_def maximumIDTokenLength_def maximumSubjectLength_def
    google_maximumEmailLength_def permittedIssuer_def permittedIssuers_def string_claim_def bool_claim_def ex_trims Let_def)

lemma ex_google_service_run:
  "\<exists>w'. AuthenticateWithGoogle ex_google_service (\<lambda>_. 2) \<lparr> gi_IDToken = ''jwt'', gi_ClientName = ''web'' \<rparr>
     (ex_id_world ex_id_db1 (CHR ''B'') []) = Some (Inr (ex_credentials (CHR ''B'') 2), w')"
proof -
  have material: "newSessionMaterial ex_google_service = newSessionMaterial ex_google"
    by (simp add: fun_eq_iff newSessionMaterial_def hashToken_def ex_google_service_def Let_def)
  have start: "startGoogleSession ex_google_service = startGoogleSession ex_google"
    by (simp add: fun_eq_iff startGoogleSession_def material)
  have tx: "google_transaction ex_google_service = google_transaction ex_google"
    by (simp add: fun_eq_iff google_transaction_def googleReturningUser_def googleLinkExisting_def google_link_def
      googleNewAccount_def start cong: if_cong sum.case_cong)
  have "normalizeEmail ex_google_service = normalizeEmail ex_id_service" "id_google_verifier ex_google_service = Some (google_Verify ex_verifier)"
    by (simp_all add: fun_eq_iff normalizeEmail_def ex_google_service_def ex_google_def Let_def)
  then show ?thesis
    using ex_google_tx
    by (auto simp: AuthenticateWithGoogle_def google_loop_rounds google_answer_def googleSignIn_def IdWithinTransaction_def
      tx ex_verified ex_inputs)
qed

theorem google_sign_in_vouched_witness:
  "\<exists>w'. AuthenticateWithGoogle ex_google_service (\<lambda>_. 2) \<lparr> gi_IDToken = ''jwt'', gi_ClientName = ''web'' \<rparr>
     (ex_id_world ex_id_db1 (CHR ''B'') []) = Some (Inr (ex_credentials (CHR ''B'') 2), w')
   \<and> (\<exists>g. vouched ex_validator ['' ios'', [], ''web''] ''jwt'' g)"
proof -
  obtain w' where run: "AuthenticateWithGoogle ex_google_service (\<lambda>_. 2) \<lparr> gi_IDToken = ''jwt'', gi_ClientName = ''web'' \<rparr>
     (ex_id_world ex_id_db1 (CHR ''B'') []) = Some (Inr (ex_credentials (CHR ''B'') 2), w')"
    using ex_google_service_run by blast
  have "NewVerifier (Some ex_validator) ['' ios'', [], ''web''] = Some ex_verifier"
    by (simp add: NewVerifier_def normalizeAudiences_def ex_verifier_def ex_trims)
  from google_sign_in_vouched[OF this _ run] run show ?thesis by (auto simp: ex_google_service_def)
qed

end
