(* ===== verification/Platform.thy ===== *)
theory Platform
  imports Http_Lib
begin

text \<open>
  What surrounds every handler (\<open>internal/platform/httpserver/router.go\<close> and \<open>access_tag.go\<close>), the health
  routes (\<open>internal/platform/health/handler.go\<close>) and the detector of disposable mail domains
  (\<open>internal/identity/disposableemail/detector.go\<close>).
\<close>

section \<open>The router\<close>

text \<open>
  How a handler ends: it returns, or it panics, with \<open>http.ErrAbortHandler\<close> or with anything else; the
  connection is cut when the panic goes on to the server.
\<close>

datatype 'd handled = Returned "'d response" | Panicked bool "'d response"

datatype 'd served = Served "'d response" | Cut

definition router_headers :: "'d response \<Rightarrow> 'd response" where
  "router_headers response =
     header_Set ''X-Content-Type-Options'' ''nosniff'' (header_Set ''Cache-Control'' ''no-store'' response)"

definition NewRouter :: "('d response \<Rightarrow> 'd handled) \<Rightarrow> 'd served" where
  "NewRouter handler =
     (case handler (router_headers empty_response) of
        Returned response \<Rightarrow> Served response
      | Panicked abort response \<Rightarrow>
          if abort then Cut
          else if rs_status response \<noteq> None then Cut
          else Served (WriteHeader 500 response))"

text \<open>The tag is compared by its hash, in constant time.\<close>

definition RequireAccessTag ::
  "(bytes \<Rightarrow> bytes) \<Rightarrow> string \<Rightarrow> string \<Rightarrow> web_request \<Rightarrow> ('d response \<Rightarrow> 'd handled) \<Rightarrow> 'd response \<Rightarrow> 'd handled" where
  "RequireAccessTag sha256 expected path request continue response =
     (if expected = [] \<or> HasPrefix path ''/health/'' then continue response
      else if sha256 expected \<noteq> sha256 (Header_Get request ''X-Orc-Access'')
        then Returned (WriteHeader 403 response)
      else continue response)"

lemma access_tag_refuses:
  assumes "expected \<noteq> []" and "\<not> HasPrefix path ''/health/''" and "sha256 expected \<noteq> sha256 (Header_Get request ''X-Orc-Access'')"
  shows "\<exists>response. NewRouter (RequireAccessTag sha256 expected path request continue) = Served response \<and> rs_status response = Some 403"
  using assms by (simp add: NewRouter_def RequireAccessTag_def WriteHeader_def router_headers_def header_Set_def empty_response_def)

section \<open>Health\<close>

definition writeStatus :: "int \<Rightarrow> string \<Rightarrow> string response \<Rightarrow> string response" where
  "writeStatus statusCode status response =
     write_document statusCode (Document (''{'' @ [CHR 0x22] @ ''status'' @ [CHR 0x22] @ '':'' @ [CHR 0x22] @ status @ [CHR 0x22] @ ''}'' @ [CHR 0x0A]))
       (header_Set ''Content-Type'' ''application/json'' (header_Set ''Cache-Control'' ''no-store'' response))"

definition health_live :: "string response \<Rightarrow> string response" where
  "health_live response = writeStatus 200 ''ok'' response"

text \<open>\<open>readiness\<close> is the answer of the check, a ping of the database.\<close>

definition health_ready :: "bool \<Rightarrow> string response \<Rightarrow> string response" where
  "health_ready readiness response =
     (if \<not> readiness then writeStatus 503 ''unavailable'' response else writeStatus 200 ''ready'' response)"

definition health_routes :: "bool \<Rightarrow> (string \<times> string \<times> (string response \<Rightarrow> string response)) list" where
  "health_routes readiness =
     [(''GET'', ''/health/live'', health_live), (''HEAD'', ''/health/live'', health_live),
      (''GET'', ''/health/ready'', health_ready readiness), (''HEAD'', ''/health/ready'', health_ready readiness)]"

section \<open>Disposable mail domains\<close>

text \<open>
  The background goroutine: it loads the list, waiting after each failure twice as long as before, and
  serves it until the context ends.  An event is what the goroutine waits for: the end of a load (whatever
  the context, which a load does not watch here), the timer, or the context found done.
\<close>

definition initialRetryDelay :: duration where "initialRetryDelay = 30 * second"
definition maximumRetryDelay :: duration where "maximumRetryDelay = 15 * minute"

datatype detector =
    Detector_loading duration
  | Detector_waiting duration
  | Detector_serving "string \<Rightarrow> bool"
  | Detector_stopped

datatype detector_event = Loaded "string \<Rightarrow> bool" | Load_failed | Timer | Context_done

definition Start :: detector where "Start = Detector_loading initialRetryDelay"

fun detector_run :: "detector_event \<Rightarrow> detector \<Rightarrow> detector" where
  "detector_run (Loaded listed) (Detector_loading retryDelay) = Detector_serving listed"
| "detector_run Load_failed (Detector_loading retryDelay) = Detector_waiting retryDelay"
| "detector_run Timer (Detector_waiting retryDelay) = Detector_loading (min (retryDelay * 2) maximumRetryDelay)"
| "detector_run Context_done (Detector_waiting retryDelay) = Detector_stopped"
| "detector_run Context_done (Detector_serving listed) = Detector_stopped"
| "detector_run _ detector = detector"

definition IsDisposable :: "detector \<Rightarrow> string \<Rightarrow> bool" where
  "IsDisposable detector email = (case detector of Detector_serving listed \<Rightarrow> listed email | _ \<Rightarrow> False)"

record detector_config =
  dc_CacheDir :: string
  dc_DataURL :: string
  dc_AllowDomains :: "string list"

datatype list_option = WithHTTPTimeout duration | WithAutoRefresh duration | WithCustomAllowlist "string list"
  | WithLogger | WithCacheDir string | WithDataURL string

definition open_options :: "detector_config \<Rightarrow> list_option list" where
  "open_options config = [WithHTTPTimeout (10 * second), WithAutoRefresh (24 * hour), WithCustomAllowlist (dc_AllowDomains config),
     WithLogger]
     @ (if dc_CacheDir config \<noteq> [] then [WithCacheDir (dc_CacheDir config)] else [])
     @ (if dc_DataURL config \<noteq> [] then [WithDataURL (dc_DataURL config)] else [])"

text \<open>However often loading fails, the next attempt is between half a minute and a quarter of an hour away.\<close>

definition delay_ok :: "detector \<Rightarrow> bool" where
  "delay_ok detector = (case detector of
     Detector_loading d \<Rightarrow> initialRetryDelay \<le> d \<and> d \<le> maximumRetryDelay
   | Detector_waiting d \<Rightarrow> initialRetryDelay \<le> d \<and> d \<le> maximumRetryDelay | _ \<Rightarrow> True)"

lemma detector_run_delay: "delay_ok detector \<Longrightarrow> delay_ok (detector_run event detector)"
  by (cases "(event, detector)" rule: detector_run.cases)
    (auto simp: delay_ok_def initialRetryDelay_def maximumRetryDelay_def duration_defs)

lemma retry_delay_bounds: "delay_ok (fold detector_run events Start)"
proof (induction events rule: rev_induct)
  case Nil show ?case by (simp add: delay_ok_def Start_def initialRetryDelay_def maximumRetryDelay_def duration_defs)
qed (simp add: detector_run_delay)

text \<open>Without a list nothing is disposable.\<close>

lemma unloaded_allows: "\<forall>listed. Loaded listed \<notin> set events \<Longrightarrow> \<not> IsDisposable (fold detector_run events Start) email"
proof -
  assume none: "\<forall>listed. Loaded listed \<notin> set events"
  have "\<forall>listed. fold detector_run events Start \<noteq> Detector_serving listed"
    using none
  proof (induction events rule: rev_induct)
    case (snoc e es)
    then show ?case by (cases "(e, fold detector_run es Start)" rule: detector_run.cases) auto
  qed (simp add: Start_def)
  then show ?thesis by (auto simp: IsDisposable_def split: detector.split)
qed

end
