(* ===== verification/Setup.thy ===== *)
theory Setup
  imports Config Google_Verifier Platform Conn_Http Id_Http Relay_Serve
begin

text \<open>
  Building the server from its configuration (\<open>cmd/server/setup.go\<close>, \<open>routes.go\<close> and \<open>transport.go\<close>).
\<close>

section \<open>Services\<close>

datatype mailer = Mailer_mailgun mailgun_mailer | Mailer_smtp smtp_mailer | Mailer_log

definition setupMailer :: "startup \<Rightarrow> bool \<Rightarrow> config \<Rightarrow> mailer option" where
  "setupMailer st base config =
     (let mailgun = cf_Mailgun config; smtp = cf_SMTP config in
      if ms_APIKey mailgun \<noteq> [] then
        map_option Mailer_mailgun (NewMailgunMailer (st_unicode_lower st) base
          \<lparr> mg_APIKey = ms_APIKey mailgun, mg_Domain = ms_Domain mailgun, mg_FromAddress = ms_FromAddress mailgun,
            mg_Region = ms_Region mailgun, mg_Timeout = 0 \<rparr>)
      else if ss_Host smtp = [] then Some Mailer_log
      else
        map_option Mailer_smtp (NewSMTPMailer
          \<lparr> sc_Host = ss_Host smtp, sc_Port = ss_Port smtp, sc_Username = ss_Username smtp,
            sc_Password = ss_Password smtp, sc_FromAddress = ss_FromAddress smtp, sc_TLSMode = ss_TLSMode smtp,
            sc_Timeout = 0 \<rparr>))"

text \<open>An error, or the verifier if there is one: \<open>library\<close> is the validator of the ID token library.\<close>

definition setupGoogleVerifier :: "id_validator option \<Rightarrow> config \<Rightarrow> google_verifier option option" where
  "setupGoogleVerifier library config =
     (if cf_GoogleAudiences config = [] then Some None
      else case NewVerifier library (cf_GoogleAudiences config) of None \<Rightarrow> None | Some verifier \<Rightarrow> Some (Some verifier))"

definition setupDisposableEmailDetector :: "config \<Rightarrow> detector_config option" where
  "setupDisposableEmailDetector config =
     (let d = cf_DisposableEmail config in
      if \<not> de_Enabled d then None
      else Some \<lparr> dc_CacheDir = de_CacheDir d, dc_DataURL = de_DataURL d, dc_AllowDomains = de_AllowDomains d \<rparr>)"

text \<open>
  The options of the two services.  The identity service keeps what is not a matter of configuration
  (\<open>base\<close>: store, hasher, clock); the detector answers for the state its goroutine has reached.
\<close>

definition identity_options :: "id_service \<Rightarrow> google_verifier option \<Rightarrow> detector option \<Rightarrow> id_service" where
  "identity_options base google detector = base\<lparr>id_google_verifier := map_option google_Verify google,
     id_is_disposable := map_option IsDisposable detector, accessLifetime := 0, refreshLifetime := 0\<rparr>"

definition connector_options ::
  "config \<Rightarrow> (string \<Rightarrow> conn_error option) \<Rightarrow> (string \<Rightarrow> string \<Rightarrow> conn_error option) \<Rightarrow> service_options" where
  "connector_options config account session =
     \<lparr> o_PairingCodeKey = cf_PairingCodeKey config, o_DeviceCredentialKey = cf_DeviceCredentialKey config,
       o_ServiceID = cf_ServiceID config, o_VerificationURI = cf_VerificationURI config,
       o_ChallengeLifetime = 0, o_PairingLifetime = 0, o_DeviceCredentialLifetime = 0, o_ConnectorCredentialLifetime = 0,
       o_CredentialActivationWindow = 0, o_TicketLifetime = 0, o_PollInterval = 0,
       o_AuthorizeAccount = Some account, o_AuthorizeSession = Some session \<rparr>"

text \<open>
  Building the services, with every error; \<open>salt\<close> is nothing when the random source or the hashing of the
  dummy password fails.
\<close>

datatype setup_error = Mailer_failed | Verifier_failed | Identity_failed | Connectors_failed

record services =
  sx_mailer :: mailer
  sx_identity :: id_service
  sx_connectors :: conn_service
  sx_hub :: relay_hub

definition SetupServices ::
  "startup \<Rightarrow> bool \<Rightarrow> id_validator option \<Rightarrow> id_service \<Rightarrow> bytes option \<Rightarrow> crypto \<Rightarrow> detector
     \<Rightarrow> (string \<Rightarrow> conn_error option) \<Rightarrow> (string \<Rightarrow> string \<Rightarrow> conn_error option) \<Rightarrow> config \<Rightarrow> setup_error + services" where
  "SetupServices st base library standard salt cr detector account session config =
     (case setupMailer st base config of None \<Rightarrow> Inl Mailer_failed | Some mailer \<Rightarrow>
      case setupGoogleVerifier library config of None \<Rightarrow> Inl Verifier_failed | Some google \<Rightarrow>
      let options = identity_options standard google (map_option (\<lambda>_. detector) (setupDisposableEmailDetector config)) in
      case salt of None \<Rightarrow> Inl Identity_failed | Some salt \<Rightarrow>
      case NewService cr (connector_options config account session) of None \<Rightarrow> Inl Connectors_failed | Some connectorService \<Rightarrow>
      Inr \<lparr> sx_mailer = mailer, sx_identity = NewIdentityService salt options, sx_connectors = connectorService,
        sx_hub = newSecureHub \<rparr>)"

section \<open>Routes\<close>

definition cookieSecure :: "config \<Rightarrow> bool" where
  "cookieSecure config \<longleftrightarrow> \<not> cf_InsecureDevelopmentCookies config"

definition identity_http :: "config \<Rightarrow> id_http_config" where
  "identity_http config = \<lparr> ic_AllowedOrigins = cf_AllowedOrigins config, ic_CookieSecure = cookieSecure config,
     ic_RegistrationEnabled = cf_RegistrationEnabled config, ic_TrustedProxies = cf_TrustedProxies config \<rparr>"

definition connectors_http :: "config \<Rightarrow> conn_http_config" where
  "connectors_http config = \<lparr> hc_AllowedOrigins = cf_AllowedOrigins config, hc_CookieSecure = cookieSecure config,
     hc_TrustedProxies = cf_TrustedProxies config \<rparr>"

definition relay_http :: "config \<Rightarrow> relay_config" where
  "relay_http config = \<lparr> rc_AllowedOrigins = cf_AllowedOrigins config,
     rc_DevelopmentEcho = cf_DevelopmentRelayEnabled config, rc_RevalidationInterval = 0 \<rparr>"

section \<open>Transport\<close>

record server_settings =
  sn_Addr :: string
  sn_TLSConfig :: "tls_settings option"
  sn_ReadHeaderTimeout :: duration
  sn_ReadTimeout :: duration
  sn_WriteTimeout :: duration
  sn_IdleTimeout :: duration
  sn_MaxHeaderBytes :: nat

definition http_server :: "config \<Rightarrow> server_settings" where
  "http_server config = \<lparr> sn_Addr = cf_HTTPAddress config, sn_TLSConfig = cf_TLS config,
     sn_ReadHeaderTimeout = 5 * second, sn_ReadTimeout = 15 * second, sn_WriteTimeout = 15 * second,
     sn_IdleTimeout = 60 * second, sn_MaxHeaderBytes = 2 ^ 20 \<rparr>"

datatype listening = Encrypted tls_settings | Plain

definition serveAPI :: "server_settings \<Rightarrow> listening" where
  "serveAPI server = (case sn_TLSConfig server of Some tls \<Rightarrow> Encrypted tls | None \<Rightarrow> Plain)"

section \<open>Production\<close>

text \<open>A mailer fit for production: never the log, and never SMTP in the clear.\<close>

definition delivers_safely :: "mailer \<Rightarrow> bool" where
  "delivers_safely m = (case m of Mailer_log \<Rightarrow> False | Mailer_smtp s \<Rightarrow> sc_TLSMode (ml_config s) \<in> {''starttls'', ''tls''}
     | Mailer_mailgun _ \<Rightarrow> True)"

lemma setupMailer_safe:
  assumes "validateMail st (cf_SMTP config) (cf_Mailgun config) False = None" and "setupMailer st base config = Some m"
  shows "delivers_safely m"
  using assms
  by (auto simp: setupMailer_def validateMail_def NewSMTPMailer_def delivers_safely_def TLSModeNone_def TLSModeStartTLS_def
    TLSModeImplicit_def Let_def split: if_splits)

lemma connectors_configured:
  assumes "NewService cr (connector_options config account session) = Some svc"
  shows "pairingCodeKey svc = cf_PairingCodeKey config" and "verificationURI svc = cf_VerificationURI config"
    and "32 \<le> length (cf_DeviceCredentialKey config) \<Longrightarrow> deviceCredentialKey svc = cf_DeviceCredentialKey config"
  using assms by (auto simp: NewService_def connector_options_def Let_def split: if_splits)

text \<open>
  C9: a server that starts outside development is a secure one.  Whatever its environment, it listens with
  TLS 1.2 or later only, on a certificate; its keys have at least 32 bytes; its cookies are marked secure
  and the echo socket is not mounted; the address shown to a pairing device is an HTTPS one without
  credentials; and its mail goes to a provider, never to the log and never in the clear.
\<close>

theorem production_is_secure:
  assumes "LoadConfig st = Inr config" and "st_GetString st initial_defaults ''APP_ENV'' \<noteq> ''development''"
    and "SetupServices st base library standard salt cr detector account session config = Inr built"
  shows "(\<exists>tls. serveAPI (http_server config) = Encrypted tls \<and> 771 \<le> tls_MinVersion tls \<and> tls_Certificates tls \<noteq> [])
    \<and> 32 \<le> length (pairingCodeKey (sx_connectors built)) \<and> 32 \<le> length (deviceCredentialKey (sx_connectors built))
    \<and> ic_CookieSecure (identity_http config) \<and> hc_CookieSecure (connectors_http config)
    \<and> relay_paths (relay_NewHandler (relay_http config)) = [''/v1/relay'']
    \<and> (\<exists>parsed. st_ParseRequestURI st (verificationURI (sx_connectors built)) = Some parsed \<and> url_Scheme parsed = ''https''
          \<and> url_Host parsed \<noteq> [] \<and> \<not> url_User parsed \<and> url_RawQuery parsed = [] \<and> url_Fragment parsed = [])
    \<and> (case sx_mailer built of Mailer_log \<Rightarrow> False | Mailer_smtp s \<Rightarrow> sc_TLSMode (ml_config s) \<in> {''starttls'', ''tls''}
         | Mailer_mailgun _ \<Rightarrow> True)"
proof -
  have production: "\<not> is_development st" using assms(2) by (simp add: is_development_def)
  obtain m where m: "setupMailer st base config = Some m" "sx_mailer built = m"
    and service: "NewService cr (connector_options config account session) = Some (sx_connectors built)"
    using assms(3) by (auto simp: SetupServices_def Let_def split: option.splits)
  have ok: "config_ok st config" by (rule LoadConfig_ok[OF assms(1)])
  then have "delivers_safely m" using setupMailer_safe[OF _ m(1)] production by (simp add: config_ok_def)
  then show ?thesis
    using ok production connectors_configured[OF service] m(2)
    by (auto simp: config_ok_def validProductionVerificationURI_def VersionTLS12_def delivers_safely_def serveAPI_def http_server_def identity_http_def connectors_http_def cookieSecure_def
      relay_paths_def relay_http_def relay_NewHandler_def split: option.splits)
qed

text \<open>A production environment.\<close>

definition ex_env :: "string \<Rightarrow> string" where
  "ex_env name = (case map_of
     [(''APP_ENV'', ''production''), (''TLS_CERT_FILE'', ''c''), (''TLS_KEY_FILE'', ''k''),
      (''PAIRING_CODE_KEY'', replicate 32 (CHR ''x'')), (''SERVICE_ID'', ''s''), (''PAIRING_VERIFICATION_URI'', ''u''),
      (''REGISTRATION_ENABLED'', ''true''), (''DISPOSABLE_EMAIL_FILTER'', ''true''), (''SMTP_HOST'', ''h''),
      (''SMTP_FROM_ADDRESS'', ''f@b''), (''SMTP_TLS_MODE'', ''tls'')] name of None \<Rightarrow> [] | Some v \<Rightarrow> v)"

definition ex_verification :: "string \<Rightarrow> url option" where
  "ex_verification _ = Some \<lparr> url_Scheme = ''https'', url_Host = ''h'', url_User = False, url_RawQuery = [], url_Fragment = [] \<rparr>"

definition ex_startup :: startup where
  "ex_startup = \<lparr> st_GetString = (\<lambda>_. ex_env), st_GetInt = (\<lambda>_ _. 587),
     st_ParseRequestURI = ex_verification,
     st_LoadX509KeyPair = (\<lambda>_ _. Some ''certificate''), st_unicode_lower = id \<rparr>"

definition ex_setup :: "config \<Rightarrow> setup_error + services" where
  "ex_setup = SetupServices ex_startup True None ex_id_service (Some []) ex_crypto Start (\<lambda>_. None) (\<lambda>_ _. None)"

lemma ex_startup_loads:
  "case LoadConfig ex_startup of Inl _ \<Rightarrow> False
   | Inr config \<Rightarrow> setupMailer ex_startup True config \<noteq> None \<and> cf_GoogleAudiences config = []
       \<and> NewService ex_crypto (connector_options config (\<lambda>_. None) (\<lambda>_ _. None)) \<noteq> None"
  by code_simp

theorem production_is_secure_witness:
  "\<exists>config built tls. LoadConfig ex_startup = Inr config \<and> ex_setup config = Inr built
     \<and> serveAPI (http_server config) = Encrypted tls \<and> 771 \<le> tls_MinVersion tls
     \<and> (\<exists>parsed. ex_verification (verificationURI (sx_connectors built)) = Some parsed \<and> url_Scheme parsed = ''https'')"
proof -
  obtain config m c where load: "LoadConfig ex_startup = Inr config" and "setupMailer ex_startup True config = Some m"
      "cf_GoogleAudiences config = []" "NewService ex_crypto (connector_options config (\<lambda>_. None) (\<lambda>_ _. None)) = Some c"
    using ex_startup_loads by (auto split: sum.splits)
  then obtain built where built: "ex_setup config = Inr built"
    by (simp add: ex_setup_def SetupServices_def setupGoogleVerifier_def Let_def)
  have "st_GetString ex_startup initial_defaults ''APP_ENV'' \<noteq> ''development''" by (simp add: ex_startup_def ex_env_def)
  from production_is_secure[OF load this built[unfolded ex_setup_def]] load built show ?thesis by (auto simp: ex_startup_def)
qed

end
