(* ===== verification/Startup.thy ===== *)
theory Startup
  imports Setup
begin

text \<open>
  The life of the process (\<open>start\<close> in \<open>cmd/server/main.go\<close>, \<open>SetupDatabase\<close> in \<open>setup.go\<close>, \<open>database.Open\<close> in
  \<open>internal/platform/database\<close> and \<open>Run\<close> in \<open>transport.go\<close>): what is opened, in which order, and that it is
  closed again however the start-up ends.  The host answers every call that may fail; the state is the list
  of the calls so far.
\<close>

datatype startup_call =
    Driver_open nat string
  | Obtain_pool nat
  | SetMaxIdleConns nat int
  | SetMaxOpenConns nat int
  | SetConnMaxIdleTime nat duration
  | SetConnMaxLifetime nat duration
  | Ping nat
  | Close_pool nat
  | Migrate_identity
  | Migrate_connectors
  | Listen string
  | Serve listening
  | Wait_signal
  | Ended_by_close
  | Shutdown duration
  | Close_relay
  | Close_server

datatype start_error =
    Bad_config config_error
  | Database_failed
  | Migration_failed
  | Connector_migration_failed
  | Bad_setup setup_error
  | Listen_failed
  | Serve_failed
  | Shutdown_failed

type_synonym host = "startup_call list \<Rightarrow> bool"

type_synonym start_op = "(startup_call list, start_error, unit) op"

text \<open>A call whose failure is the error \<open>e\<close>, and one whose result is ignored.\<close>

definition ask :: "host \<Rightarrow> start_error \<Rightarrow> startup_call \<Rightarrow> start_op" where
  "ask host e c = (\<lambda>log. (if host (log @ [c]) then Inr () else Inl e, log @ [c]))"

definition note_calls :: "startup_call list \<Rightarrow> start_op" where
  "note_calls cs = (\<lambda>log. (Inr (), log @ cs))"

text \<open>What is closed when an operation fails, and what is deferred.\<close>

definition unless_done :: "startup_call list \<Rightarrow> start_op \<Rightarrow> start_op" where
  "unless_done cs m = (\<lambda>log. case m log of (Inl e, log) \<Rightarrow> (Inl e, log @ cs) | (Inr x, log) \<Rightarrow> (Inr x, log))"

definition finally_do :: "startup_call list \<Rightarrow> start_op \<Rightarrow> start_op" where
  "finally_do cs m = (\<lambda>log. case m log of (r, log) \<Rightarrow> (r, log @ cs))"

section \<open>The database\<close>

definition database_Open :: "host \<Rightarrow> nat \<Rightarrow> string \<Rightarrow> start_op" where
  "database_Open host n dsn =
     seq (ask host Database_failed (Driver_open n dsn)) (\<lambda>_.
     seq (ask host Database_failed (Obtain_pool n)) (\<lambda>_.
     seq (note_calls [SetMaxIdleConns n 5, SetMaxOpenConns n 20, SetConnMaxIdleTime n (5 * minute),
       SetConnMaxLifetime n (30 * minute)]) (\<lambda>_.
     unless_done [Close_pool n] (ask host Database_failed (Ping n)))))"

text \<open>\<open>Databases.Close\<close>: the pools in the order they were opened.\<close>

definition Databases_Close :: "nat list \<Rightarrow> startup_call list" where
  "Databases_Close pools = map Close_pool pools"

text \<open>Pool 0 is the identity module's, pool 1 the connectors'; the context of the migrations is left out.\<close>

definition SetupDatabase :: "host \<Rightarrow> config \<Rightarrow> start_op" where
  "SetupDatabase host config =
     seq (database_Open host 0 (cf_DatabaseURL config)) (\<lambda>_.
     seq (unless_done (Databases_Close [0]) (database_Open host 1 (cf_DatabaseURL config))) (\<lambda>_.
     seq (unless_done (Databases_Close [0, 1]) (ask host Migration_failed Migrate_identity)) (\<lambda>_.
     unless_done (Databases_Close [0, 1]) (ask host Connector_migration_failed Migrate_connectors))))"

section \<open>Serving\<close>

definition shutdownTimeout :: duration where "shutdownTimeout = 10 * second"

text \<open>
  The select: the host says whether the context ended before the server did, and if it did not, whether the
  server ended because it was closed.
\<close>

definition Run :: "host \<Rightarrow> config \<Rightarrow> start_op" where
  "Run host config =
     seq (ask host Listen_failed (Listen (cf_HTTPAddress config))) (\<lambda>_.
     finally_do [Close_server]
       (seq (note_calls [Serve (serveAPI (http_server config))]) (\<lambda>_.
        seq (attempt (ask host Serve_failed Wait_signal)) (\<lambda>r. case r of
          Inl _ \<Rightarrow> ask host Serve_failed Ended_by_close
        | Inr _ \<Rightarrow> ask host Shutdown_failed (Shutdown shutdownTimeout)))))"

text \<open>The process: of the modules mounted, the relay is the one with a \<open>Close\<close>.\<close>

definition start :: "host \<Rightarrow> startup \<Rightarrow> (config \<Rightarrow> setup_error + services) \<Rightarrow> start_op" where
  "start host st setup =
     (case LoadConfig st of
        Inl e \<Rightarrow> fail (Bad_config e)
      | Inr config \<Rightarrow>
          seq (SetupDatabase host config) (\<lambda>_.
          finally_do (Databases_Close [0, 1])
            (case setup config of
               Inl e \<Rightarrow> fail (Bad_setup e)
             | Inr _ \<Rightarrow> finally_do [Close_relay] (Run host config))))"

section \<open>Nothing is left open\<close>

text \<open>A call that was made and succeeded.\<close>

fun succeeded :: "host \<Rightarrow> startup_call \<Rightarrow> startup_call list \<Rightarrow> startup_call list \<Rightarrow> bool" where
  "succeeded host c before [] \<longleftrightarrow> False"
| "succeeded host c before (d # log) \<longleftrightarrow> (c = d \<and> host (before @ [d])) \<or> succeeded host c (before @ [d]) log"

lemmas start_defs = start_def SetupDatabase_def database_Open_def Run_def ask_def note_calls_def unless_done_def finally_do_def
  Databases_Close_def seq_def attempt_def fail_def

text \<open>
  Whatever fails, from the configuration to the shutdown, every connection pool that was opened is closed
  exactly once, the listener only opens after both migrations, and the relay's sockets and the server are
  closed before the pools they use.
\<close>

lemma start_leaves_nothing_open:
  assumes "start host st setup [] = (r, log)"
  shows "n \<in> {0, 1} \<Longrightarrow> count_list log (Close_pool n) = (if succeeded host (Obtain_pool n) [] log then 1 else 0)"
    and "Serve how \<in> set log \<Longrightarrow> succeeded host Migrate_identity [] log \<and> succeeded host Migrate_connectors [] log
      \<and> (\<exists>before. log = before @ [Close_server, Close_relay, Close_pool 0, Close_pool 1])"
proof -
  show "n \<in> {0, 1} \<Longrightarrow> count_list log (Close_pool n) = (if succeeded host (Obtain_pool n) [] log then 1 else 0)"
    using assms by (auto simp: start_defs split: sum.splits if_splits prod.splits)
  show "Serve how \<in> set log \<Longrightarrow> succeeded host Migrate_identity [] log \<and> succeeded host Migrate_connectors [] log
      \<and> (\<exists>before. log = before @ [Close_server, Close_relay, Close_pool 0, Close_pool 1])"
    using assms by (auto simp: start_defs split: sum.splits if_splits prod.splits)
qed

end
