(* ===== verification/Relay_Base64.thy ===== *)
theory Relay_Base64
  imports Relay_Frames
begin

text \<open>
  The relay's table of base64url bytes (\<open>isBase64URL\<close> in \<open>internal/relay/development.go\<close>) against the decoder
  of the texts it lets through.
\<close>

lemma decode_sextet_inject: "decode_sextet c = Some v \<Longrightarrow> decode_sextet d = Some v \<Longrightarrow> c = d"
proof -
  assume "decode_sextet c = Some v" "decode_sextet d = Some v"
  then have "byte_nat c = byte_nat d" by (auto simp: decode_sextet_def Let_def simp del: byte_nat_inject split: if_splits)
  then show ?thesis by simp
qed

lemma sextet_alphabet: "decode_sextet c \<noteq> None \<longleftrightarrow> c \<in> set base64URLAlphabet"
proof
  assume "c \<in> set base64URLAlphabet"
  then have "decode_sextet c \<in> set (map Some [0..<64])" unfolding decode_alphabet[symmetric] by simp
  then show "decode_sextet c \<noteq> None" by auto
next
  assume "decode_sextet c \<noteq> None"
  then obtain v where v: "decode_sextet c = Some v" by blast
  then have "v < 64" by (auto simp: decode_sextet_def Let_def split: if_splits)
  then have "c = encode_sextet v" using decode_sextet_inject[OF v] decode_encode_sextet by blast
  then show "c \<in> set base64URLAlphabet" using encode_sextet_in \<open>v < 64\<close> by simp
qed

lemma sextets_plain:
  "CHR 0x0D \<notin> set s \<Longrightarrow> CHR 0x0A \<notin> set s \<Longrightarrow>
   (case sextets s of None \<Rightarrow> \<not> set s \<subseteq> set base64URLAlphabet | Some vs \<Rightarrow> set s \<subseteq> set base64URLAlphabet \<and> length vs = length s)"
proof (induction s)
  case (Cons c s)
  then show ?case using sextet_alphabet[of c] by (auto split: option.splits)
qed simp

lemma decode_sextets_length:
  "case decode_sextets False vs of None \<Rightarrow> length vs mod 4 = 1
   | Some bs \<Rightarrow> length vs mod 4 \<noteq> 1 \<and> length bs = length vs * 3 div 4"
proof (induction False vs rule: decode_sextets.induct)
  case (5 v w x y r)
  have "Suc (Suc (Suc (Suc n))) mod 4 = n mod (4::nat)" "Suc (Suc (Suc (Suc n))) * 3 div 4 = Suc (Suc (Suc (n * 3 div 4)))" for n
    by presburger+
  then show ?case using 5 by (auto split: option.splits)
qed auto

text \<open>
  C40: the lookup table the relay runs every frame through accepts a text, of a length that can be one of
  unpadded base64url, exactly when the decoder accepts it and it holds no line break, which the decoder
  would skip; and the text then decodes to three bytes for every four of it.
\<close>

theorem base64url_table_is_decoder:
  "isBase64URL s \<and> length s mod 4 \<noteq> 1 \<longleftrightarrow>
     CHR 0x0D \<notin> set s \<and> CHR 0x0A \<notin> set s \<and> (\<exists>bs. DecodeString False s = Some bs \<and> length bs = length s * 3 div 4)"
proof (cases "CHR 0x0D \<in> set s \<or> CHR 0x0A \<in> set s")
  case True
  then show ?thesis using alphabet_not_newline by (auto simp: isBase64URL_alphabet)
next
  case False
  then show ?thesis
    using sextets_plain[of s] decode_sextets_length[of "the (sextets s)"]
    by (auto simp: isBase64URL_alphabet DecodeString_def split: option.splits)
qed

end
