(* ===== verification/Spec2Isabelle.thy ===== *)
theory Spec2Isabelle
  imports Conn_Final Client_Address Rate_Limit Relay_Dev Id_Atomic Id_Password Conn_Gate Server Mail_Props Startup Relay_Base64
begin
text \<open>
  A model of the Open Remote Code API server (the Go code under \<open>src/cmd/server\<close> and \<open>src/internal\<close>), with the
  theorems that make it correct.

  \<^bold>\<open>The program.\<close>  A server that lets a browser control a development tool on another machine.  The identity
  module keeps accounts, e-mail verification, sessions and Google sign-in.  The connectors module pairs an
  account's browsers (devices) with its machines (connectors), keeps the credentials of both and hands out
  single-use tickets for the relay.  The relay joins the WebSockets of one account: a socket opens with a
  ticket, is registered in a hub under its identity, and frames pass between the two ends of a trust.
  The connectors ask the identity module whether an account or session is active while their transaction is
  open; a session that ends, and a device or connector that is revoked, close their relay sockets through
  callbacks; and each socket revalidates its admission on a timer.  Each module has its HTTP routes behind
  an origin check and a rate limiter.  Configuration, setup, start-up and shutdown are around them.

  \<^bold>\<open>Shared.\<close>  \<open>Prelude\<close>: bytes, instants and durations (integers of nanoseconds); operations that take a state
  and return an error or a value with the state after (\<open>seq\<close>, \<open>attempt\<close>, \<open>on_error\<close>); the collections \<open>runs\<close>
  (what a successful run did) and \<open>vc\<close> (verification conditions); tables as lists of rows, with the
  \<^bold>\<open>locale\<close> \<open>table\<close>, interpreted for each table of both modules.  \<open>Go_Lib\<close>, \<open>Go_Net\<close>: base64, UTF-8, \<open>TrimSpace\<close>,
  \<open>net.ParseIP\<close> and the like.  \<open>Http_Lib\<close>: requests, responses, cookies, JSON bodies, the gates.

  \<^bold>\<open>Connectors\<close> (\<open>src/internal/connectors\<close>).  \<open>Conn_Types\<close> (\<open>types.go\<close>), \<open>Conn_Store\<close> (the PostgreSQL store, with the
  unique, check and foreign-key constraints of the schema), \<open>Conn_Codec\<close> (tokens, codes, names, identity proofs),
  \<open>Conn_Pairing\<close>, \<open>Conn_Credentials\<close> and \<open>Conn_Tickets\<close> (\<open>service.go\<close>).  An operation is a function of the service,
  the instant \<open>now\<close> it reads from the clock and the world (database, random source, announcements); each transaction closure
  is a definition of its own (\<open>claim_transaction\<close>, \<open>confirm_transaction\<close>, ...), rolled back by \<open>WithinTransaction\<close>.
  \<open>Conn_Evolution\<close> says how each table may change, \<open>Conn_Steps\<close> that every operation does only that and keeps the
  invariant \<open>db_inv\<close>, and \<open>Conn_Machine\<close> that all runs do: requests in any order at rising instants, between which the
  authorizers' answers change, users register and random bytes arrive.  \<open>Conn_Example\<close> is one run on concrete data.  \<open>Conn_Atomic\<close>: errors leave the
  database alone.  \<open>Conn_Once\<close>: tickets and challenges are spent once.  \<open>Conn_Final\<close>: a revoked device stays out; the typing of stored
  pairings and trusts.  \<open>Conn_Http\<close> and \<open>Conn_Gate\<close> (\<open>httpapi/handler.go\<close>): handlers, routes, gates, what they keep out.

  \<^bold>\<open>Identity\<close> (\<open>src/internal/identity\<close>).  \<open>Id_Types\<close>, \<open>Id_Store\<close>, \<open>Id_Service\<close> (\<open>service.go\<close>, \<open>token.go\<close>), \<open>Id_Google\<close> (\<open>google.go\<close>),
  \<open>Id_Password\<close> (\<open>password.go\<close>) and \<open>Google_Verifier\<close> (\<open>googleid/verifier.go\<close>) are the model, in the same style;
  \<open>Id_Evolution\<close>, \<open>Id_Steps\<close>, \<open>Id_Transactions\<close> and \<open>Id_Machine\<close> give the evolution, the invariant \<open>id_inv\<close> and the runs (with
  an operator who may disable an account); \<open>Id_Example\<close> is a concrete run.  \<open>Id_Sessions\<close>: access tokens, refresh tokens,
  sign-out and the invariant.  \<open>Id_Codes\<close>: codes are uniform, guesses run out, registration tells nothing.  \<open>Id_Linking\<close>: who can sign in to an
  account.  \<open>Id_Atomic\<close>: errors and the retry loop of a Google sign-in.  \<open>Id_Announce\<close>: no session ends in silence.  \<open>Id_Http\<close> and
  \<open>Id_Cookie\<close> (\<open>httpapi/handler.go\<close>): the routes and the refresh cookie.  \<open>Mail\<close> and \<open>Mail_Props\<close>: the mailers and the SMTP conversation,
  whose log-based guarantees share the locale \<open>log_order\<close>.

  \<^bold>\<open>Relay\<close> (\<open>src/internal/relay\<close>).  \<open>Relay_Frames\<close> (what a hello and an envelope must be), \<open>Relay_Hub\<close> (peers, queues, hub), \<open>Relay_Machine\<close> (a
  step relation: critical sections of the hub, single effects still to be carried out, and a socket's own actions interleave
  freely), \<open>Relay_Props\<close> (isolation, presence, replacement, bounds), \<open>Relay_Serve\<close> (the goroutines of a socket, turn by turn,
  and their refinement of the step relation), \<open>Relay_Base64\<close> (the table of base64url bytes), \<open>Relay_Dev\<close> (the echo hub).

  \<^bold>\<open>Platform and server\<close> (\<open>src/internal/platform\<close>, \<open>src/cmd/server\<close>).  \<open>Rate_Limit\<close> (the fixed-window limiter and its refinement of a
  plain table, with the locale \<open>rate_limit\<close>), \<open>Client_Address\<close> (whom a request counts against), \<open>Platform\<close> (router, access tag, health,
  disposable-mail detector), \<open>Config\<close> (\<open>config.go\<close>), \<open>Setup\<close> (\<open>setup.go\<close>, \<open>routes.go\<close>, \<open>transport.go\<close>), \<open>Startup\<close> (\<open>main.go\<close>),
  \<open>Server\<close> (the callbacks between identity and relay).

  \<^bold>\<open>Bounds and termination.\<close>  No definition runs on fuel.  The loops of the code are structural recursions, but for
  those of \<open>Go_Lib\<close> and the limiter, which have a measure; the draw of a code has the 64 rounds of the source; the retry of a Google sign-in is a
  \<open>partial_function\<close> that is proved to return.  Random sources are finite lists of bytes, and a draw from a list that is too
  short is the error of \<open>io.ReadFull\<close>; where a theorem needs an answer it assumes enough bytes (356 for a registration: 18 and 32 for
  its identifiers, 256 for the code, 50 for the decoy).  Words are 32 bits wide in codes and 64 bits in pairing codes.

  \<^bold>\<open>Choices of the model.\<close>
  Transactions run one after the other, as their row locks arrange it for the rows they share; \<open>Login\<close> reads its user outside the
  transaction, as the code does.  The database does not fail on its own: its errors are missing rows and violated constraints.
  Upper limits of columns, NUL characters and the rounding of timestamps to microseconds are left out.  \<open>First\<close> takes the
  matching row with the least primary key, compared by bytes; an upsert writes every column.  A \<open>time.Duration\<close> and an instant are
  unbounded, so \<open>Time.Sub\<close> does not saturate; \<open>Duration.Seconds\<close> does not round.  The order in which a map is walked is an
  argument.  The worker limit of the password hasher and the cancellation of contexts are left out.  A panic of the limiter
  becomes the router's 500.

  \<^bold>\<open>Parameters.\<close>  Code that is not in the repository is an argument: SHA-256, HMAC, ECDSA, P-256, Argon2, the decoding of JSON,
  \<open>net/mail\<close>, the media-type parser, viper, \<open>url.ParseRequestURI\<close>, key pairs, the validator of Google tokens, the mail host and the
  Mailgun client, the list of disposable domains, the WebSocket library, the Unicode case table, and the calls of the operating system.

  \<^bold>\<open>Not modelled.\<close>  \<open>cmd/loadtest\<close> (a client), \<open>WrapHandler\<close>, \<open>TCPCheck\<close>, \<open>NewVerifierWithHTTPClient\<close>, the SQL of the migrations and the
  one-off data migration, the encoding of JSON, logging, and the matching of paths by the router.

  \<^bold>\<open>What the model showed.\<close>  A claim answered with a conflict does not spend its challenge (C13), although the documents
  say that every claim does.  A sign-in within half a minute of a code prolongs it, to ten and a half minutes after it was mailed (C26), where
  the documents say ten.  A claim with the code of a completed pairing that has expired marks that pairing as expired.

  \<^bold>\<open>Properties.\<close>  Each is a theorem after a text with its number: C1-C3, C8, C12, C13 of the connectors; C4-C7, C14-C17, C40 of the relay and
  its callbacks; C9-C11, C39 of setup, Google tokens and mail; C18-C22 of the limiter and client addresses; C23-C35 of identity;
  C36-C38 of the HTTP surface.
\<close>

end
